(* ===== verification/Bench_Prelude.thy ===== *)
theory Bench_Prelude
  imports Complex_Main "HOL-Library.Word" "HOL-Library.List_Lexorder" "HOL-Library.Char_ord"
    "HOL-Library.Multiset"
begin

text \<open>
  What the component theories share: the machine integers of the Rust program, the outcome of
  a fallible Rust function (\<open>Ok\<close>, \<open>Err\<close> or a panic), Rust strings as lists of UTF-8
  bytes, and the parts of Rust's standard library the program calls on strings and integers
  (\<open>to_string\<close>, \<open>parse\<close>, \<open>find\<close>, \<open>split\<close>, \<open>chars\<close>), each with the lemmas the
  components use.
\<close>

section \<open>Machine integers\<close>

type_synonym u8 = "8 word"
type_synonym u16 = "16 word"
type_synonym u32 = "32 word"
type_synonym u64 = "64 word"

text \<open>The program is built for 64-bit targets, where \<open>usize\<close> is as wide as \<open>u64\<close>.\<close>

type_synonym usize = "64 word"

text \<open>\<open>u64::saturating_mul\<close>.\<close>

definition saturating_mul :: "u64 \<Rightarrow> u64 \<Rightarrow> u64" where
  "saturating_mul a b = (if unat a * unat b < 2 ^ 64 then a * b else - 1)"

lemma unat_saturating_mul:
  "unat (saturating_mul a b) = min (unat a * unat b) (2 ^ 64 - 1)"
proof (cases "unat a * unat b < 2 ^ 64")
  case True
  then have "unat (a * b) = unat a * unat b"
    by (simp add: unat_word_ariths)
  with True show ?thesis
    by (simp add: saturating_mul_def min_def)
next
  case False
  have "unat (- 1 :: u64) = 2 ^ 64 - 1"
    by (simp add: unsigned_minus_1_eq_mask mask_eq_exp_minus_1)
  with False show ?thesis
    by (simp add: saturating_mul_def min_def)
qed

section \<open>Outcomes of fallible functions\<close>

text \<open>
  A Rust function that returns \<open>Result\<close> ends in one of three ways: it returns \<open>Ok\<close>, it
  returns \<open>Err\<close>, or it panics (an \<open>expect\<close> that fails, an index out of range, a
  division by zero, an arithmetic overflow in a build that checks for it).
\<close>

datatype ('e, 'a) outcome = Ok 'a | Err 'e | Panicked string

fun bind_outcome :: "('e, 'a) outcome \<Rightarrow> ('a \<Rightarrow> ('e, 'b) outcome) \<Rightarrow> ('e, 'b) outcome" where
  "bind_outcome (Ok x) f = f x"
| "bind_outcome (Err e) f = Err e"
| "bind_outcome (Panicked m) f = Panicked m"

text \<open>\<open>result.map_err(f)\<close>, and the conversion of an error by \<open>?\<close>.\<close>

fun map_error :: "('e \<Rightarrow> 'f) \<Rightarrow> ('e, 'a) outcome \<Rightarrow> ('f, 'a) outcome" where
  "map_error f (Ok x) = Ok x"
| "map_error f (Err e) = Err (f e)"
| "map_error f (Panicked m) = Panicked m"

text \<open>\<open>f()?\<close>: the outcome of the caller when the callee did not return \<open>Ok\<close>.\<close>

fun stops :: "('e \<Rightarrow> 'f) \<Rightarrow> ('e, 'a) outcome \<Rightarrow> ('f, 'b) outcome option" where
  "stops f (Ok x) = None"
| "stops f (Err e) = Some (Err (f e))"
| "stops f (Panicked m) = Some (Panicked m)"

text \<open>\<open>anyhow::ensure!(c, e)\<close>.\<close>

definition ensure :: "bool \<Rightarrow> 'e \<Rightarrow> ('e, unit) outcome" where
  "ensure c e = (if c then Ok () else Err e)"

named_theorems outcome_simps "evaluation of fallible code"

named_theorems outcome_fails "where a failure of fallible code came from"

lemma bind_outcome_Ok_iff [outcome_simps]:
  "bind_outcome r f = Ok y \<longleftrightarrow> (\<exists>x. r = Ok x \<and> f x = Ok y)"
  by (cases r) auto

lemma bind_outcome_fails_iff [outcome_fails]:
  "bind_outcome r f = Err e \<longleftrightarrow> r = Err e \<or> (\<exists>x. r = Ok x \<and> f x = Err e)"
  "bind_outcome r f = Panicked m \<longleftrightarrow> r = Panicked m \<or> (\<exists>x. r = Ok x \<and> f x = Panicked m)"
  by (cases r; simp)+

lemma stops_Ok [simp]: "stops f r \<noteq> Some (Ok x)"
  by (cases r) auto

lemma map_error_fails_iff [outcome_fails]:
  "map_error g r = Err e \<longleftrightarrow> (\<exists>e'. r = Err e' \<and> e = g e')"
  "map_error g r = Panicked m \<longleftrightarrow> r = Panicked m"
  by (cases r; auto)+

lemma bind_outcome_Err_mono:
  "bind_outcome r f = Err e \<Longrightarrow> (\<And>x. f x = Err e \<Longrightarrow> g x = Err e) \<Longrightarrow> bind_outcome r g = Err e"
  by (cases r) simp_all

lemma map_error_Ok_iff [outcome_simps]: "map_error f r = Ok x \<longleftrightarrow> r = Ok x"
  by (cases r) auto

lemma ensure_Ok_iff [outcome_simps]: "ensure c e = Ok u \<longleftrightarrow> c"
  by (simp add: ensure_def)

lemma bind_ensure [outcome_simps]:
  "bind_outcome (ensure c e) f = (if c then f () else Err e)"
  by (simp add: ensure_def)

text \<open>\<open>iter.map(f).collect::<Result<Vec<_>>>()\<close>: the first failure wins.\<close>

fun collect_outcome :: "('a \<Rightarrow> ('e, 'b) outcome) \<Rightarrow> 'a list \<Rightarrow> ('e, 'b list) outcome" where
  "collect_outcome f [] = Ok []"
| "collect_outcome f (x # xs) =
     bind_outcome (f x) (\<lambda>y. bind_outcome (collect_outcome f xs) (\<lambda>ys. Ok (y # ys)))"

lemma collect_outcome_Ok_iff:
  "collect_outcome f xs = Ok ys \<longleftrightarrow> list_all2 (\<lambda>x y. f x = Ok y) xs ys"
  by (induction xs arbitrary: ys)
    (auto simp: outcome_simps list_all2_Cons1)

section \<open>Decimal notation\<close>

text \<open>\<open>to_string()\<close> and \<open>format!("{n}")\<close> of an unsigned integer.\<close>

definition digit_char :: "nat \<Rightarrow> char" where
  "digit_char d = char_of (48 + d)"

fun dec :: "nat \<Rightarrow> string" where
  "dec n = (if n < 10 then [digit_char n] else dec (n div 10) @ [digit_char (n mod 10)])"

declare dec.simps [simp del]

definition is_digit :: "char \<Rightarrow> bool" where
  "is_digit c \<longleftrightarrow> 48 \<le> (of_char c :: nat) \<and> (of_char c :: nat) \<le> 57"

definition digit_val :: "char \<Rightarrow> nat" where
  "digit_val c = of_char c - 48"

definition undec :: "string \<Rightarrow> nat" where
  "undec s = foldl (\<lambda>a c. 10 * a + digit_val c) 0 s"

lemma digit_val_digit_char [simp]: "d < 10 \<Longrightarrow> digit_val (digit_char d) = d"
  by (simp add: digit_val_def digit_char_def)

lemma is_digit_digit_char [simp]: "d < 10 \<Longrightarrow> is_digit (digit_char d)"
  by (simp add: is_digit_def digit_char_def)

lemma digit_val_less: "is_digit c \<Longrightarrow> digit_val c < 10"
  by (auto simp: is_digit_def digit_val_def)

lemma dec_not_Nil [simp]: "dec n \<noteq> []"
  by (subst dec.simps) simp

lemma undec_Nil [simp]: "undec [] = 0"
  by (simp add: undec_def)

lemma undec_append_digit: "undec (s @ [c]) = 10 * undec s + digit_val c"
  by (simp add: undec_def)

lemma undec_dec [simp]: "undec (dec n) = n"
proof (induction n rule: dec.induct)
  case (1 n)
  show ?case
  proof (cases "n < 10")
    case True
    then show ?thesis by (simp add: dec.simps [of n] undec_def)
  next
    case False
    with 1 show ?thesis
      by (simp add: dec.simps [of n] undec_append_digit)
  qed
qed

lemma dec_inject [simp]: "dec m = dec n \<longleftrightarrow> m = n"
  by (metis undec_dec)

lemma dec_digits: "c \<in> set (dec n) \<Longrightarrow> is_digit c"
proof (induction n rule: dec.induct)
  case (1 n)
  then show ?case
    by (cases "n < 10") (auto simp: dec.simps [of n])
qed

text \<open>The digits, to evaluate \<open>dec\<close> on numerals.\<close>

lemma digit_chars:
  "digit_char 0 = CHR ''0''"
  "digit_char (Suc 0) = CHR ''1''"
  "digit_char 2 = CHR ''2''"
  "digit_char 3 = CHR ''3''"
  "digit_char 4 = CHR ''4''"
  "digit_char 5 = CHR ''5''"
  "digit_char 6 = CHR ''6''"
  "digit_char 7 = CHR ''7''"
  "digit_char 8 = CHR ''8''"
  "digit_char 9 = CHR ''9''"
  by code_simp+

lemma undec_less: "\<forall>c \<in> set s. is_digit c \<Longrightarrow> undec s < 10 ^ length s"
proof (induction s rule: rev_induct)
  case (snoc c s)
  then have "undec s < 10 ^ length s" and "digit_val c < 10"
    by (auto intro: digit_val_less)
  then show ?case by (simp add: undec_append_digit)
qed simp

text \<open>
  \<open>str::parse\<close> at an unsigned type: an optional leading \<open>+\<close>, then at least one digit, and a value
  that fits. (\<open>from_str_radix\<close> accepts the sign for unsigned types too.)
\<close>

definition parse_unsigned :: "string \<Rightarrow> 'w::len word option" where
  "parse_unsigned s =
     (let ds = (case s of [] \<Rightarrow> [] | c # cs \<Rightarrow> if c = CHR ''+'' then cs else s)
      in if ds \<noteq> [] \<and> (\<forall>c \<in> set ds. is_digit c) \<and> undec ds < 2 ^ LENGTH('w)
         then Some (of_nat (undec ds)) else None)"

abbreviation parse_u64 :: "string \<Rightarrow> u64 option" where
  "parse_u64 \<equiv> parse_unsigned"

abbreviation parse_u8 :: "string \<Rightarrow> u8 option" where
  "parse_u8 \<equiv> parse_unsigned"

lemma plus_not_digit [simp]: "\<not> is_digit (CHR ''+'')"
  by (simp add: is_digit_def)

lemma parse_unsigned_digits:
  assumes "s \<noteq> []" and "\<forall>c \<in> set s. is_digit c" and "undec s < 2 ^ LENGTH('w::len)"
  shows "parse_unsigned s = Some (of_nat (undec s) :: 'w word)"
proof -
  from assms(1,2) have "hd s \<noteq> CHR ''+''"
    by (metis list.set_sel(1) plus_not_digit)
  with assms show ?thesis
    by (cases s) (auto simp: parse_unsigned_def)
qed

lemma parse_u64_digits:
  "s \<noteq> [] \<Longrightarrow> \<forall>c \<in> set s. is_digit c \<Longrightarrow> undec s < 2 ^ 64 \<Longrightarrow> parse_u64 s = Some (of_nat (undec s))"
  by (rule parse_unsigned_digits) simp_all

lemma parse_unsigned_dec [simp]: "parse_unsigned (dec (unat n)) = Some (n :: 'w::len word)"
proof -
  have "undec (dec (unat n)) < 2 ^ LENGTH('w)"
    using unsigned_less [of n] by simp
  from parse_unsigned_digits [OF _ _ this] show ?thesis
    by (simp add: dec_digits)
qed

section \<open>Strings\<close>

text \<open>
  \<open>s.find(pat)\<close>: the byte offset of the first occurrence.
\<close>

fun is_prefix :: "string \<Rightarrow> string \<Rightarrow> bool" where
  "is_prefix [] s = True"
| "is_prefix (p # ps) [] = False"
| "is_prefix (p # ps) (c # cs) = (p = c \<and> is_prefix ps cs)"

fun find_str :: "string \<Rightarrow> string \<Rightarrow> nat option" where
  "find_str pat [] = (if pat = [] then Some 0 else None)"
| "find_str pat (c # cs) =
     (if is_prefix pat (c # cs) then Some 0 else map_option Suc (find_str pat cs))"

lemma is_prefix_iff: "is_prefix p s \<longleftrightarrow> (\<exists>t. s = p @ t)"
  by (induction p s rule: is_prefix.induct) auto

lemma is_prefix_append [simp]: "is_prefix p (p @ t)"
  by (auto simp: is_prefix_iff)

lemma is_prefix_singleton [simp]: "is_prefix [c] s \<longleftrightarrow> s \<noteq> [] \<and> hd s = c"
  by (cases s) auto

lemma find_char_None: "find_str [c] s = None \<longleftrightarrow> c \<notin> set s"
  by (induction s) auto

lemma find_char_first: "c \<notin> set s \<Longrightarrow> find_str [c] (s @ c # t) = Some (length s)"
  by (induction s) auto

text \<open>Splitting at every occurrence of one byte, as \<open>split('/')\<close> does.\<close>

fun split_at :: "char \<Rightarrow> string \<Rightarrow> string list" where
  "split_at d [] = [[]]"
| "split_at d (c # cs) =
     (if c = d then [] # split_at d cs
      else (case split_at d cs of [] \<Rightarrow> [[c]] | w # ws \<Rightarrow> (c # w) # ws))"

lemma split_at_not_Nil [simp]: "split_at d s \<noteq> []"
  by (induction s) (auto split: list.splits)

lemma split_at_none: "d \<notin> set s \<Longrightarrow> split_at d s = [s]"
  by (induction s) auto

text \<open>
  \<open>s.chars()\<close>: the Unicode scalar values of a UTF-8 string, each as its bytes. A continuation
  byte (\<open>10xxxxxx\<close>) belongs to the character begun before it.
\<close>

definition is_cont :: "char \<Rightarrow> bool" where
  "is_cont c \<longleftrightarrow> 128 \<le> (of_char c :: nat) \<and> (of_char c :: nat) < 192"

function utf8_chars :: "string \<Rightarrow> string list" where
  "utf8_chars [] = []"
| "utf8_chars (c # cs) = (c # takeWhile is_cont cs) # utf8_chars (dropWhile is_cont cs)"
  by pat_completeness auto
termination
  by (relation "measure length") (auto simp: less_Suc_eq_le length_dropWhile_le)

lemma concat_utf8_chars [simp]: "concat (utf8_chars s) = s"
  by (induction s rule: utf8_chars.induct) auto

lemma utf8_chars_ascii: "(\<And>c. c \<in> set s \<Longrightarrow> \<not> is_cont c) \<Longrightarrow> utf8_chars s = map (\<lambda>c. [c]) s"
proof (induction s)
  case (Cons c cs)
  then have "takeWhile is_cont cs = []" and "dropWhile is_cont cs = cs"
    by (cases cs; simp)+
  with Cons show ?case by simp
qed simp

lemma is_digit_not_cont [simp]: "is_digit c \<Longrightarrow> \<not> is_cont c"
  by (simp add: is_digit_def is_cont_def)

section \<open>Lists\<close>

text \<open>A list updated at one index, counted: what a step of one worker does to a count.\<close>

definition count_by :: "('a \<Rightarrow> nat) \<Rightarrow> 'a list \<Rightarrow> nat" where
  "count_by f xs = sum_list (map f xs)"

lemma count_by_simps [simp]:
  "count_by f [] = 0" "count_by f (x # xs) = f x + count_by f xs"
  by (simp_all add: count_by_def)

lemma count_by_update:
  "i < length xs \<Longrightarrow> count_by f (xs[i := x]) + f (xs ! i) = count_by f xs + f x"
proof (induction xs arbitrary: i)
  case (Cons y ys)
  show ?case
  proof (cases i)
    case (Suc j)
    with Cons show ?thesis by force
  qed simp
qed simp

lemma count_by_nth_le: "i < length xs \<Longrightarrow> f (xs ! i) \<le> count_by f xs"
proof (induction xs arbitrary: i)
  case (Cons y ys)
  then show ?case by (cases i) (auto intro: trans_le_add2)
qed simp

lemma count_by_replicate [simp]: "count_by f (replicate n x) = n * f x"
  by (induction n) auto

lemma count_by_le_length: "(\<And>x. f x \<le> k) \<Longrightarrow> count_by f xs \<le> k * length xs"
  by (induction xs) (auto intro: add_mono)

lemma count_by_mono: "(\<And>x. f x \<le> g x) \<Longrightarrow> count_by f xs \<le> count_by g xs"
  by (induction xs) (auto intro: add_mono)

lemma count_by_add: "count_by (\<lambda>x. f x + g x) xs = count_by f xs + count_by g xs"
  by (induction xs) auto

text \<open>A table of rows of equal length, flattened: entry \<open>j\<close> of row \<open>k\<close>.\<close>

lemma length_concat_table: "length (concat (map (\<lambda>x. map (f x) ys) xs)) = length xs * length ys"
  by (induction xs) auto

lemma nth_concat_table:
  "k < length xs \<Longrightarrow> j < length ys \<Longrightarrow>
   concat (map (\<lambda>x. map (f x) ys) xs) ! (k * length ys + j) = f (xs ! k) (ys ! j)"
proof (induction xs arbitrary: k)
  case (Cons x xs)
  then show ?case by (cases k) (auto simp: nth_append)
qed simp

end
