(* ===== verification/F64.thy ===== *)
theory F64
  imports Bench_Prelude "HOL-Library.Log_Nat"
begin

text \<open>
  Rust's \<open>f64\<close> as far as the program uses it: IEEE 754 binary64 values as exact rationals,
  every operation the correctly rounded exact one (round to nearest, ties to even), the
  conversions from and to \<open>u64\<close>, \<open>round\<close>, the comparisons and the fixed-precision
  formatting \<open>{:.p}\<close>. Signed zeros are identified: no branch of the program can tell them
  apart. The lemmas bound the rounding error and show that rounding is monotone.
\<close>

section \<open>Rounding\<close>

datatype f64 = NaN | Inf bool | Fin rat

text \<open>The binary exponent of a positive rational.\<close>

definition ilog2 :: "rat \<Rightarrow> int" where
  "ilog2 x = (if 1 \<le> x then bitlen \<lfloor>x\<rfloor> - 1 else - bitlen (\<lceil>1 / x\<rceil> - 1))"

text \<open>Round to the nearest integer, ties to the even one.\<close>

definition rhe :: "rat \<Rightarrow> int" where
  "rhe x = (let f = \<lfloor>x\<rfloor>; r = x - of_int f
            in if r < 1 / 2 then f else if 1 / 2 < r then f + 1
               else if even f then f else f + 1)"

text \<open>The spacing of the doubles around \<open>x\<close>: 53 significant bits, down to \<open>2^-1074\<close>.\<close>

definition ulp_exp :: "rat \<Rightarrow> int" where
  "ulp_exp x = max (ilog2 x - 52) (- 1074)"

definition rnd :: "rat \<Rightarrow> rat" where
  "rnd x = (if x \<le> 0 then 0
            else of_int (rhe (x / power_int 2 (ulp_exp x))) * power_int 2 (ulp_exp x))"

definition fl :: "rat \<Rightarrow> f64" where
  "fl x = (if 0 \<le> x then (if rnd x < 2 ^ 1024 then Fin (rnd x) else Inf False)
           else (if rnd (- x) < 2 ^ 1024 then Fin (- rnd (- x)) else Inf True))"

section \<open>Operations\<close>

definition f64_of_nat :: "nat \<Rightarrow> f64" where
  "f64_of_nat n = fl (of_nat n)"

fun f64_div :: "f64 \<Rightarrow> f64 \<Rightarrow> f64" where
  "f64_div (Fin a) (Fin b) =
     (if b = 0 then (if a = 0 then NaN else Inf (a < 0)) else fl (a / b))"
| "f64_div (Inf s) (Fin b) = Inf (s \<noteq> (b < 0))"
| "f64_div (Fin a) (Inf s) = Fin 0"
| "f64_div (Inf s) (Inf t) = NaN"
| "f64_div NaN y = NaN"
| "f64_div x NaN = NaN"

fun f64_mul :: "f64 \<Rightarrow> f64 \<Rightarrow> f64" where
  "f64_mul (Fin a) (Fin b) = fl (a * b)"
| "f64_mul (Inf s) (Fin b) = (if b = 0 then NaN else Inf (s \<noteq> (b < 0)))"
| "f64_mul (Fin a) (Inf s) = (if a = 0 then NaN else Inf (s \<noteq> (a < 0)))"
| "f64_mul (Inf s) (Inf t) = Inf (s \<noteq> t)"
| "f64_mul NaN y = NaN"
| "f64_mul x NaN = NaN"

fun f64_add :: "f64 \<Rightarrow> f64 \<Rightarrow> f64" where
  "f64_add (Fin a) (Fin b) = fl (a + b)"
| "f64_add (Inf s) (Fin b) = Inf s"
| "f64_add (Fin a) (Inf s) = Inf s"
| "f64_add (Inf s) (Inf t) = (if s = t then Inf s else NaN)"
| "f64_add NaN y = NaN"
| "f64_add x NaN = NaN"

fun f64_less :: "f64 \<Rightarrow> f64 \<Rightarrow> bool" where
  "f64_less (Fin a) (Fin b) = (a < b)"
| "f64_less (Inf s) (Fin b) = s"
| "f64_less (Fin a) (Inf s) = (\<not> s)"
| "f64_less (Inf s) (Inf t) = (s \<and> \<not> t)"
| "f64_less NaN y = False"
| "f64_less x NaN = False"

definition f64_eq :: "f64 \<Rightarrow> f64 \<Rightarrow> bool" where
  "f64_eq x y \<longleftrightarrow> x \<noteq> NaN \<and> x = y"

definition f64_le :: "f64 \<Rightarrow> f64 \<Rightarrow> bool" where
  "f64_le x y \<longleftrightarrow> f64_less x y \<or> f64_eq x y"

fun f64_is_finite :: "f64 \<Rightarrow> bool" where
  "f64_is_finite (Fin a) = True"
| "f64_is_finite x = False"

text \<open>\<open>x as u64\<close>: truncation towards zero, saturating, NaN to 0.\<close>

fun f64_to_u64 :: "f64 \<Rightarrow> u64" where
  "f64_to_u64 NaN = 0"
| "f64_to_u64 (Inf s) = (if s then 0 else - 1)"
| "f64_to_u64 (Fin a) =
     (if a < 1 then 0 else if 2 ^ 64 \<le> a then - 1 else of_int \<lfloor>a\<rfloor>)"

text \<open>\<open>x.round()\<close>: to the nearest integer, halves away from zero.\<close>

fun f64_round :: "f64 \<Rightarrow> f64" where
  "f64_round (Fin a) =
     Fin (if 0 \<le> a then of_int \<lfloor>a + 1 / 2\<rfloor> else - of_int \<lfloor>- a + 1 / 2\<rfloor>)"
| "f64_round x = x"

text \<open>\<open>format!("{:.p}", x)\<close>: the exact value rounded to \<open>p\<close> decimals, ties to even.\<close>

definition pad_left :: "char \<Rightarrow> nat \<Rightarrow> string \<Rightarrow> string" where
  "pad_left c n s = replicate (n - length s) c @ s"

definition fixed :: "nat \<Rightarrow> nat \<Rightarrow> string" where
  "fixed p k = dec (k div 10 ^ p) @
     (if p = 0 then [] else CHR ''.'' # pad_left (CHR ''0'') p (dec (k mod 10 ^ p)))"

fun f64_fmt :: "nat \<Rightarrow> f64 \<Rightarrow> string" where
  "f64_fmt p NaN = ''NaN''"
| "f64_fmt p (Inf s) = (if s then ''-inf'' else ''inf'')"
| "f64_fmt p (Fin a) =
     (if a < 0 then CHR ''-'' # fixed p (nat (rhe (- a * 10 ^ p)))
      else fixed p (nat (rhe (a * 10 ^ p))))"

section \<open>Rounding to an integer\<close>

lemma rhe_bounds: "of_int (rhe x) - x \<le> 1 / 2" "x - of_int (rhe x) \<le> 1 / 2"
  by (auto simp: rhe_def Let_def; linarith)+

lemma rhe_of_int [simp]: "rhe (of_int n) = n"
  by (simp add: rhe_def)

lemma rhe_of_nat [simp]: "rhe (of_nat n) = int n"
  using rhe_of_int [of "int n"] by simp

lemma rhe_mono:
  assumes "x \<le> y" shows "rhe x \<le> rhe y"
proof (cases "\<lfloor>x\<rfloor> = \<lfloor>y\<rfloor>")
  case True
  with assms show ?thesis by (auto simp: rhe_def Let_def)
next
  case False
  with assms have "\<lfloor>x\<rfloor> + 1 \<le> \<lfloor>y\<rfloor>"
    using floor_mono [OF assms] by linarith
  moreover have "rhe x \<le> \<lfloor>x\<rfloor> + 1" and "\<lfloor>y\<rfloor> \<le> rhe y"
    by (auto simp: rhe_def Let_def)
  ultimately show ?thesis by linarith
qed

lemma rhe_ge: "of_int n \<le> x \<Longrightarrow> n \<le> rhe x"
  using rhe_mono [of "of_int n" x] by simp

lemma rhe_le: "x \<le> of_int n \<Longrightarrow> rhe x \<le> n"
  using rhe_mono [of x "of_int n"] by simp

section \<open>Rounding to a double\<close>

lemma power_int_two_nat: "0 \<le> k \<Longrightarrow> power_int (2::rat) k = of_int (2 ^ nat k)"
  by (simp add: power_int_def)

lemma ilog2_bounds_ge1:
  assumes "1 \<le> x"
  shows "power_int 2 (ilog2 x) \<le> x \<and> x < power_int 2 (ilog2 x + 1)"
proof -
  let ?n = "\<lfloor>x\<rfloor>"
  from assms have "0 < ?n" by linarith
  then have b: "2 ^ nat (bitlen ?n - 1) \<le> ?n" "?n < 2 ^ nat (bitlen ?n)" "0 < bitlen ?n"
    using bitlen_bounds [of ?n] bitlen_le_iff_power [of ?n 0] by auto
  have "(of_int (2 ^ nat (bitlen ?n - 1)) :: rat) \<le> of_int ?n"
    using b(1) by (simp only: of_int_le_iff)
  also have "\<dots> \<le> x" by simp
  finally have lo: "power_int 2 (ilog2 x) \<le> x"
    using b(3) assms by (simp add: ilog2_def power_int_two_nat)
  have "?n + 1 \<le> 2 ^ nat (bitlen ?n)" using b(2) by linarith
  then have "(of_int (?n + 1) :: rat) \<le> of_int (2 ^ nat (bitlen ?n))"
    by (simp only: of_int_le_iff)
  moreover have "x < of_int (?n + 1)" by linarith
  ultimately have "x < power_int 2 (ilog2 x + 1)"
    using b(3) assms by (simp add: ilog2_def power_int_two_nat)
  with lo show ?thesis ..
qed

lemma ilog2_bounds_less1:
  assumes "0 < x" and "\<not> 1 \<le> x"
  shows "power_int 2 (ilog2 x) \<le> x \<and> x < power_int 2 (ilog2 x + 1)"
proof -
  from assms have y: "1 < 1 / x" by simp
  let ?m = "\<lceil>1 / x\<rceil> - 1"
  from y have "0 < ?m" by linarith
  then have b: "2 ^ nat (bitlen ?m - 1) \<le> ?m" "?m < 2 ^ nat (bitlen ?m)" "0 < bitlen ?m"
    using bitlen_bounds [of ?m] bitlen_le_iff_power [of ?m 0] by auto
  have "(of_int (2 ^ nat (bitlen ?m - 1)) :: rat) \<le> of_int ?m"
    using b(1) by (simp only: of_int_le_iff)
  also have "\<dots> < 1 / x" by linarith
  finally have "power_int 2 (bitlen ?m - 1) < 1 / x"
    using b(3) by (simp add: power_int_two_nat)
  then have "x < 1 / power_int 2 (bitlen ?m - 1)"
    using assms by (simp add: field_simps)
  also have "\<dots> = power_int 2 (- bitlen ?m + 1)"
    by (simp add: power_int_diff power_int_add power_int_minus field_simps)
  finally have hi: "x < power_int 2 (- bitlen ?m + 1)" .
  have "?m + 1 \<le> 2 ^ nat (bitlen ?m)" using b(2) by linarith
  then have "(of_int (?m + 1) :: rat) \<le> of_int (2 ^ nat (bitlen ?m))"
    by (simp only: of_int_le_iff)
  moreover have "1 / x \<le> of_int (?m + 1)" by simp
  ultimately have "1 / x \<le> of_int (2 ^ nat (bitlen ?m))" by (rule order_trans [rotated])
  then have "1 / x \<le> power_int 2 (bitlen ?m)"
    using b(3) by (simp only: power_int_two_nat less_imp_le)
  then have "power_int 2 (- bitlen ?m) \<le> x"
    using assms by (simp add: power_int_minus field_simps)
  with hi assms(2) show ?thesis by (simp add: ilog2_def)
qed

lemma ilog2_bounds:
  assumes "0 < x"
  shows "power_int 2 (ilog2 x) \<le> x" and "x < power_int 2 (ilog2 x + 1)"
  using ilog2_bounds_ge1 [of x] ilog2_bounds_less1 [OF assms] by auto

lemma ilog2_ge:
  assumes "0 < x" and "power_int 2 k \<le> x"
  shows "k \<le> ilog2 x"
proof (rule ccontr)
  assume "\<not> k \<le> ilog2 x"
  then have "power_int (2::rat) (ilog2 x + 1) \<le> power_int 2 k"
    by (intro power_int_increasing) auto
  with ilog2_bounds [OF assms(1)] assms(2) show False by linarith
qed

lemma ilog2_less:
  assumes "0 < x" and "x < power_int 2 k"
  shows "ilog2 x < k"
proof (rule ccontr)
  assume "\<not> ilog2 x < k"
  then have "power_int (2::rat) k \<le> power_int 2 (ilog2 x)"
    by (intro power_int_increasing) auto
  with ilog2_bounds [OF assms(1)] assms(2) show False by linarith
qed

lemma ilog2_mono:
  assumes "0 < x" and "x \<le> y"
  shows "ilog2 x \<le> ilog2 y"
  using ilog2_bounds [OF assms(1)] assms by (intro ilog2_ge) auto

lemma ulp_exp_mono: "0 < x \<Longrightarrow> x \<le> y \<Longrightarrow> ulp_exp x \<le> ulp_exp y"
  using ilog2_mono [of x y] by (simp add: ulp_exp_def)

lemma power_int_two_pos [simp]: "0 < power_int (2::rat) k"
  by (rule zero_less_power_int) simp

lemma power_int_two_split:
  "power_int (2::rat) (a + b) = power_int 2 a * power_int 2 b"
  by (simp add: power_int_add)

lemma rnd_le_bound:
  assumes "0 < x" and "x \<le> of_int m * power_int 2 (ulp_exp x)"
  shows "rnd x \<le> of_int m * power_int 2 (ulp_exp x)"
proof -
  from assms(2) have "x / power_int 2 (ulp_exp x) \<le> of_int m"
    by (simp add: field_simps)
  then have "rhe (x / power_int 2 (ulp_exp x)) \<le> m"
    by (rule rhe_le)
  then have "(of_int (rhe (x / power_int 2 (ulp_exp x))) :: rat) \<le> of_int m"
    by (simp only: of_int_le_iff)
  with assms(1) show ?thesis
    by (simp add: rnd_def)
qed

lemma rnd_ge_bound:
  assumes "0 < x" and "of_int m * power_int 2 (ulp_exp x) \<le> x"
  shows "of_int m * power_int 2 (ulp_exp x) \<le> rnd x"
proof -
  from assms(2) have "of_int m \<le> x / power_int 2 (ulp_exp x)"
    by (simp add: field_simps)
  then have "m \<le> rhe (x / power_int 2 (ulp_exp x))"
    by (rule rhe_ge)
  then have "(of_int m :: rat) \<le> of_int (rhe (x / power_int 2 (ulp_exp x)))"
    by (simp only: of_int_le_iff)
  with assms(1) show ?thesis
    by (simp add: rnd_def)
qed

lemma rnd_mono_pos:
  assumes "0 < x" and "x \<le> y"
  shows "rnd x \<le> rnd y"
proof (cases "ulp_exp x = ulp_exp y")
  case True
  have "x / power_int 2 (ulp_exp y) \<le> y / power_int 2 (ulp_exp y)"
    using assms by (simp add: divide_right_mono)
  then have "rhe (x / power_int 2 (ulp_exp y)) \<le> rhe (y / power_int 2 (ulp_exp y))"
    by (rule rhe_mono)
  then have "(of_int (rhe (x / power_int 2 (ulp_exp y))) :: rat)
      \<le> of_int (rhe (y / power_int 2 (ulp_exp y)))"
    by (simp only: of_int_le_iff)
  with True assms show ?thesis by (simp add: rnd_def)
next
  case False
  with ulp_exp_mono [OF assms] have lt: "ulp_exp x < ulp_exp y" by simp
  then have y: "ulp_exp y = ilog2 y - 52" and xy: "ilog2 x < ilog2 y"
    by (auto simp: ulp_exp_def)
  define d where "d = ulp_exp y + 52 - ulp_exp x"
  have d: "0 \<le> d" "ulp_exp y = ulp_exp x + d - 52"
    using lt by (auto simp: d_def)
  have "x < power_int 2 (ilog2 x + 1)" using ilog2_bounds [of x] assms by simp
  also have "\<dots> \<le> power_int 2 (ilog2 y)"
    using xy by (intro power_int_increasing) auto
  also have "ilog2 y = ulp_exp x + d" using d y by simp
  also have "power_int (2::rat) (ulp_exp x + d) = of_int (2 ^ nat d) * power_int 2 (ulp_exp x)"
    using d(1) by (simp add: power_int_two_split power_int_two_nat)
  finally have "rnd x \<le> of_int (2 ^ nat d) * power_int 2 (ulp_exp x)"
    using assms by (intro rnd_le_bound) auto
  also have "\<dots> = power_int 2 (ulp_exp x + d)"
    using d(1) by (simp add: power_int_two_split power_int_two_nat)
  also have "\<dots> = power_int 2 (ilog2 y)"
    using d y by simp
  also have "\<dots> = of_int (2 ^ 52) * power_int 2 (ulp_exp y)"
    using power_int_two_split [of 52 "ulp_exp y"] by (simp add: y power_int_two_nat)
  also have "\<dots> \<le> rnd y"
  proof (rule rnd_ge_bound)
    show "0 < y" using assms by simp
    show "of_int (2 ^ 52) * power_int 2 (ulp_exp y) \<le> y"
      using power_int_two_split [of 52 "ulp_exp y"] ilog2_bounds [of y] assms
      by (simp add: y power_int_two_nat)
  qed
  finally show ?thesis .
qed

lemma rnd_nonneg: "0 \<le> rnd x"
proof (cases "0 < x")
  case True
  then have "0 \<le> x / power_int 2 (ulp_exp x)" by (simp add: less_imp_le)
  then have "0 \<le> rhe (x / power_int 2 (ulp_exp x))"
    using rhe_ge [of 0] by simp
  with True show ?thesis by (simp add: rnd_def)
qed (simp add: rnd_def)

lemma rnd_mono: "x \<le> y \<Longrightarrow> rnd x \<le> rnd y"
  using rnd_mono_pos [of x y] rnd_nonneg [of y] by (cases "0 < x") (auto simp: rnd_def)

text \<open>A number with few significant bits is its own rounding.\<close>

lemma rnd_exact:
  assumes "0 < x" and "x = of_int m * power_int 2 (ulp_exp x)"
  shows "rnd x = x"
  using rnd_le_bound [OF assms(1), of m] rnd_ge_bound [OF assms(1), of m] assms(2) by simp

lemma rnd_of_nat:
  assumes "n < 2 ^ 53"
  shows "rnd (of_nat n) = of_nat n"
proof (cases "n = 0")
  case False
  then have pos: "0 < (of_nat n :: rat)" by simp
  have "(of_nat n :: rat) < of_nat (2 ^ 53)" using assms by (simp only: of_nat_less_iff)
  then have "ilog2 (of_nat n) < 53"
    using pos by (intro ilog2_less) (simp_all add: power_int_two_nat)
  then have e: "ulp_exp (of_nat n) \<le> 0" by (simp add: ulp_exp_def)
  let ?k = "- ulp_exp (of_nat n)"
  have "power_int (2::rat) (?k + ulp_exp (of_nat n)) = 1" by simp
  then have "of_int (2 ^ nat ?k) * power_int (2::rat) (ulp_exp (of_nat n)) = 1"
    using e by (simp only: power_int_two_split power_int_two_nat)
  then have "(of_nat n :: rat) = of_int (int n * 2 ^ nat ?k) * power_int 2 (ulp_exp (of_nat n))"
    by (simp add: mult.assoc)
  with pos show ?thesis by (rule rnd_exact)
qed (simp add: rnd_def)

lemma rnd_zero [simp]: "rnd 0 = 0" by (simp add: rnd_def)

lemma rnd_one [simp]: "rnd 1 = 1"
  using rnd_of_nat [of 1] by simp

text \<open>The rounding error is at most half a unit in the last place.\<close>

lemma rnd_error_ulp:
  assumes "0 < x"
  shows "\<bar>rnd x - x\<bar> \<le> power_int 2 (ulp_exp x) / 2"
proof -
  let ?u = "power_int (2::rat) (ulp_exp x)"
  have "\<bar>of_int (rhe (x / ?u)) - x / ?u\<bar> \<le> 1 / 2"
    using rhe_bounds [of "x / ?u"] by linarith
  then have "\<bar>of_int (rhe (x / ?u)) - x / ?u\<bar> * ?u \<le> 1 / 2 * ?u"
    by (rule mult_right_mono) (simp add: less_imp_le)
  also have "\<bar>of_int (rhe (x / ?u)) - x / ?u\<bar> * ?u = \<bar>(of_int (rhe (x / ?u)) - x / ?u) * ?u\<bar>"
    by (simp add: abs_mult)
  also have "(of_int (rhe (x / ?u)) - x / ?u) * ?u = rnd x - x"
    using assms by (simp add: rnd_def left_diff_distrib)
  finally show ?thesis by simp
qed

lemma rnd_error:
  assumes "0 < x" and "- 1022 \<le> ilog2 x"
  shows "\<bar>rnd x - x\<bar> \<le> x / 2 ^ 53"
proof -
  have "ulp_exp x = ilog2 x + (- 52)" using assms(2) by (simp add: ulp_exp_def)
  then have "power_int 2 (ulp_exp x) = power_int 2 (ilog2 x) / (2::rat) ^ 52"
    by (simp only: power_int_two_split) (simp add: power_int_minus field_simps)
  also have "\<dots> \<le> x / 2 ^ 52"
    using ilog2_bounds [OF assms(1)] by (simp add: divide_right_mono)
  finally show ?thesis
    using rnd_error_ulp [OF assms(1)] by simp
qed

lemma rnd_pos:
  assumes "power_int 2 (- 1022) \<le> x"
  shows "0 < rnd x"
proof -
  have x: "0 < x" using assms power_int_two_pos [of "- 1022"] by linarith
  have "\<bar>rnd x - x\<bar> \<le> x / 2 ^ 53"
    using x ilog2_ge [OF x assms] by (rule rnd_error)
  with x show ?thesis by (simp add: abs_if field_simps split: if_splits)
qed

section \<open>Properties of the operations\<close>

lemma two_pow_1024: "(n::rat) \<le> 2 ^ 100 \<Longrightarrow> n < 2 ^ 1024"
proof -
  assume "n \<le> 2 ^ 100"
  also have "(2::rat) ^ 100 < 2 ^ 1024" by (rule power_strict_increasing) auto
  finally show ?thesis .
qed

lemma fl_zero [simp]: "fl 0 = Fin 0"
  by (simp add: fl_def)

lemma fl_small:
  assumes "0 \<le> x" and "x \<le> 2 ^ 99"
  shows "fl x = Fin (rnd x)"
proof (cases "x = 0")
  case False
  with assms(1) have "0 < x" by simp
  have "rnd x \<le> rnd (2 ^ 99)" using assms(2) by (rule rnd_mono)
  also have "\<dots> = 2 ^ 99"
  proof (rule rnd_exact)
    have e: "ilog2 (2 ^ 99) = 99"
      using ilog2_ge [of "2 ^ 99" 99] ilog2_less [of "2 ^ 99" 100]
      by (simp add: power_int_two_nat)
    show "(2::rat) ^ 99 = of_int (2 ^ 52) * power_int 2 (ulp_exp (2 ^ 99))"
      unfolding ulp_exp_def e by (simp add: power_int_two_nat)
  qed simp
  also have "(2::rat) ^ 99 \<le> 2 ^ 100" by simp
  finally have "rnd x < 2 ^ 1024" by (rule two_pow_1024)
  with assms(1) show ?thesis by (simp add: fl_def)
qed simp

lemma f64_of_nat_small: "n < 2 ^ 53 \<Longrightarrow> f64_of_nat n = Fin (of_nat n)"
proof -
  assume n: "n < 2 ^ 53"
  then have "n \<le> 2 ^ 99" by simp
  then have "(of_nat n :: rat) \<le> of_nat (2 ^ 99)" by (simp only: of_nat_le_iff)
  with n show ?thesis
    by (simp add: f64_of_nat_def fl_small rnd_of_nat)
qed

lemma f64_of_nat_u64: "f64_of_nat (unat (n::u64)) = Fin (rnd (of_nat (unat n)))"
proof -
  have "unat n \<le> 2 ^ 99" using unsigned_less [where w = n and 'a = nat] by simp
  then have "(of_nat (unat n) :: rat) \<le> of_nat (2 ^ 99)" by (simp only: of_nat_le_iff)
  then show ?thesis
    unfolding f64_of_nat_def by (intro fl_small) (simp_all only: of_nat_0_le_iff of_nat_power of_nat_numeral)
qed

lemma f64_is_finite_iff: "f64_is_finite x \<longleftrightarrow> (\<exists>a. x = Fin a)"
  by (cases x) auto

end
