(* ===== verification/Metrics.thy ===== *)
theory Metrics
  imports F64
begin

text \<open>
  \<open>src/src/metrics.rs\<close>: the two shared counters, and the statistics read off the trial's latency
  histogram. Each operation of the counters is one atomic step. The histogram crate is a parameter
  (\<open>hist_ops\<close>); \<open>hist_ok\<close> states what the program relies on. The locale \<open>counter\<close> is the contract
  of a counter, used by the collector of per-second samples.
\<close>

section \<open>Counters\<close>

record metrics =
  completed :: u64
  errors :: u64

definition metrics_new :: metrics where
  "metrics_new = \<lparr>completed = 0, errors = 0\<rparr>"

text \<open>\<open>fetch_add\<close> wraps around; it returns the old value, to which \<open>inc_completed\<close> adds one.\<close>

definition inc_completed :: "metrics \<Rightarrow> u64 \<times> metrics" where
  "inc_completed m = (completed m + 1, m\<lparr>completed := completed m + 1\<rparr>)"

definition inc_error :: "metrics \<Rightarrow> metrics" where
  "inc_error m = m\<lparr>errors := errors m + 1\<rparr>"

definition get_completed :: "metrics \<Rightarrow> u64" where
  "get_completed m = completed m"

definition get_errors :: "metrics \<Rightarrow> u64" where
  "get_errors m = errors m"

lemma inc_error_frame [simp]:
  "completed (inc_error m) = completed m" "errors (inc_error m) = errors m + 1"
  by (simp_all add: inc_error_def)

lemma unat_Suc_word:
  fixes w :: "'w::len word"
  shows "Suc (unat w) < 2 ^ LENGTH('w) \<Longrightarrow> unat (w + 1) = Suc (unat w)"
  by (simp add: unat_word_ariths)

text \<open>
  A counter: \<open>bump\<close> adds one to what \<open>peek\<close> reads as long as it does not wrap, and the operations
  on other fields (\<open>frame\<close>) leave it alone.
\<close>

locale counter =
  fixes bump :: "'m \<Rightarrow> 'm" and peek :: "'m \<Rightarrow> u64" and frame :: "('m \<Rightarrow> 'm) set"
  assumes peek_bump: "Suc (unat (peek m)) < 2 ^ 64 \<Longrightarrow> unat (peek (bump m)) = Suc (unat (peek m))"
    and peek_frame: "f \<in> frame \<Longrightarrow> peek (f m) = peek m"
begin

text \<open>What a run of operations adds up to: the number of bumps in it.\<close>

lemma peek_fold:
  "(\<And>f. f \<in> set fs \<Longrightarrow> f = bump \<or> f \<in> frame) \<Longrightarrow>
   unat (peek m) + length (filter (\<lambda>f. f \<notin> frame) fs) < 2 ^ 64 \<Longrightarrow>
   unat (peek (fold (\<lambda>f m. f m) fs m)) = unat (peek m) + length (filter (\<lambda>f. f \<notin> frame) fs)"
proof (induction fs arbitrary: m)
  case (Cons f fs)
  have "unat (peek (f m)) = unat (peek m) + (if f \<in> frame then 0 else 1)"
    using Cons.prems peek_frame [of f m] peek_bump [of m] by (cases "f \<in> frame") auto
  with Cons show ?case by (cases "f \<in> frame") auto
qed simp

end

interpretation completed_counter: counter "\<lambda>m. snd (inc_completed m)" get_completed "{inc_error}"
  by unfold_locales (auto simp: inc_completed_def inc_error_def get_completed_def unat_Suc_word)

interpretation error_counter: counter inc_error get_errors "{\<lambda>m. snd (inc_completed m)}"
  by unfold_locales (auto simp: inc_completed_def inc_error_def get_errors_def unat_Suc_word)

section \<open>The histogram crate\<close>

record 'h hist_ops =
  h_new :: "u64 \<Rightarrow> u64 \<Rightarrow> u8 \<Rightarrow> 'h option"   \<comment> \<open>\<open>new_with_bounds(low, high, sigfig)\<close>\<close>
  h_high :: "'h \<Rightarrow> u64"
  h_record :: "u64 \<Rightarrow> 'h \<Rightarrow> 'h option"        \<comment> \<open>\<open>None\<close>: the value is out of range\<close>
  h_reset :: "'h \<Rightarrow> 'h"
  h_is_empty :: "'h \<Rightarrow> bool"
  h_len :: "'h \<Rightarrow> u64"
  h_max :: "'h \<Rightarrow> u64"
  h_mean :: "'h \<Rightarrow> f64"
  h_quantile :: "f64 \<Rightarrow> 'h \<Rightarrow> u64"            \<comment> \<open>\<open>value_at_quantile\<close>\<close>

text \<open>
  The documented behaviour: a histogram can be made for any range that spans a factor of two; a
  value up to its upper bound can be recorded and adds one to the count; \<open>reset\<close> empties it;
  quantiles grow with the quantile asked for and never pass the maximum.
\<close>

definition hist_ok :: "'h hist_ops \<Rightarrow> bool" where
  "hist_ok H \<longleftrightarrow>
     (\<forall>lo hi. 1 \<le> lo \<longrightarrow> 2 * unat lo \<le> unat hi \<longrightarrow>
        (\<exists>h. h_new H lo hi 3 = Some h \<and> h_len H h = 0 \<and> h_high H h = hi)) \<and>
     (\<forall>v h. v \<le> h_high H h \<longrightarrow> h_record H v h \<noteq> None) \<and>
     (\<forall>v h h'. h_record H v h = Some h' \<longrightarrow>
        h_len H h' = h_len H h + 1 \<and> h_high H h' = h_high H h) \<and>
     (\<forall>h. h_len H (h_reset H h) = 0 \<and> h_high H (h_reset H h) = h_high H h) \<and>
     (\<forall>h. h_is_empty H h \<longleftrightarrow> h_len H h = 0) \<and>
     (\<forall>h p q. f64_le p q \<longrightarrow> h_quantile H p h \<le> h_quantile H q h) \<and>
     (\<forall>h q. h_quantile H q h \<le> h_max H h)"

lemma hist_okD:
  assumes "hist_ok H"
  shows "1 \<le> lo \<Longrightarrow> 2 * unat lo \<le> unat hi \<Longrightarrow>
          \<exists>h. h_new H lo hi 3 = Some h \<and> h_len H h = 0 \<and> h_high H h = hi"
    and "v \<le> h_high H h \<Longrightarrow> h_record H v h \<noteq> None"
    and "h_record H v h = Some h' \<Longrightarrow> h_len H h' = h_len H h + 1 \<and> h_high H h' = h_high H h"
    and "h_len H (h_reset H h) = 0" and "h_high H (h_reset H h) = h_high H h"
    and "h_is_empty H h \<longleftrightarrow> h_len H h = 0"
    and "f64_le p q \<Longrightarrow> h_quantile H p h \<le> h_quantile H q h"
    and "h_quantile H q h \<le> h_max H h"
  using assms unfolding hist_ok_def by blast+

section \<open>Latency statistics\<close>

text \<open>The doubles the source writes as decimal literals.\<close>

definition f64_lit :: "nat \<Rightarrow> nat \<Rightarrow> f64" where
  "f64_lit n d = fl (of_nat n / of_nat d)"

record latency_stats =
  p50 :: u64
  p75 :: u64
  p90 :: u64
  p95 :: u64
  p99 :: u64
  p99_9 :: u64
  p99_99 :: u64
  max_us :: u64
  mean :: f64
  total_count :: u64

definition latency_stats_default :: latency_stats where
  "latency_stats_default =
     \<lparr>p50 = 0, p75 = 0, p90 = 0, p95 = 0, p99 = 0, p99_9 = 0, p99_99 = 0, max_us = 0,
      mean = Fin 0, total_count = 0\<rparr>"

definition from_histogram :: "'h hist_ops \<Rightarrow> 'h \<Rightarrow> latency_stats" where
  "from_histogram H hist =
     (if h_is_empty H hist then latency_stats_default
      else
        \<lparr>p50 = h_quantile H (f64_lit 50 100) hist,
         p75 = h_quantile H (f64_lit 75 100) hist,
         p90 = h_quantile H (f64_lit 90 100) hist,
         p95 = h_quantile H (f64_lit 95 100) hist,
         p99 = h_quantile H (f64_lit 99 100) hist,
         p99_9 = h_quantile H (f64_lit 999 1000) hist,
         p99_99 = h_quantile H (f64_lit 9999 10000) hist,
         max_us = h_max H hist,
         mean = h_mean H hist,
         total_count = h_len H hist\<rparr>)"

lemma f64_lit_le:
  assumes "0 < d" and "0 < d'" and "n * d' \<le> n' * d" and "n' \<le> d'"
  shows "f64_le (f64_lit n d) (f64_lit n' d')"
proof -
  have r: "(of_nat n / of_nat d :: rat) \<le> of_nat n' / of_nat d'"
    using assms(1-3) by (simp add: divide_le_eq le_divide_eq flip: of_nat_mult of_nat_le_iff)
  have "(of_nat n' / of_nat d' :: rat) \<le> 1"
    using assms(2,4) by simp
  moreover have "(1::rat) \<le> 2 ^ 99" by simp
  ultimately have b: "(of_nat n' / of_nat d' :: rat) \<le> 2 ^ 99" "(of_nat n / of_nat d :: rat) \<le> 2 ^ 99"
    using r by linarith+
  have "0 \<le> (of_nat n / of_nat d :: rat)" "0 \<le> (of_nat n' / of_nat d' :: rat)" by simp_all
  with b rnd_mono [OF r] show ?thesis
    by (auto simp: f64_lit_def fl_small f64_le_def f64_eq_def)
qed

text \<open>The percentiles of a trial are ordered, and the maximum is above them all.\<close>

lemma from_histogram_ordered:
  fixes H :: "'h hist_ops" and h :: 'h
  assumes "hist_ok H"
  defines "r \<equiv> from_histogram H h"
  shows "p50 r \<le> p75 r" "p75 r \<le> p90 r" "p90 r \<le> p95 r" "p95 r \<le> p99 r" "p99 r \<le> p99_9 r"
    "p99_9 r \<le> p99_99 r" "p99_99 r \<le> max_us r" "total_count r = h_len H h"
  using hist_okD(6) [OF assms(1), of h]
  by (auto simp: r_def from_histogram_def latency_stats_default_def hist_okD(8) [OF assms(1)]
      intro!: hist_okD(7) [OF assms(1)] f64_lit_le)

end
