(* ===== verification/Options.thy ===== *)
theory Options
  imports Metrics
begin

text \<open>
  The helpers of \<open>src/src/main.rs\<close> that read and check single options: \<open>sanitize_tag\<close>,
  \<open>validate_output_path\<close>, and the percentile specs of \<open>--latency-percentiles\<close>
  (\<open>PercentileSpec\<close>, \<open>parse_percentile_spec\<close>). The errors of \<open>anyhow\<close> are the constructors of
  \<open>option_error\<close>, one for each message.
\<close>

datatype option_error =
    OutputParentDir string
  | InvalidPercentile string
  | AmbiguousPercentile string
  | PercentileOutOfRange string
  | UnknownPercentile string

section \<open>Tags\<close>

definition is_ascii_alphanumeric :: "char \<Rightarrow> bool" where
  "is_ascii_alphanumeric c \<longleftrightarrow>
     (let n = of_char c :: nat
      in 48 \<le> n \<and> n \<le> 57 \<or> 65 \<le> n \<and> n \<le> 90 \<or> 97 \<le> n \<and> n \<le> 122)"

definition tag_safe :: "char \<Rightarrow> bool" where
  "tag_safe c \<longleftrightarrow> is_ascii_alphanumeric c \<or> c = CHR ''.'' \<or> c = CHR ''-'' \<or> c = CHR ''_''"

text \<open>The closure of the \<open>map\<close>, on one Unicode character.\<close>

fun tag_char :: "string \<Rightarrow> string" where
  "tag_char [c] = (if tag_safe c then [c] else ''-'')"
| "tag_char cs = ''-''"

definition sanitize_tag :: "string \<Rightarrow> string" where
  "sanitize_tag tag =
     (let s = concat (map tag_char (utf8_chars tag)) in if s = [] then ''unknown'' else s)"

section \<open>Output paths\<close>

datatype path_component = RootDir | CurDir | ParentDir | Normal string

text \<open>
  \<open>Path::new(path).components()\<close> on Unix: empty segments and \<open>.\<close> are dropped, except a \<open>.\<close> that
  starts a relative path.
\<close>

definition segment_components :: "string \<Rightarrow> path_component list" where
  "segment_components s =
     (if s = [] \<or> s = ''.'' then [] else if s = ''..'' then [ParentDir] else [Normal s])"

definition path_components :: "string \<Rightarrow> path_component list" where
  "path_components path =
     (case split_at (CHR ''/'') path of
        [] \<Rightarrow> []
      | first # rest \<Rightarrow>
          (if first = [] \<and> path \<noteq> [] then [RootDir]
           else if first = ''.'' then [CurDir] else segment_components first)
          @ concat (map segment_components rest))"

definition validate_output_path :: "string \<Rightarrow> (option_error, unit) outcome" where
  "validate_output_path path =
     (if path = ''-'' then Ok ()
      else if \<exists>component \<in> set (path_components path). component = ParentDir
      then Err (OutputParentDir path) else Ok ())"

section \<open>Percentile specs\<close>

datatype percentile_spec = Quantile string f64 | SpecMax | SpecMean

fun spec_name :: "percentile_spec \<Rightarrow> string" where
  "spec_name (Quantile name q) = name"
| "spec_name SpecMax = ''max''"
| "spec_name SpecMean = ''mean''"

fun spec_value :: "'h hist_ops \<Rightarrow> 'h \<Rightarrow> percentile_spec \<Rightarrow> u64" where
  "spec_value H hist spec =
     (if h_is_empty H hist then 0
      else case spec of
        Quantile name q \<Rightarrow> h_quantile H q hist
      | SpecMax \<Rightarrow> h_max H hist
      | SpecMean \<Rightarrow> f64_to_u64 (h_mean H hist))"

text \<open>
  \<open>10u64.pow(n)\<close>: a panic in a build with overflow checks (\<open>checks\<close>), a wrapped result without.
\<close>

definition pow10 :: "bool \<Rightarrow> u32 \<Rightarrow> ('e, u64) outcome" where
  "pow10 checks n =
     (if checks \<and> 2 ^ 64 \<le> (10::nat) ^ unat n
      then Panicked ''attempt to multiply with overflow'' else Ok (10 ^ unat n))"

definition parse_percentile_spec :: "bool \<Rightarrow> string \<Rightarrow> (option_error, percentile_spec) outcome" where
  "parse_percentile_spec checks s =
     (if s = ''max'' then Ok SpecMax
      else if s = ''mean'' then Ok SpecMean
      else if is_prefix ''p'' s then
        (let digits = drop 1 s in
         bind_outcome (ensure (digits \<noteq> []) (InvalidPercentile s)) (\<lambda>_.
         bind_outcome (ensure (digits \<noteq> ''100'') (AmbiguousPercentile s)) (\<lambda>_.
         case parse_u64 digits of
           None \<Rightarrow> Err (InvalidPercentile s)
         | Some n \<Rightarrow>
             bind_outcome (pow10 checks (of_nat (length digits))) (\<lambda>divisor.
             let q = f64_div (f64_of_nat (unat n)) (f64_of_nat (unat divisor)) in
             bind_outcome (ensure (f64_less (Fin 0) q \<and> f64_le q (Fin 1)) (PercentileOutOfRange s))
               (\<lambda>_. Ok (Quantile s q))))))
      else Err (UnknownPercentile s))"

section \<open>Lemmas on tags\<close>

lemma tag_safe_not_cont [simp]: "tag_safe c \<Longrightarrow> \<not> is_cont c"
  by (auto simp: tag_safe_def is_ascii_alphanumeric_def is_cont_def Let_def)

lemma tag_char_safe: "c \<in> set (tag_char cs) \<Longrightarrow> tag_safe c"
  by (induction cs rule: tag_char.induct)
    (auto simp: tag_safe_def is_ascii_alphanumeric_def split: if_splits)

lemma tag_char_length [simp]: "length (tag_char cs) = 1"
  by (induction cs rule: tag_char.induct) auto

lemma sanitized_length: "length (concat (map tag_char css)) = length css"
  by (induction css) auto

lemma sanitize_tag_safe: "c \<in> set (sanitize_tag tag) \<Longrightarrow> tag_safe c"
proof -
  have "\<forall>c \<in> set ''unknown''. tag_safe c"
    by (simp add: tag_safe_def is_ascii_alphanumeric_def)
  then show "c \<in> set (sanitize_tag tag) \<Longrightarrow> tag_safe c"
    using tag_char_safe by (auto simp: sanitize_tag_def Let_def split: if_splits)
qed

lemma sanitize_safe_tag:
  assumes "tag \<noteq> []" and "\<forall>c \<in> set tag. tag_safe c"
  shows "sanitize_tag tag = tag"
proof -
  have "utf8_chars tag = map (\<lambda>c. [c]) tag"
    using assms(2) by (intro utf8_chars_ascii) auto
  moreover have "concat (map tag_char (map (\<lambda>c. [c]) xs)) = xs" if "\<forall>c \<in> set xs. tag_safe c" for xs
    using that by (induction xs) auto
  ultimately show ?thesis
    using assms by (simp add: sanitize_tag_def)
qed

lemma sanitize_tag_length:
  assumes "tag \<noteq> []"
  shows "length (sanitize_tag tag) = length (utf8_chars tag)"
proof -
  have "utf8_chars tag \<noteq> []" using assms by (cases tag) auto
  then have "concat (map tag_char (utf8_chars tag)) \<noteq> []"
    using sanitized_length [of "utf8_chars tag"] by (metis length_0_conv)
  then show ?thesis
    unfolding sanitize_tag_def Let_def by (simp only: if_False sanitized_length)
qed

section \<open>The properties of the options\<close>

text \<open>
  C39: a sanitized tag is safe in a file name. Whatever the tag, even one read from a remote
  server, the result is not empty and consists of ASCII letters, digits, dots, dashes and
  underscores only (so it holds no path separator), has one character for each character of a
  tag that is not empty, and sanitizing it again changes nothing.
\<close>

theorem sanitize_tag_spec:
  "sanitize_tag tag \<noteq> [] \<and> (\<forall>c \<in> set (sanitize_tag tag). tag_safe c) \<and>
   CHR ''/'' \<notin> set (sanitize_tag tag) \<and>
   (tag \<noteq> [] \<longrightarrow> length (sanitize_tag tag) = length (utf8_chars tag)) \<and>
   sanitize_tag (sanitize_tag tag) = sanitize_tag tag"
proof -
  have ne: "sanitize_tag tag \<noteq> []" by (simp add: sanitize_tag_def Let_def)
  have "\<not> tag_safe (CHR ''/'')" by (simp add: tag_safe_def is_ascii_alphanumeric_def)
  then have "CHR ''/'' \<notin> set (sanitize_tag tag)" using sanitize_tag_safe by blast
  with ne sanitize_tag_safe sanitize_safe_tag [OF ne] sanitize_tag_length show ?thesis by blast
qed

theorem sanitize_tag_spec_witness:
  "sanitize_tag (sanitize_tag ''redis 7/8'') = ''redis-7-8''"
proof -
  have "sanitize_tag ''redis 7/8'' = ''redis-7-8''"
    by (simp add: sanitize_tag_def tag_safe_def is_ascii_alphanumeric_def is_cont_def)
  with sanitize_tag_spec [of "''redis 7/8''"] show ?thesis by simp
qed

text \<open>Where a path leads, from a directory given by the names on the way to it.\<close>

fun resolve :: "string list \<Rightarrow> path_component list \<Rightarrow> string list" where
  "resolve base [] = base"
| "resolve base (RootDir # cs) = resolve [] cs"
| "resolve base (CurDir # cs) = resolve base cs"
| "resolve base (ParentDir # cs) = resolve (butlast base) cs"
| "resolve base (Normal s # cs) = resolve (base @ [s]) cs"

lemma ParentDir_segment [simp]: "ParentDir \<in> set (segment_components s) \<longleftrightarrow> s = ''..''"
  by (auto simp: segment_components_def)

lemma RootDir_segment [simp]: "RootDir \<notin> set (segment_components s)"
  by (auto simp: segment_components_def)

lemma ParentDir_path:
  "ParentDir \<in> set (path_components path) \<longleftrightarrow> ''..'' \<in> set (split_at (CHR ''/'') path)"
proof (cases "split_at (CHR ''/'') path")
  case (Cons first rest)
  have "ParentDir \<in> set (concat (map segment_components ss)) \<longleftrightarrow> ''..'' \<in> set ss" for ss
    by (induction ss) auto
  with Cons show ?thesis by (auto simp: path_components_def)
qed simp

lemma split_at_hd: "split_at d (c # cs) = [] # ws \<Longrightarrow> c = d"
  by (auto split: list.splits if_splits)

lemma RootDir_path:
  assumes "\<not> is_prefix ''/'' path"
  shows "RootDir \<notin> set (path_components path)"
proof (cases "split_at (CHR ''/'') path")
  case (Cons first rest)
  have "path = []" if "first = []"
    using assms split_at_hd [of "CHR ''/''" "hd path" "tl path" rest] Cons that by (cases path) auto
  moreover have "RootDir \<notin> set (concat (map segment_components ss))" for ss
    by (induction ss) auto
  ultimately show ?thesis using Cons by (auto simp: path_components_def)
qed (simp add: path_components_def)

lemma resolve_below:
  "ParentDir \<notin> set cs \<Longrightarrow> RootDir \<notin> set cs \<Longrightarrow> \<exists>below. resolve base cs = base @ below"
proof (induction base cs rule: resolve.induct)
  case (5 base s cs)
  then show ?case by fastforce
qed auto

text \<open>
  C40: an accepted output path cannot climb. \<open>validate_output_path\<close> accepts \<open>-\<close> and exactly the
  paths without a \<open>..\<close> segment, and following an accepted relative path from any directory leads
  to a place below that directory.
\<close>

theorem output_path_stays:
  "(validate_output_path path = Ok () \<longleftrightarrow>
      path = ''-'' \<or> ''..'' \<notin> set (split_at (CHR ''/'') path)) \<and>
   (validate_output_path path = Ok () \<and> \<not> is_prefix ''/'' path \<longrightarrow>
      (\<exists>below. resolve base (path_components path) = base @ below))"
proof -
  have ok: "validate_output_path path = Ok () \<longleftrightarrow>
      path = ''-'' \<or> ''..'' \<notin> set (split_at (CHR ''/'') path)"
    using ParentDir_path [of path] by (auto simp: validate_output_path_def)
  have "ParentDir \<notin> set (path_components path)" if "validate_output_path path = Ok ()"
    using that ok ParentDir_path [of path] by auto
  with ok resolve_below [OF _ RootDir_path] show ?thesis by blast
qed

theorem output_path_stays_witness:
  "\<exists>below. resolve [''home''] (path_components ''./out/run.json'') = [''home''] @ below"
proof -
  have "validate_output_path ''./out/run.json'' = Ok ()"
    by (simp add: validate_output_path_def path_components_def segment_components_def)
  with output_path_stays [of "''./out/run.json''" "[''home'']"] show ?thesis by simp
qed

section \<open>The properties of the percentile specs\<close>

lemma f64_pos_iff: "f64_less (Fin 0) q \<and> f64_le q (Fin 1) \<longleftrightarrow> (\<exists>a. q = Fin a \<and> 0 < a \<and> a \<le> 1)"
  by (cases q) (auto simp: f64_le_def f64_eq_def less_eq_rat_def)

lemma percentile_value:
  assumes "0 < n" and "n < 10 ^ k" and "k \<le> 15"
  shows "f64_div (f64_of_nat n) (f64_of_nat (10 ^ k)) = f64_lit n (10 ^ k)"
    and "\<exists>a. f64_lit n (10 ^ k) = Fin a \<and> 0 < a \<and> a \<le> 1"
proof -
  have "(10::nat) ^ k \<le> 10 ^ 15" using assms(3) by (intro power_increasing) simp_all
  also have "\<dots> < 2 ^ 53" by simp
  finally have k: "(10::nat) ^ k < 2 ^ 53" .
  with assms(2) have n: "n < 2 ^ 53" by simp
  show "f64_div (f64_of_nat n) (f64_of_nat (10 ^ k)) = f64_lit n (10 ^ k)"
    unfolding f64_of_nat_small [OF k] f64_of_nat_small [OF n] by (simp add: f64_lit_def)
  let ?x = "(of_nat n / of_nat (10 ^ k)) :: rat"
  have pos: "0 < (of_nat (10 ^ k) :: rat)" by simp
  have "(of_nat n :: rat) \<le> of_nat (10 ^ k)" using assms(2) by (simp only: of_nat_le_iff)
  then have x1: "?x \<le> 1" by (simp only: divide_le_eq_1_pos [OF pos])
  have "(1 / of_nat (10 ^ 15) :: rat) \<le> 1 / of_nat (10 ^ k)"
  proof (rule divide_left_mono)
    show "(of_nat (10 ^ k) :: rat) \<le> of_nat (10 ^ 15)"
      using \<open>(10::nat) ^ k \<le> 10 ^ 15\<close> by (rule of_nat_mono)
  qed (use pos in simp_all)
  also have "\<dots> \<le> ?x" using assms(1) pos by (intro divide_right_mono) simp_all
  finally have lo: "(1 / of_nat (10 ^ 15) :: rat) \<le> ?x" .
  have "power_int (2::rat) (- 1022) \<le> power_int 2 (- 50)" by (rule power_int_increasing) simp_all
  also have "\<dots> \<le> 1 / of_nat (10 ^ 15)" by (simp add: power_int_minus)
  finally have "0 < rnd ?x" using lo by (intro rnd_pos) linarith
  moreover have "rnd ?x \<le> 1" using rnd_mono [OF x1] by simp
  moreover have "fl ?x = Fin (rnd ?x)"
  proof (rule fl_small)
    show "0 \<le> ?x" by simp
    show "?x \<le> 2 ^ 99" using x1 by (rule order_trans) simp
  qed
  ultimately show "\<exists>a. f64_lit n (10 ^ k) = Fin a \<and> 0 < a \<and> a \<le> 1"
    unfolding f64_lit_def by blast
qed

text \<open>What a spec of up to 15 digits parses to.\<close>

lemma percentile_spec_parsed:
  assumes "length ds \<le> 15" and "\<forall>c \<in> set ds. is_digit c" and "0 < undec ds" and "ds \<noteq> ''100''"
  shows "parse_percentile_spec checks (''p'' @ ds)
      = Ok (Quantile (''p'' @ ds) (fl (of_nat (undec ds) / 10 ^ length ds))) \<and>
    (\<exists>a. fl (of_nat (undec ds) / 10 ^ length ds) = Fin a \<and> 0 < a \<and> a \<le> 1)"
proof -
  have ne: "ds \<noteq> []" using assms(3) by auto
  note lt = undec_less [OF assms(2)]
  have "(10::nat) ^ length ds \<le> 10 ^ 15" using assms(1) by (intro power_increasing) simp_all
  then have b: "(10::nat) ^ length ds < 2 ^ 64" by (rule le_less_trans) simp
  have u: "unat (of_nat (undec ds) :: u64) = undec ds" "unat ((10::u64) ^ length ds) = 10 ^ length ds"
      "unat (of_nat (length ds) :: u32) = length ds"
    using lt b assms(1)
      unsigned_of_nat [where 'a = nat, of "10 ^ length ds", where 'b = 64]
    by (simp_all add: unsigned_of_nat take_bit_nat_eq_self)
  have "undec ds < 2 ^ 64" using lt b by linarith
  note parse = parse_u64_digits [OF ne assms(2) this]
  note v = percentile_value [OF assms(3) lt assms(1)]
  have "\<not> 2 ^ 64 \<le> (10::nat) ^ length ds" using b by linarith
  with v parse u ne assms(4) show ?thesis
    by (simp add: parse_percentile_spec_def pow10_def outcome_simps f64_pos_iff f64_lit_def)
qed

text \<open>
  C37: a percentile spec means what its digits say. For \<open>p\<close> followed by up to 15 digits that are not
  all zero (and not \<open>100\<close>), the quantile is the double nearest to the decimal fraction
  \<open>0.digits\<close>, so \<open>p50\<close> is 0.50 and \<open>p999\<close> is 0.999, it lies in \<open>(0, 1]\<close>, and the spec keeps its name.
\<close>

theorem percentile_spec_value:
  assumes "length ds \<le> 15" and "\<forall>c \<in> set ds. is_digit c" and "0 < undec ds" and "ds \<noteq> ''100''"
  shows "parse_percentile_spec checks (''p'' @ ds)
      = Ok (Quantile (''p'' @ ds) (fl (of_nat (undec ds) / 10 ^ length ds))) \<and>
    (\<exists>a. fl (of_nat (undec ds) / 10 ^ length ds) = Fin a \<and> 0 < a \<and> a \<le> 1)"
  by (rule percentile_spec_parsed [OF assms])

theorem percentile_spec_value_witness:
  "parse_percentile_spec True ''p999'' = Ok (Quantile ''p999'' (fl (999 / 1000)))"
  using percentile_spec_value [of "''999''" True]
  by (simp add: is_digit_def undec_def digit_val_def)

text \<open>
  Whatever is accepted is usable. A spec that is accepted is reported under the text it was
  given as, and its quantile, if it has one, is a number in \<open>(0, 1]\<close>, with or without overflow
  checks, whatever the number of digits.
\<close>

lemma percentile_spec_accepted:
  assumes "parse_percentile_spec checks s = Ok spec"
  shows "spec_name spec = s \<and>
    (\<forall>name q. spec = Quantile name q \<longrightarrow> (\<exists>a. q = Fin a \<and> 0 < a \<and> a \<le> 1))"
  using assms
  by (auto simp: parse_percentile_spec_def Let_def outcome_simps f64_pos_iff split: if_splits option.splits)

text \<open>
  C38: a percentile with 20 or more digits that still fits a \<open>u64\<close> (for example one padded with
  zeros) is not rejected with a message: in a build with overflow checks the power of ten overflows
  and the program panics.
\<close>

theorem percentile_spec_overflow:
  assumes "20 \<le> length ds" and "length ds < 2 ^ 32" and "\<forall>c \<in> set ds. is_digit c"
    and "undec ds < 2 ^ 64"
  shows "parse_percentile_spec True (''p'' @ ds) = Panicked ''attempt to multiply with overflow''"
proof -
  have ne: "ds \<noteq> []" "ds \<noteq> ''100''" using assms(1) by auto
  have u: "unat (of_nat (length ds) :: u32) = length ds"
    using assms(2) by (simp add: unsigned_of_nat take_bit_nat_eq_self)
  have "(2::nat) ^ 64 \<le> 10 ^ 20" by simp
  also have "(10::nat) ^ 20 \<le> 10 ^ length ds" using assms(1) by (intro power_increasing) simp_all
  finally have big: "(2::nat) ^ 64 \<le> 10 ^ length ds" .
  show ?thesis
    using parse_u64_digits [OF ne(1) assms(3,4)] ne u big
    by (simp add: parse_percentile_spec_def pow10_def outcome_simps)
qed

theorem percentile_spec_overflow_witness:
  "parse_percentile_spec True (''p'' @ ''00000000000000000050'') = Panicked ''attempt to multiply with overflow''"
  by (rule percentile_spec_overflow) (simp_all add: is_digit_def undec_def digit_val_def)

text \<open>The sign that \<open>str::parse\<close> allows is taken for a digit position: \<open>p+5\<close> is 0.05, not 0.5.\<close>

lemma percentile_plus_sign:
  "parse_percentile_spec checks ''p+5'' = Ok (Quantile ''p+5'' (fl (5 / 100)))"
proof -
  have p: "parse_u64 ''+5'' = Some 5"
    by (simp add: parse_unsigned_def is_digit_def undec_def digit_val_def)
  have d: "f64_div (f64_of_nat 5) (f64_of_nat 100) = fl (5 / 100)"
    using percentile_value(1) [of 5 2] by (simp add: f64_lit_def)
  have "\<exists>a. fl (5 / 100) = Fin a \<and> 0 < a \<and> a \<le> 1"
    using percentile_value(2) [of 5 2] by (simp add: f64_lit_def)
  with p d show ?thesis
    by (simp add: parse_percentile_spec_def pow10_def outcome_simps f64_pos_iff)
qed

end
