(* ===== verification/Json.thy ===== *)
theory Json
  imports F64 "HOL-Library.Monad_Syntax"
begin

text \<open>
  JSON documents, the two ways the program reads them (a derived \<open>Deserialize\<close> of a struct and
  \<open>serde_json::Value\<close>), and the interface to the two text encodings the program does not
  implement itself: \<open>serde_json\<close>'s printer and parser and the \<open>base64\<close> engine, which are the
  fields of the record \<open>text_codec\<close>, a parameter of every definition that uses them. What the
  program relies on is the predicate \<open>codec_ok\<close>.
\<close>

section \<open>Documents\<close>

text \<open>\<open>serde_json::Number\<close>: an unsigned integer, a negative one, or a double.\<close>

datatype jnum = PosInt u64 | NegInt "64 word" | JFloat f64

text \<open>
  A document as it is written: objects keep the order of their members and their duplicates.
  A \<open>serde_json::Value\<close> is a document whose objects are sorted by key, without duplicates (its
  \<open>Map\<close> is a \<open>BTreeMap\<close>: the crate is built without \<open>preserve_order\<close>).
\<close>

datatype json =
    JNull
  | JBool bool
  | JNum jnum
  | JStr string
  | JArr "json list"
  | JObj "(string \<times> json) list"

fun bt_insert :: "string \<Rightarrow> 'v \<Rightarrow> (string \<times> 'v) list \<Rightarrow> (string \<times> 'v) list" where
  "bt_insert k v [] = [(k, v)]"
| "bt_insert k v ((l, w) # m) =
     (if k < l then (k, v) # (l, w) # m
      else if k = l then (k, v) # m
      else (l, w) # bt_insert k v m)"

definition bt_of_list :: "(string \<times> 'v) list \<Rightarrow> (string \<times> 'v) list" where
  "bt_of_list kvs = foldl (\<lambda>m (k, v). bt_insert k v m) [] kvs"

text \<open>The object a \<open>json!({..})\<close> literal builds.\<close>

definition json_object :: "(string \<times> json) list \<Rightarrow> json" where
  "json_object kvs = JObj (bt_of_list kvs)"

text \<open>Reading a document as a \<open>Value\<close>: a later duplicate replaces an earlier one.\<close>

fun to_value :: "json \<Rightarrow> json" where
  "to_value (JArr js) = JArr (map to_value js)"
| "to_value (JObj kvs) = JObj (bt_of_list (map (\<lambda>(k, v). (k, to_value v)) kvs))"
| "to_value j = j"

fun as_array :: "json \<Rightarrow> json list option" where
  "as_array (JArr js) = Some js"
| "as_array j = None"

fun as_u64 :: "json \<Rightarrow> u64 option" where
  "as_u64 (JNum (PosInt n)) = Some n"
| "as_u64 j = None"

text \<open>\<open>Value::get\<close> with a string index, and \<open>slice::get\<close>.\<close>

fun value_get :: "string \<Rightarrow> json \<Rightarrow> json option" where
  "value_get k (JObj kvs) = map_of kvs k"
| "value_get k j = None"

definition slice_get :: "nat \<Rightarrow> 'a list \<Rightarrow> 'a option" where
  "slice_get i xs = (if i < length xs then Some (xs ! i) else None)"

section \<open>Derived deserialisation\<close>

text \<open>
  What \<open>#[derive(Deserialize)]\<close> does for the field types the program declares. An integer of
  another width or sign, or a double, is an error; a missing \<open>Option\<close> field is \<open>None\<close>, any other
  missing field an error; unknown members are skipped and a declared member that occurs twice is
  an error; a struct may also be written as an array of exactly its fields in order.
\<close>

fun de_string :: "json \<Rightarrow> string option" where
  "de_string (JStr s) = Some s"
| "de_string j = None"

fun de_bool :: "json \<Rightarrow> bool option" where
  "de_bool (JBool b) = Some b"
| "de_bool j = None"

definition de_u64 :: "json \<Rightarrow> u64 option" where
  "de_u64 j = as_u64 j"

definition de_u32 :: "json \<Rightarrow> u32 option" where
  "de_u32 j = Option.bind (as_u64 j) (\<lambda>n. if unat n < 2 ^ 32 then Some (ucast n) else None)"

definition de_u8 :: "json \<Rightarrow> u8 option" where
  "de_u8 j = Option.bind (as_u64 j) (\<lambda>n. if unat n < 2 ^ 8 then Some (ucast n) else None)"

fun de_option :: "(json \<Rightarrow> 'a option) \<Rightarrow> json \<Rightarrow> 'a option option" where
  "de_option f JNull = Some None"
| "de_option f j = map_option Some (f j)"

fun de_all :: "(json \<Rightarrow> 'a option) \<Rightarrow> json list \<Rightarrow> 'a list option" where
  "de_all f [] = Some []"
| "de_all f (j # js) = do { x \<leftarrow> f j; xs \<leftarrow> de_all f js; Some (x # xs) }"

fun de_vec :: "(json \<Rightarrow> 'a option) \<Rightarrow> json \<Rightarrow> 'a list option" where
  "de_vec f (JArr js) = de_all f js"
| "de_vec f j = None"

fun de_pair :: "(json \<Rightarrow> 'a option) \<Rightarrow> (json \<Rightarrow> 'b option) \<Rightarrow> json \<Rightarrow> ('a \<times> 'b) option" where
  "de_pair f g (JArr [a, b]) = do { x \<leftarrow> f a; y \<leftarrow> g b; Some (x, y) }"
| "de_pair f g j = None"

definition de_value :: "json \<Rightarrow> json option" where
  "de_value j = Some (to_value j)"

fun de_struct :: "string list \<Rightarrow> json \<Rightarrow> (string \<Rightarrow> json option) option" where
  "de_struct names (JObj kvs) =
     (if distinct (filter (\<lambda>k. k \<in> set names) (map fst kvs)) then Some (map_of kvs) else None)"
| "de_struct names (JArr js) =
     (if length js = length names then Some (map_of (zip names js)) else None)"
| "de_struct names j = None"

fun required :: "(json \<Rightarrow> 'a option) \<Rightarrow> json option \<Rightarrow> 'a option" where
  "required f None = None"
| "required f (Some j) = f j"

fun optional :: "(json \<Rightarrow> 'a option) \<Rightarrow> json option \<Rightarrow> 'a option option" where
  "optional f None = Some None"
| "optional f (Some j) = de_option f j"

section \<open>Derived serialisation\<close>

fun ser_option :: "('a \<Rightarrow> json) \<Rightarrow> 'a option \<Rightarrow> json" where
  "ser_option f None = JNull"
| "ser_option f (Some x) = f x"

definition ser_unsigned :: "'w::len word \<Rightarrow> json" where
  "ser_unsigned n = JNum (PosInt (of_nat (unat n)))"

named_theorems serde_simps "reading back what was serialised"

lemma de_string_ser [serde_simps]: "de_string (JStr s) = Some s"
  by simp

lemma de_bool_ser [serde_simps]: "de_bool (JBool b) = Some b"
  by simp

lemma de_u64_ser [serde_simps]: "de_u64 (ser_unsigned (n::u64)) = Some n"
  by (simp add: de_u64_def ser_unsigned_def)

lemma unat_of_nat_narrow:
  "LENGTH('w::len) \<le> 64 \<Longrightarrow> unat (of_nat (unat (n::'w word)) :: u64) = unat n"
proof -
  assume "LENGTH('w) \<le> 64"
  then have "(2::nat) ^ LENGTH('w) \<le> 2 ^ 64" by (rule power_increasing) simp
  moreover have "unat n < 2 ^ LENGTH('w)" by (rule unsigned_less)
  ultimately have "unat n < 2 ^ 64" by linarith
  then have "take_bit 64 (unat n) = unat n" by (rule take_bit_nat_eq_self)
  then show ?thesis by (simp add: unsigned_ucast_eq unsigned_take_bit_eq)
qed

lemma ucast_of_nat_narrow:
  assumes "LENGTH('w::len) \<le> 64"
  shows "ucast (of_nat (unat (n::'w word)) :: u64) = n"
proof -
  have "unat (ucast (of_nat (unat n) :: u64) :: 'w word) = take_bit LENGTH('w) (unat n)"
    using unat_of_nat_narrow [OF assms, of n] by (simp only: unsigned_ucast_eq unsigned_take_bit_eq)
  also have "\<dots> = unat n"
    using unsigned_less [where w = n and 'a = nat] by (simp only: take_bit_nat_eq_self)
  finally show ?thesis by (simp only: word_unat_eq_iff)
qed

lemma de_u32_ser [serde_simps]: "de_u32 (ser_unsigned (n::u32)) = Some n"
  using unat_of_nat_narrow [of n] ucast_of_nat_narrow [of n] unsigned_less [where w = n and 'a = nat]
  by (simp add: de_u32_def ser_unsigned_def)

lemma de_u8_ser [serde_simps]: "de_u8 (ser_unsigned (n::u8)) = Some n"
  using unat_of_nat_narrow [of n] ucast_of_nat_narrow [of n] unsigned_less [where w = n and 'a = nat]
  by (simp add: de_u8_def ser_unsigned_def)

lemma de_option_not_null: "j \<noteq> JNull \<Longrightarrow> de_option f j = map_option Some (f j)"
  by (cases j) auto

text \<open>The types serialised as a value other than \<open>null\<close>, which an \<open>Option\<close> may wrap.\<close>

lemma de_option_ser [serde_simps]:
  "(\<And>x. de (se x) = Some x) \<Longrightarrow> (\<And>x. se x \<noteq> JNull) \<Longrightarrow> de_option de (ser_option se v) = Some v"
  by (cases v) (simp_all add: de_option_not_null)

lemma de_all_ser [serde_simps]:
  "(\<And>x. de (se x) = Some x) \<Longrightarrow> de_all de (map se xs) = Some xs"
  by (induction xs) auto

lemma ser_unsigned_not_null [simp]: "ser_unsigned n \<noteq> JNull"
  by (simp add: ser_unsigned_def)

section \<open>UTF-8\<close>

text \<open>Well-formed UTF-8 (the invariant of Rust's \<open>str\<close>).\<close>

definition in_range :: "nat \<Rightarrow> nat \<Rightarrow> char \<Rightarrow> bool" where
  "in_range lo hi c \<longleftrightarrow> lo \<le> (of_char c :: nat) \<and> (of_char c :: nat) \<le> hi"

fun utf8_valid :: "string \<Rightarrow> bool" where
  "utf8_valid [] = True"
| "utf8_valid (a # s) =
     (if in_range 0 127 a then utf8_valid s
      else case s of [] \<Rightarrow> False | b # s2 \<Rightarrow>
        if in_range 194 223 a then is_cont b \<and> utf8_valid s2
        else case s2 of [] \<Rightarrow> False | c # s3 \<Rightarrow>
          if in_range 224 239 a
          then in_range (if in_range 224 224 a then 160 else 128)
                 (if in_range 237 237 a then 159 else 191) b \<and> is_cont c \<and> utf8_valid s3
          else case s3 of [] \<Rightarrow> False | d # s4 \<Rightarrow>
            in_range 240 244 a \<and>
            in_range (if in_range 240 240 a then 144 else 128)
              (if in_range 244 244 a then 143 else 191) b \<and>
            is_cont c \<and> is_cont d \<and> utf8_valid s4)"

declare utf8_valid.simps(2) [simp del]

lemma utf8_valid_ascii [simp]: "in_range 0 127 a \<Longrightarrow> utf8_valid (a # s) = utf8_valid s"
  by (simp add: utf8_valid.simps(2))

lemma utf8_valid_append: "utf8_valid s \<Longrightarrow> utf8_valid t \<Longrightarrow> utf8_valid (s @ t)"
proof (induction s rule: utf8_valid.induct)
  case (2 a s)
  then show ?case
    by (auto simp: utf8_valid.simps(2) [of a s] utf8_valid.simps(2) [of a "s @ t"]
        split: list.split_asm if_split_asm)
qed simp

definition ascii :: "string \<Rightarrow> bool" where
  "ascii s \<longleftrightarrow> (\<forall>c \<in> set s. in_range 0 127 c)"

lemma ascii_simps [simp]:
  "ascii []" "ascii (c # s) \<longleftrightarrow> in_range 0 127 c \<and> ascii s"
  "ascii (s @ t) \<longleftrightarrow> ascii s \<and> ascii t"
  by (auto simp: ascii_def)

lemma ascii_utf8_valid: "ascii s \<Longrightarrow> utf8_valid s"
  by (induction s) auto

lemma ascii_dec [simp]: "ascii (dec n)"
  using dec_digits [of _ n] by (fastforce simp: ascii_def in_range_def is_digit_def)

section \<open>The text encodings\<close>

record text_codec =
  json_to_string :: "json \<Rightarrow> string"            \<comment> \<open>\<open>serde_json::to_string\<close>\<close>
  json_from_slice :: "string \<Rightarrow> json option"    \<comment> \<open>\<open>serde_json::from_slice\<close>\<close>
  b64_encode :: "string \<Rightarrow> string"              \<comment> \<open>\<open>BASE64.encode\<close>\<close>
  b64_decode :: "string \<Rightarrow> string option"       \<comment> \<open>\<open>BASE64.decode\<close>\<close>

text \<open>
  The documents whose text reads back as it was: no doubles (\<open>serde_json\<close> does not promise an
  exact round trip for those without its \<open>float_roundtrip\<close> feature), negative integers only
  where the sign is needed, strings in UTF-8, nesting within the parser's recursion limit of 128.
\<close>

fun json_depth :: "json \<Rightarrow> nat" where
  "json_depth (JArr js) = Suc (fold max (map json_depth js) 0)"
| "json_depth (JObj kvs) = Suc (fold max (map (\<lambda>(k, v). json_depth v) kvs) 0)"
| "json_depth j = 0"

fun json_clean :: "json \<Rightarrow> bool" where
  "json_clean (JNum (PosInt n)) = True"
| "json_clean (JNum (NegInt n)) = (n <s 0)"
| "json_clean (JNum (JFloat x)) = False"
| "json_clean (JStr s) = utf8_valid s"
| "json_clean (JArr js) = list_all json_clean js"
| "json_clean (JObj kvs) = list_all (\<lambda>(k, v). utf8_valid k \<and> json_clean v) kvs"
| "json_clean j = True"

definition plain_json :: "json \<Rightarrow> bool" where
  "plain_json j \<longleftrightarrow> json_clean j \<and> json_depth j < 128"

definition codec_ok :: "text_codec \<Rightarrow> bool" where
  "codec_ok c \<longleftrightarrow>
     (\<forall>j. plain_json j \<longrightarrow> json_from_slice c (json_to_string c j) = Some j) \<and>
     (\<forall>s. b64_decode c (b64_encode c s) = Some s) \<and>
     (\<forall>s. ascii (b64_encode c s))"

lemma codec_okD:
  assumes "codec_ok c"
  shows "plain_json j \<Longrightarrow> json_from_slice c (json_to_string c j) = Some j"
    and "b64_decode c (b64_encode c s) = Some s"
    and "ascii (b64_encode c s)"
  using assms by (auto simp: codec_ok_def)

lemma ser_unsigned_clean [simp]:
  "json_clean (ser_unsigned n)" "json_depth (ser_unsigned n) = 0"
  by (simp_all add: ser_unsigned_def)

lemma ser_option_clean:
  "(\<And>x. v = Some x \<Longrightarrow> json_clean (f x)) \<Longrightarrow> json_clean (ser_option f v)"
  "(\<And>x. v = Some x \<Longrightarrow> json_depth (f x) = 0) \<Longrightarrow> json_depth (ser_option f v) = 0"
  by (cases v; simp)+

end
