(* ===== verification/Job.thy ===== *)
theory Job
  imports Json
begin

text \<open>
  \<open>src/src/job.rs\<close>: how a queue name and a priority become the Redis key kombu uses, the key
  list one \<open>BRPOP\<close> polls, and the Celery protocol-v2 envelope with the latency marker the
  benchmark hides in it. The locale \<open>priority_keys\<close> is the contract between the producer, which
  writes to the key of a priority, and the worker, which polls the keys of all steps.
\<close>

section \<open>Priority-expanded keys\<close>

definition PRIORITY_STEPS :: "u8 list" where
  "PRIORITY_STEPS = [0, 3, 6, 9]"

definition PRIORITY_SEP :: string where
  "PRIORITY_SEP = [CHR 0x06, CHR 0x16]"

text \<open>The loop of \<open>priority_step\<close>: it stops at the first step beyond \<open>n\<close>.\<close>

fun priority_step_loop :: "u8 list \<Rightarrow> u8 \<Rightarrow> u8 \<Rightarrow> u8" where
  "priority_step_loop [] n result = result"
| "priority_step_loop (step # steps) n result =
     (if step \<le> n then priority_step_loop steps n step else result)"

definition priority_step :: "u8 \<Rightarrow> u8" where
  "priority_step n = priority_step_loop PRIORITY_STEPS n (PRIORITY_STEPS ! 0)"

definition q_for_pri :: "string \<Rightarrow> u8 \<Rightarrow> string" where
  "q_for_pri queue priority =
     (let pri = priority_step priority
      in if pri \<noteq> 0 then queue @ PRIORITY_SEP @ dec (unat pri) else queue)"

definition brpop_keys :: "string list \<Rightarrow> string list" where
  "brpop_keys queues = concat (map (\<lambda>pri. map (\<lambda>q. q_for_pri q pri) queues) PRIORITY_STEPS)"

text \<open>kombu's own \<open>Channel.priority\<close>: \<open>steps[bisect(steps, n) - 1]\<close>.\<close>

definition kombu_priority :: "u8 \<Rightarrow> u8" where
  "kombu_priority n = PRIORITY_STEPS ! (length (takeWhile (\<lambda>s. s \<le> n) PRIORITY_STEPS) - 1)"

lemma priority_step_unfold:
  "priority_step n = (if n < 3 then 0 else if n < 6 then 3 else if n < 9 then 6 else 9)"
  by (simp add: priority_step_def PRIORITY_STEPS_def word_le_nat_alt word_less_nat_alt)

lemma priority_step_mem: "priority_step n \<in> set PRIORITY_STEPS"
  by (simp add: priority_step_unfold PRIORITY_STEPS_def)

lemma priority_step_le: "priority_step n \<le> n"
  by (auto simp: priority_step_unfold not_less)

lemma priority_step_greatest: "s \<in> set PRIORITY_STEPS \<Longrightarrow> s \<le> n \<Longrightarrow> s \<le> priority_step n"
  by (auto simp: priority_step_unfold PRIORITY_STEPS_def word_le_nat_alt word_less_nat_alt)

lemma priority_step_of_step: "s \<in> set PRIORITY_STEPS \<Longrightarrow> priority_step s = s"
  by (auto simp: priority_step_unfold PRIORITY_STEPS_def)

lemma priority_step_idem [simp]: "priority_step (priority_step n) = priority_step n"
  by (rule priority_step_of_step) (rule priority_step_mem)

lemma q_for_pri_floor: "q_for_pri q (priority_step p) = q_for_pri q p"
  by (simp add: q_for_pri_def)

subsection \<open>The contract between the writer and the poller of a key\<close>

locale priority_keys =
  fixes steps :: "'p list" and floor_of :: "'p \<Rightarrow> 'p" and key_of :: "'q \<Rightarrow> 'p \<Rightarrow> 'k"
  assumes floor_mem: "floor_of p \<in> set steps"
    and floor_of_step: "s \<in> set steps \<Longrightarrow> floor_of s = s"
    and key_of_floor: "key_of q (floor_of p) = key_of q p"
begin

lemma polled_iff:
  "k \<in> set (concat (map (\<lambda>p. map (\<lambda>q. key_of q p) qs) steps))
     \<longleftrightarrow> (\<exists>q \<in> set qs. \<exists>p. k = key_of q p)"
proof
  assume "\<exists>q \<in> set qs. \<exists>p. k = key_of q p"
  then obtain q p where "q \<in> set qs" and "k = key_of q (floor_of p)"
    by (auto simp: key_of_floor)
  with floor_mem [of p] show "k \<in> set (concat (map (\<lambda>p. map (\<lambda>q. key_of q p) qs) steps))"
    by auto
qed auto

lemma written_key_polled:
  "q \<in> set qs \<Longrightarrow> key_of q p \<in> set (concat (map (\<lambda>p. map (\<lambda>q. key_of q p) qs) steps))"
  by (subst polled_iff) auto

lemma polled_length:
  "length (concat (map (\<lambda>p. map (\<lambda>q. key_of q p) qs) steps)) = length steps * length qs"
  by (rule length_concat_table)

lemma polled_nth:
  "k < length steps \<Longrightarrow> j < length qs \<Longrightarrow>
   concat (map (\<lambda>p. map (\<lambda>q. key_of q p) qs) steps) ! (k * length qs + j)
     = key_of (qs ! j) (steps ! k)"
  by (rule nth_concat_table)

lemma polled_product:
  "concat (map (\<lambda>p. map (\<lambda>q. key_of q p) qs) ss)
     = map (\<lambda>(p, q). key_of q p) (List.product ss qs)"
  by (induction ss) auto

lemma polled_distinct:
  assumes "distinct qs" and "distinct steps"
    and "inj_on (\<lambda>(p, q). key_of q p) (set steps \<times> set qs)"
  shows "distinct (concat (map (\<lambda>p. map (\<lambda>q. key_of q p) qs) steps))"
  using assms by (simp add: polled_product distinct_map distinct_product)

end

interpretation kombu: priority_keys PRIORITY_STEPS priority_step q_for_pri
  by unfold_locales (auto simp: priority_step_mem priority_step_of_step q_for_pri_floor)

text \<open>
  C26: a priority is floored to the greatest step that does not exceed it, for every \<open>u8\<close>, and this
  is what kombu's own expression \<open>steps[bisect(steps, n) - 1]\<close> gives: the loop with its early
  \<open>break\<close> and kombu agree on the key of every priority.
\<close>

theorem priority_step_spec:
  "priority_step n = Max {s \<in> set PRIORITY_STEPS. s \<le> n} \<and> priority_step n = kombu_priority n"
proof
  show "priority_step n = Max {s \<in> set PRIORITY_STEPS. s \<le> n}"
    by (rule Max_eqI [symmetric])
      (auto simp: priority_step_mem priority_step_le priority_step_greatest)
  show "priority_step n = kombu_priority n"
    by (simp add: priority_step_unfold kombu_priority_def PRIORITY_STEPS_def
        word_le_nat_alt word_less_nat_alt)
qed

text \<open>
  One \<open>BRPOP\<close> of a worker polls exactly the keys the producer can write for its queues: the
  key list is the set of the keys of all (queue, priority) pairs, whatever the \<open>u8\<close> priority. It
  is laid out step-major, so every queue is drained of one priority before the next is looked
  at: entry \<open>k * n + j\<close> is the key of queue \<open>j\<close> for the \<open>k\<close>-th step.
\<close>

lemma brpop_keys_spec:
  "set (brpop_keys queues) = {q_for_pri q p | q p. q \<in> set queues}
   \<and> length (brpop_keys queues) = 4 * length queues
   \<and> (\<forall>k < 4. \<forall>j < length queues.
        brpop_keys queues ! (k * length queues + j)
          = q_for_pri (queues ! j) (PRIORITY_STEPS ! k))"
proof (intro conjI allI impI)
  show "set (brpop_keys queues) = {q_for_pri q p | q p. q \<in> set queues}"
    unfolding brpop_keys_def using kombu.polled_iff [of _ queues] by blast
  show "length (brpop_keys queues) = 4 * length queues"
    using kombu.polled_length [of queues] by (simp add: brpop_keys_def PRIORITY_STEPS_def)
  fix k j :: nat
  assume "k < 4" and "j < length queues"
  then show "brpop_keys queues ! (k * length queues + j)
               = q_for_pri (queues ! j) (PRIORITY_STEPS ! k)"
    using kombu.polled_nth [of k j queues] by (simp add: brpop_keys_def PRIORITY_STEPS_def)
qed

end
