(* ===== verification/Queues.thy ===== *)
theory Queues
  imports Job
begin

text \<open>
  \<open>make_queue_names\<close> of \<open>src/src/main.rs\<close>, and why the keys of a run are all different: the names
  it makes can never be mistaken for the priority key of another one, whatever the base name.
\<close>

section \<open>The names\<close>

definition make_queue_names :: "string \<Rightarrow> usize \<Rightarrow> string list" where
  "make_queue_names base n =
     (if n \<le> 1 then [base] else map (\<lambda>i. base @ ''_'' @ dec i) [0..<unat n])"

lemma make_queue_names_length: "length (make_queue_names base n) = max 1 (unat n)"
proof (cases "n \<le> 1")
  case True
  then have "unat n \<le> 1" by (simp add: word_le_nat_alt)
  with True show ?thesis by (simp add: make_queue_names_def)
next
  case False
  then have "1 < unat n" by (simp add: word_le_nat_alt)
  with False show ?thesis by (simp add: make_queue_names_def)
qed

lemma make_queue_names_not_Nil: "make_queue_names base n \<noteq> []"
  using make_queue_names_length [of base n] by auto

lemma make_queue_names_distinct: "distinct (make_queue_names base n)"
  by (simp add: make_queue_names_def distinct_map inj_on_def)

lemma make_queue_names_utf8:
  assumes "utf8_valid base"
  shows "list_all utf8_valid (make_queue_names base n)"
proof -
  have "utf8_valid (base @ s)" if "ascii s" for s
    using assms that
    by (rule utf8_valid_append [OF _ ascii_utf8_valid])
  then show ?thesis
    using assms by (auto simp: make_queue_names_def list_all_iff in_range_def)
qed

section \<open>The keys are different\<close>

lemma step_key:
  "p \<in> set PRIORITY_STEPS \<Longrightarrow>
   q_for_pri q p = (if p = 0 then q else q @ PRIORITY_SEP @ [digit_char (unat p)])"
  by (auto simp: q_for_pri_def PRIORITY_STEPS_def priority_step_unfold dec.simps)

lemma brpop_keys_distinct:
  assumes "distinct qs"
    and "\<And>q r p. q \<in> set qs \<Longrightarrow> r \<in> set qs \<Longrightarrow> p < 10 \<Longrightarrow> q \<noteq> r @ PRIORITY_SEP @ [digit_char p]"
  shows "distinct (brpop_keys qs)"
  unfolding brpop_keys_def
proof (rule kombu.polled_distinct [OF assms(1)])
  show "distinct PRIORITY_STEPS" by (simp add: PRIORITY_STEPS_def)
  have small: "unat p < 10" if "p \<in> set PRIORITY_STEPS" for p
    using that by (auto simp: PRIORITY_STEPS_def)
  have inv: "p = p' \<and> q = q'"
    if "p \<in> set PRIORITY_STEPS" "p' \<in> set PRIORITY_STEPS" "q \<in> set qs" "q' \<in> set qs"
      "q_for_pri q p = q_for_pri q' p'" for p p' q q'
  proof -
    have "digit_char (unat p) = digit_char (unat p') \<Longrightarrow> p = p'"
      using small [OF that(1)] small [OF that(2)] digit_val_digit_char by (metis word_unat_eq_iff)
    with that(5) show ?thesis
      using assms(2) [OF that(3,4) small [OF that(2)]] assms(2) [OF that(4,3) small [OF that(1)]]
      by (auto simp: step_key [OF that(1)] step_key [OF that(2)] PRIORITY_SEP_def split: if_splits)
  qed
  show "inj_on (\<lambda>(p, q). q_for_pri q p) (set PRIORITY_STEPS \<times> set qs)"
    by (rule inj_onI) (use inv in auto)
qed

text \<open>Dropping the digits at its end, a made name ends in \<open>_\<close> and a priority key in the separator.\<close>

lemma drop_digits: "\<forall>c \<in> set ds. is_digit c \<Longrightarrow> dropWhile is_digit (rev (s @ x # ds)) =
    (if is_digit x then dropWhile is_digit (rev s) else x # rev s)"
  by (simp add: dropWhile_append)

lemma made_name_not_key:
  assumes "p < 10"
  shows "base @ ''_'' @ dec i \<noteq> r @ PRIORITY_SEP @ [digit_char p]"
proof
  assume "base @ ''_'' @ dec i = r @ PRIORITY_SEP @ [digit_char p]"
  then have eq: "base @ CHR ''_'' # dec i = (r @ [CHR 0x06]) @ CHR 0x16 # [digit_char p]"
    by (simp add: PRIORITY_SEP_def)
  have "CHR ''_'' # rev base = dropWhile is_digit (rev (base @ CHR ''_'' # dec i))"
    by (subst drop_digits) (use dec_digits in \<open>auto simp: is_digit_def\<close>)
  also have "\<dots> = dropWhile is_digit (rev ((r @ [CHR 0x06]) @ CHR 0x16 # [digit_char p]))"
    by (simp only: eq)
  also have "\<dots> = CHR 0x16 # rev (r @ [CHR 0x06])"
    by (subst drop_digits) (use is_digit_digit_char [OF assms] in \<open>auto simp: is_digit_def\<close>)
  finally show False by simp
qed

lemma make_queue_names_keys_distinct: "distinct (brpop_keys (make_queue_names base n))"
proof (rule brpop_keys_distinct [OF make_queue_names_distinct])
  fix q r and p :: nat
  assume "q \<in> set (make_queue_names base n)" "r \<in> set (make_queue_names base n)" "p < 10"
  then show "q \<noteq> r @ PRIORITY_SEP @ [digit_char p]"
    using made_name_not_key [OF \<open>p < 10\<close>] by (auto simp: make_queue_names_def PRIORITY_SEP_def split: if_splits)
qed

section \<open>The properties of the queue names and their keys\<close>

text \<open>
  C25: the queue names of a run and the keys a worker polls for them never collide. For every base
  name and every count, \<open>max 1 n\<close> different names are made, and the four priority keys of each of
  them are all different, so no queue's messages can land under another queue's key.
\<close>

theorem queue_keys_distinct:
  "distinct (make_queue_names base n) \<and> length (make_queue_names base n) = max 1 (unat n) \<and>
   distinct (brpop_keys (make_queue_names base n)) \<and>
   length (brpop_keys (make_queue_names base n)) = 4 * max 1 (unat n)"
  using kombu.polled_length [of "make_queue_names base n", folded brpop_keys_def]
  by (simp add: make_queue_names_distinct make_queue_names_length make_queue_names_keys_distinct
      PRIORITY_STEPS_def)

end
