(* ===== verification/Cli.thy ===== *)
theory Cli
  imports Options Queues
begin

text \<open>
  \<open>src/src/main.rs\<close>: the command line (\<open>Cli\<close>), its validation (\<open>validate_cli\<close>), and the Redis
  URL built from it (\<open>build_redis_url\<close>), with the TLS decisions and the redaction of passwords.
  The \<open>url\<close> crate is a parameter, the record \<open>url_ops\<close> over a type of parsed URLs; \<open>url_ok\<close>
  states what the program relies on.
\<close>

section \<open>The url crate\<close>

text \<open>
  A failed setter leaves the URL as it was; a failure is \<open>None\<close>. The program does not call
  \<open>u_base\<close>: it is the crate's \<open>!cannot_be_a_base()\<close>, false for URLs like \<open>redis:x\<close>, which have no
  path to set.
\<close>

record 'u url_ops =
  u_parse :: "string \<Rightarrow> 'u option"
  u_string :: "'u \<Rightarrow> string"
  u_scheme :: "'u \<Rightarrow> string"
  u_path :: "'u \<Rightarrow> string"
  u_fragment :: "'u \<Rightarrow> string option"
  u_password :: "'u \<Rightarrow> string option"
  u_base :: "'u \<Rightarrow> bool"
  u_set_host :: "string \<Rightarrow> 'u \<Rightarrow> 'u option"
  u_set_port :: "u16 \<Rightarrow> 'u \<Rightarrow> 'u option"
  u_set_scheme :: "string \<Rightarrow> 'u \<Rightarrow> 'u option"
  u_set_password :: "string \<Rightarrow> 'u \<Rightarrow> 'u option"
  u_set_fragment :: "string \<Rightarrow> 'u \<Rightarrow> 'u"
  u_set_path :: "string \<Rightarrow> 'u \<Rightarrow> 'u"

text \<open>
  What is documented of the crate: a serialized URL parses to the same URL; a setter changes its
  own component and no other, and none makes a URL that can be a base one that cannot; whether a
  password can be set does not depend on the password, and one set later replaces one set before, whatever the order with other setters. The components the
  program itself sets (\<open>rediss\<close>, \<open>insecure\<close>, a number as path) are made of unreserved characters
  and kept as they are.
\<close>

definition keeps :: "('u \<Rightarrow> 'a) \<Rightarrow> ('u \<Rightarrow> 'u option) \<Rightarrow> bool" where
  "keeps get put \<longleftrightarrow> (\<forall>u u'. put u = Some u' \<longrightarrow> get u' = get u)"

definition url_frame :: "'u url_ops \<Rightarrow> bool" where
  "url_frame U \<longleftrightarrow>
     (\<forall>h. keeps (u_scheme U) (u_set_host U h) \<and> keeps (u_path U) (u_set_host U h)
        \<and> keeps (u_fragment U) (u_set_host U h) \<and> keeps (u_base U) (u_set_host U h)) \<and>
     (\<forall>p. keeps (u_scheme U) (u_set_port U p) \<and> keeps (u_path U) (u_set_port U p)
        \<and> keeps (u_fragment U) (u_set_port U p) \<and> keeps (u_base U) (u_set_port U p)) \<and>
     (\<forall>s. keeps (u_path U) (u_set_scheme U s) \<and> keeps (u_fragment U) (u_set_scheme U s)
        \<and> keeps (u_base U) (u_set_scheme U s)) \<and>
     (\<forall>p. keeps (u_scheme U) (u_set_password U p) \<and> keeps (u_path U) (u_set_password U p)
        \<and> keeps (u_fragment U) (u_set_password U p) \<and> keeps (u_base U) (u_set_password U p)) \<and>
     (\<forall>f u. u_scheme U (u_set_fragment U f u) = u_scheme U u
        \<and> u_path U (u_set_fragment U f u) = u_path U u
        \<and> u_base U (u_set_fragment U f u) = u_base U u) \<and>
     (\<forall>p u. u_scheme U (u_set_path U p u) = u_scheme U u
        \<and> u_fragment U (u_set_path U p u) = u_fragment U u
        \<and> u_password U (u_set_path U p u) = u_password U u)"

definition url_values :: "'u url_ops \<Rightarrow> bool" where
  "url_values U \<longleftrightarrow>
     (\<forall>u. u_parse U (u_string U u) = Some u) \<and>
     (\<forall>u u'. u_set_scheme U ''rediss'' u = Some u' \<longrightarrow> u_scheme U u' = ''rediss'') \<and>
     (\<forall>u. u_fragment U (u_set_fragment U ''insecure'' u) = Some ''insecure'') \<and>
     (\<forall>n u. u_base U u \<longrightarrow> u_path U (u_set_path U (CHR ''/'' # dec n) u) = CHR ''/'' # dec n)"

definition url_passwords :: "'u url_ops \<Rightarrow> bool" where
  "url_passwords U \<longleftrightarrow>
     (\<forall>p q u. u_set_password U p u = None \<longrightarrow> u_set_password U q u = None) \<and>
     (\<forall>p u u'. u_set_password U p u = Some u' \<longrightarrow> p \<noteq> [] \<longrightarrow> u_password U u' \<noteq> None) \<and>
     (\<forall>p q u u'. u_set_password U p u = Some u' \<longrightarrow> u_set_password U q u' = u_set_password U q u) \<and>
     (\<forall>p x u. u_set_password U p (u_set_path U x u)
        = map_option (u_set_path U x) (u_set_password U p u))"

definition url_ok :: "'u url_ops \<Rightarrow> bool" where
  "url_ok U \<longleftrightarrow> url_frame U \<and> url_values U \<and> url_passwords U"

section \<open>The command line\<close>

record cli =
  url :: string
  host :: "string option"
  port :: "u16 option"
  password :: "string option"
  tls :: bool
  insecure :: bool
  db :: "u8 option"
  workers :: "usize list"
  jobs :: u64
  warmup_jobs :: u64
  queue :: string
  num_queues :: usize
  priorities :: "u8 list"
  cli_brpop_timeout_secs :: f64
  latency_percentiles :: "string list"
  tag :: "string option"
  output_path :: "string option"
  timeout :: u64
  quiet :: bool
  allow_flushdb :: bool

text \<open>The command line without any option: the default values of the declarations.\<close>

definition cli_defaults :: cli where
  "cli_defaults =
     \<lparr>url = ''redis://127.0.0.1:6379/13'', host = None, port = None, password = None, tls = False,
      insecure = False, db = None, workers = [10, 50, 100, 200], jobs = 500000, warmup_jobs = 0,
      queue = ''celery'', num_queues = 1, priorities = [0], cli_brpop_timeout_secs = Fin 1,
      latency_percentiles = [''p50'', ''p90'', ''p99'', ''p999'', ''max''], tag = None,
      output_path = None, timeout = 300, quiet = False, allow_flushdb = False\<rparr>"

definition parsed_scheme :: "'u url_ops \<Rightarrow> string \<Rightarrow> string option" where
  "parsed_scheme U s = map_option (u_scheme U) (u_parse U s)"

definition resolves_to_tls_scheme :: "'u url_ops \<Rightarrow> cli \<Rightarrow> bool" where
  "resolves_to_tls_scheme U cli =
     (case parsed_scheme U (url cli) of
        Some scheme \<Rightarrow> scheme = ''rediss'' \<or> tls cli \<and> scheme = ''redis''
      | None \<Rightarrow> False)"

section \<open>Redaction\<close>

definition redact_url :: "'u url_ops \<Rightarrow> string \<Rightarrow> string" where
  "redact_url U raw =
     (case u_parse U raw of
        Some u \<Rightarrow>
          (let u = (if u_password U u \<noteq> None
                    then (case u_set_password U ''****'' u of Some u' \<Rightarrow> u' | None \<Rightarrow> u) else u)
           in u_string U u)
      | None \<Rightarrow> raw)"

definition redact_url_best_effort :: "'u url_ops \<Rightarrow> string \<Rightarrow> string" where
  "redact_url_best_effort U s =
     (case u_parse U s of
        Some u \<Rightarrow> redact_url U (u_string U u)
      | None \<Rightarrow>
          (case find_str ''://'' s of
             None \<Rightarrow> s
           | Some scheme_end \<Rightarrow>
               (let after_scheme = drop (scheme_end + 3) s in
                case find_str ''@'' after_scheme of
                  None \<Rightarrow> s
                | Some at_pos \<Rightarrow>
                    (let userinfo = take at_pos after_scheme in
                     case find_str '':'' userinfo of
                       None \<Rightarrow> s
                     | Some colon \<Rightarrow>
                         take (scheme_end + 3) s @ take colon userinfo @ '':****@''
                         @ drop (at_pos + 1) after_scheme))))"

section \<open>The Redis URL\<close>

datatype url_error =
    InvalidUrl string
  | InvalidHost string
  | CannotSetPort string
  | CannotUpgradeScheme
  | CannotSetPassword string

text \<open>\<open>if let Some(x) = arg { u.set(x).map_err(..)? }\<close>.\<close>

definition set_option :: "('x \<Rightarrow> 'u \<Rightarrow> 'u option) \<Rightarrow> ('x \<Rightarrow> 'e) \<Rightarrow> 'x option \<Rightarrow> 'u \<Rightarrow> ('e, 'u) outcome" where
  "set_option put err arg u =
     (case arg of
        None \<Rightarrow> Ok u
      | Some x \<Rightarrow> (case put x u of None \<Rightarrow> Err (err x) | Some u' \<Rightarrow> Ok u'))"

definition trim_slashes :: "string \<Rightarrow> string" where
  "trim_slashes s = rev (dropWhile (\<lambda>c. c = CHR ''/'') (rev (dropWhile (\<lambda>c. c = CHR ''/'') s)))"

definition build_redis_url :: "'u url_ops \<Rightarrow> cli \<Rightarrow> (url_error, string) outcome" where
  "build_redis_url U cli =
     (let insecure_applies = (insecure cli \<and> resolves_to_tls_scheme U cli) in
      case u_parse U (url cli) of
        None \<Rightarrow> Err (InvalidUrl (redact_url_best_effort U (url cli)))
      | Some u \<Rightarrow>
          bind_outcome (set_option (u_set_host U) InvalidHost (host cli) u) (\<lambda>u.
          bind_outcome (set_option (u_set_port U)
            (\<lambda>_. CannotSetPort (redact_url_best_effort U (url cli))) (port cli) u) (\<lambda>u.
          bind_outcome
            (if tls cli \<and> u_scheme U u = ''redis''
             then (case u_set_scheme U ''rediss'' u of None \<Rightarrow> Err CannotUpgradeScheme | Some u' \<Rightarrow> Ok u')
             else Ok u) (\<lambda>u.
          let u = (if insecure_applies then u_set_fragment U ''insecure'' u else u) in
          bind_outcome (set_option (u_set_password U)
            (\<lambda>_. CannotSetPassword (redact_url_best_effort U (url cli))) (password cli) u) (\<lambda>u.
          let u = (case db cli of
                     Some n \<Rightarrow> u_set_path U (CHR ''/'' # dec (unat n)) u
                   | None \<Rightarrow> if trim_slashes (u_path U u) = [] then u_set_path U ''/13'' u else u)
          in Ok (u_string U u))))))"

definition url_disables_cert_verification :: "'u url_ops \<Rightarrow> string \<Rightarrow> bool" where
  "url_disables_cert_verification U s =
     (case u_parse U s of
        Some u \<Rightarrow> u_scheme U u = ''rediss'' \<and> u_fragment U u = Some ''insecure''
      | None \<Rightarrow> False)"

section \<open>Validation\<close>

definition MAX_NUM_QUEUES :: usize where
  "MAX_NUM_QUEUES = 10000"

definition MAX_WORKERS_PER_TRIAL :: usize where
  "MAX_WORKERS_PER_TRIAL = 200000"

datatype cli_error =
    JobsZero
  | NumQueuesZero
  | TooManyQueues usize
  | NoPriorities
  | PriorityTooHigh u8
  | NoWorkers
  | ZeroWorkers
  | TooManyWorkers usize
  | BadBrpopTimeout f64
  | TimeoutZero
  | InsecureWithoutTls

text \<open>A \<open>for\<close> loop of checks: the first failure is returned.\<close>

fun check_all :: "('a \<Rightarrow> ('e, unit) outcome) \<Rightarrow> 'a list \<Rightarrow> ('e, unit) outcome" where
  "check_all f [] = Ok ()"
| "check_all f (x # xs) = bind_outcome (f x) (\<lambda>_. check_all f xs)"

definition validate_cli :: "'u url_ops \<Rightarrow> cli \<Rightarrow> (cli_error, unit) outcome" where
  "validate_cli U cli =
     bind_outcome (ensure (0 < jobs cli) JobsZero) (\<lambda>_.
     bind_outcome (ensure (0 < num_queues cli) NumQueuesZero) (\<lambda>_.
     bind_outcome (ensure (num_queues cli \<le> MAX_NUM_QUEUES) (TooManyQueues (num_queues cli))) (\<lambda>_.
     bind_outcome (ensure (priorities cli \<noteq> []) NoPriorities) (\<lambda>_.
     bind_outcome (check_all (\<lambda>p. ensure (p \<le> 9) (PriorityTooHigh p)) (priorities cli)) (\<lambda>_.
     bind_outcome (ensure (workers cli \<noteq> []) NoWorkers) (\<lambda>_.
     bind_outcome (check_all (\<lambda>w.
        bind_outcome (ensure (0 < w) ZeroWorkers) (\<lambda>_.
        ensure (w \<le> MAX_WORKERS_PER_TRIAL) (TooManyWorkers w))) (workers cli)) (\<lambda>_.
     bind_outcome (ensure (f64_is_finite (cli_brpop_timeout_secs cli)
                           \<and> f64_less (Fin 0) (cli_brpop_timeout_secs cli))
        (BadBrpopTimeout (cli_brpop_timeout_secs cli))) (\<lambda>_.
     bind_outcome (ensure (0 < timeout cli) TimeoutZero) (\<lambda>_.
     ensure (\<not> insecure cli \<or> resolves_to_tls_scheme U cli) InsecureWithoutTls)))))))))"

end
