(* ===== verification/Envelope.thy ===== *)
theory Envelope
  imports Job
begin

text \<open>
  \<open>src/src/job.rs\<close>, the message: the four structs of the Celery protocol-v2 envelope with the
  JSON form serde derives for them (\<open>ser_\<close>, \<open>de_\<close>), \<open>CeleryEnvelope::new\<close> and
  \<open>enqueued_at_ns\<close>. What \<open>new\<close> takes from the outside (two UUIDs, the clock, the process id) is
  the record \<open>stamp\<close>. The locale \<open>json_codec\<close> is the contract of a derived pair of conversions.
\<close>

section \<open>The structs and their JSON form\<close>

record delivery_info =
  exchange :: string
  routing_key :: string

record task_properties =
  correlation_id :: string
  reply_to :: string
  body_encoding :: string
  delivery_tag :: string
  delivery_info :: delivery_info
  priority :: u8

record task_headers =
  lang :: string
  task :: string
  task_id :: string
  shadow :: "string option"
  eta :: "string option"
  expires :: "string option"
  group_id :: "string option"
  group_index :: "u32 option"
  retries :: u32
  timelimit :: "u64 option \<times> u64 option"
  root_id :: string
  parent_id :: "string option"
  argsrepr :: string
  kwargsrepr :: string
  origin :: string
  ignore_result :: bool
  replaced_task_nesting :: u32
  stamped_headers :: "string list option"
  stamps :: json

record celery_envelope =
  body :: string
  content_encoding :: string
  content_type :: string
  headers :: task_headers
  properties :: task_properties

definition ser_delivery_info :: "delivery_info \<Rightarrow> json" where
  "ser_delivery_info d = JObj
     [(''exchange'', JStr (exchange d)),
      (''routing_key'', JStr (routing_key d))]"

definition de_delivery_info :: "json \<Rightarrow> delivery_info option" where
  "de_delivery_info j = do {
     f \<leftarrow> de_struct [''exchange'', ''routing_key''] j;
     ex \<leftarrow> required de_string (f ''exchange'');
     rk \<leftarrow> required de_string (f ''routing_key'');
     Some \<lparr>exchange = ex, routing_key = rk\<rparr> }"

definition ser_properties :: "task_properties \<Rightarrow> json" where
  "ser_properties p = JObj
     [(''correlation_id'', JStr (correlation_id p)),
      (''reply_to'', JStr (reply_to p)),
      (''body_encoding'', JStr (body_encoding p)),
      (''delivery_tag'', JStr (delivery_tag p)),
      (''delivery_info'', ser_delivery_info (delivery_info p)),
      (''priority'', ser_unsigned (priority p))]"

definition de_properties :: "json \<Rightarrow> task_properties option" where
  "de_properties j = do {
     f \<leftarrow> de_struct [''correlation_id'', ''reply_to'', ''body_encoding'', ''delivery_tag'',
            ''delivery_info'', ''priority''] j;
     ci \<leftarrow> required de_string (f ''correlation_id'');
     rt \<leftarrow> required de_string (f ''reply_to'');
     be \<leftarrow> required de_string (f ''body_encoding'');
     dt \<leftarrow> required de_string (f ''delivery_tag'');
     di \<leftarrow> required de_delivery_info (f ''delivery_info'');
     pr \<leftarrow> required de_u8 (f ''priority'');
     Some \<lparr>correlation_id = ci, reply_to = rt, body_encoding = be, delivery_tag = dt,
       delivery_info = di, priority = pr\<rparr> }"

definition ser_headers :: "task_headers \<Rightarrow> json" where
  "ser_headers h = JObj
     [(''lang'', JStr (lang h)),
      (''task'', JStr (task h)),
      (''id'', JStr (task_id h)),
      (''shadow'', ser_option JStr (shadow h)),
      (''eta'', ser_option JStr (eta h)),
      (''expires'', ser_option JStr (expires h)),
      (''group'', ser_option JStr (group_id h)),
      (''group_index'', ser_option ser_unsigned (group_index h)),
      (''retries'', ser_unsigned (retries h)),
      (''timelimit'', JArr [ser_option ser_unsigned (fst (timelimit h)),
                           ser_option ser_unsigned (snd (timelimit h))]),
      (''root_id'', JStr (root_id h)),
      (''parent_id'', ser_option JStr (parent_id h)),
      (''argsrepr'', JStr (argsrepr h)),
      (''kwargsrepr'', JStr (kwargsrepr h)),
      (''origin'', JStr (origin h)),
      (''ignore_result'', JBool (ignore_result h)),
      (''replaced_task_nesting'', ser_unsigned (replaced_task_nesting h)),
      (''stamped_headers'', ser_option (\<lambda>xs. JArr (map JStr xs)) (stamped_headers h)),
      (''stamps'', stamps h)]"

definition header_fields :: "string list" where
  "header_fields =
     [''lang'', ''task'', ''id'', ''shadow'', ''eta'', ''expires'', ''group'', ''group_index'',
      ''retries'', ''timelimit'', ''root_id'', ''parent_id'', ''argsrepr'', ''kwargsrepr'',
      ''origin'', ''ignore_result'', ''replaced_task_nesting'', ''stamped_headers'', ''stamps'']"

definition de_headers :: "json \<Rightarrow> task_headers option" where
  "de_headers j = do {
     f \<leftarrow> de_struct header_fields j;
     la \<leftarrow> required de_string (f ''lang'');
     ta \<leftarrow> required de_string (f ''task'');
     id \<leftarrow> required de_string (f ''id'');
     sh \<leftarrow> optional de_string (f ''shadow'');
     et \<leftarrow> optional de_string (f ''eta'');
     ex \<leftarrow> optional de_string (f ''expires'');
     gr \<leftarrow> optional de_string (f ''group'');
     gi \<leftarrow> optional de_u32 (f ''group_index'');
     re \<leftarrow> required de_u32 (f ''retries'');
     tl \<leftarrow> required (de_pair (de_option de_u64) (de_option de_u64)) (f ''timelimit'');
     ro \<leftarrow> required de_string (f ''root_id'');
     pa \<leftarrow> optional de_string (f ''parent_id'');
     ar \<leftarrow> required de_string (f ''argsrepr'');
     kw \<leftarrow> required de_string (f ''kwargsrepr'');
     og \<leftarrow> required de_string (f ''origin'');
     ig \<leftarrow> required de_bool (f ''ignore_result'');
     rn \<leftarrow> required de_u32 (f ''replaced_task_nesting'');
     sd \<leftarrow> optional (de_vec de_string) (f ''stamped_headers'');
     st \<leftarrow> required de_value (f ''stamps'');
     Some \<lparr>lang = la, task = ta, task_id = id, shadow = sh, eta = et, expires = ex,
       group_id = gr, group_index = gi, retries = re, timelimit = tl, root_id = ro,
       parent_id = pa, argsrepr = ar, kwargsrepr = kw, origin = og, ignore_result = ig,
       replaced_task_nesting = rn, stamped_headers = sd, stamps = st\<rparr> }"

definition ser_envelope :: "celery_envelope \<Rightarrow> json" where
  "ser_envelope e = JObj
     [(''body'', JStr (body e)),
      (''content-encoding'', JStr (content_encoding e)),
      (''content-type'', JStr (content_type e)),
      (''headers'', ser_headers (headers e)),
      (''properties'', ser_properties (properties e))]"

definition de_envelope :: "json \<Rightarrow> celery_envelope option" where
  "de_envelope j = do {
     f \<leftarrow> de_struct [''body'', ''content-encoding'', ''content-type'', ''headers'', ''properties''] j;
     bo \<leftarrow> required de_string (f ''body'');
     ce \<leftarrow> required de_string (f ''content-encoding'');
     ct \<leftarrow> required de_string (f ''content-type'');
     he \<leftarrow> required de_headers (f ''headers'');
     pr \<leftarrow> required de_properties (f ''properties'');
     Some \<lparr>body = bo, content_encoding = ce, content_type = ct, headers = he, properties = pr\<rparr> }"

section \<open>Reading back a struct\<close>

locale json_codec =
  fixes ser :: "'a \<Rightarrow> json" and de :: "json \<Rightarrow> 'a option" and ok :: "'a \<Rightarrow> bool"
  assumes de_ser: "ok x \<Longrightarrow> de (ser x) = Some x"
begin

lemma ser_inject: "ok x \<Longrightarrow> ok y \<Longrightarrow> ser x = ser y \<Longrightarrow> x = y"
  by (metis de_ser option.inject)

text \<open>Through the text: what one side prints, the other reads.\<close>

lemma text_round_trip:
  "codec_ok c \<Longrightarrow> ok x \<Longrightarrow> plain_json (ser x) \<Longrightarrow>
   Option.bind (json_from_slice c (json_to_string c (ser x))) de = Some x"
  by (simp add: codec_okD de_ser)

end

interpretation delivery: json_codec ser_delivery_info de_delivery_info "\<lambda>_. True"
  by unfold_locales (simp add: ser_delivery_info_def de_delivery_info_def)

interpretation props: json_codec ser_properties de_properties "\<lambda>_. True"
  by unfold_locales
    (simp add: ser_properties_def de_properties_def delivery.de_ser serde_simps)

lemma optional_ser_option [serde_simps]:
  "(\<And>x. de (se x) = Some x) \<Longrightarrow> (\<And>x. se x \<noteq> JNull) \<Longrightarrow>
   optional de (Some (ser_option se v)) = Some v"
  by (simp add: serde_simps)

interpretation hdrs: json_codec ser_headers de_headers "\<lambda>h. to_value (stamps h) = stamps h"
  by unfold_locales
    (simp add: ser_headers_def de_headers_def header_fields_def serde_simps de_value_def)

interpretation envelope: json_codec ser_envelope de_envelope
    "\<lambda>e. to_value (stamps (headers e)) = stamps (headers e)"
  by unfold_locales
    (simp add: ser_envelope_def de_envelope_def hdrs.de_ser props.de_ser)

section \<open>Building a message\<close>

text \<open>
  What \<open>CeleryEnvelope::new\<close> reads from the outside: two fresh UUIDs in text form, the clock
  (nanoseconds since the epoch, negative when it is set before it) and the process id.
\<close>

record stamp =
  task_uuid :: string
  tag_uuid :: string
  clock_ns :: int
  pid :: u32

text \<open>\<open>SystemTime::now().duration_since(UNIX_EPOCH).expect(..).as_nanos() as u64\<close>.\<close>

definition unix_now_ns :: "int \<Rightarrow> ('e, u64) outcome" where
  "unix_now_ns t =
     (if 0 \<le> t then Ok (of_int t) else Panicked ''system clock is before UNIX_EPOCH'')"

definition marker_kwargs :: "u64 \<Rightarrow> u64 \<Rightarrow> json" where
  "marker_kwargs now idx =
     json_object [(''enqueued_at_ns'', JNum (PosInt now)), (''idx'', JNum (PosInt idx))]"

definition null_embed :: json where
  "null_embed = json_object
     [(''callbacks'', JNull), (''errbacks'', JNull), (''chain'', JNull), (''chord'', JNull)]"

definition inner_body :: "u64 \<Rightarrow> u64 \<Rightarrow> json" where
  "inner_body now idx = JArr [JArr [], marker_kwargs now idx, null_embed]"

definition kwargs_repr :: "u64 \<Rightarrow> u64 \<Rightarrow> string" where
  "kwargs_repr now idx =
     ''{'enqueued_at_ns': '' @ dec (unat now) @ '', 'idx': '' @ dec (unat idx) @ ''}''"

definition envelope_new ::
  "text_codec \<Rightarrow> stamp \<Rightarrow> string \<Rightarrow> u8 \<Rightarrow> u64 \<Rightarrow> ('e, celery_envelope) outcome" where
  "envelope_new c st queue prio idx =
     bind_outcome (unix_now_ns (clock_ns st)) (\<lambda>now. Ok
       \<lparr>body = b64_encode c (json_to_string c (inner_body now idx)),
        content_encoding = ''utf-8'',
        content_type = ''application/json'',
        headers =
          \<lparr>lang = ''py'', task = ''celery_bench.tasks.noop'', task_id = task_uuid st,
           shadow = None, eta = None, expires = None, group_id = None, group_index = None,
           retries = 0, timelimit = (None, None), root_id = task_uuid st, parent_id = None,
           argsrepr = ''()'', kwargsrepr = kwargs_repr now idx,
           origin = ''gen'' @ dec (unat (pid st)) @ ''@celery-bench'',
           ignore_result = False, replaced_task_nesting = 0, stamped_headers = None,
           stamps = json_object []\<rparr>,
        properties =
          \<lparr>correlation_id = task_uuid st, reply_to = [], body_encoding = ''base64'',
           delivery_tag = tag_uuid st,
           delivery_info = \<lparr>exchange = [], routing_key = queue\<rparr>,
           priority = prio\<rparr>\<rparr>)"

definition enqueued_at_ns :: "text_codec \<Rightarrow> celery_envelope \<Rightarrow> u64 option" where
  "enqueued_at_ns c e = do {
     decoded \<leftarrow> b64_decode c (body e);
     doc \<leftarrow> json_from_slice c decoded;
     arr \<leftarrow> as_array (to_value doc);
     kwargs \<leftarrow> slice_get 1 arr;
     v \<leftarrow> value_get ''enqueued_at_ns'' kwargs;
     as_u64 v }"

text \<open>\<open>serde_json::to_string(&envelope)\<close> and \<open>serde_json::from_slice::<CeleryEnvelope>\<close>.\<close>

definition env_to_string :: "text_codec \<Rightarrow> celery_envelope \<Rightarrow> string" where
  "env_to_string c e = json_to_string c (ser_envelope e)"

definition env_from_slice :: "text_codec \<Rightarrow> string \<Rightarrow> celery_envelope option" where
  "env_from_slice c s = Option.bind (json_from_slice c s) de_envelope"

text \<open>What the worker learns of a payload: the marker of a message of this tool, if it is one.\<close>

definition payload_marker :: "text_codec \<Rightarrow> string \<Rightarrow> u64 option" where
  "payload_marker c s = Option.bind (env_from_slice c s) (enqueued_at_ns c)"

section \<open>The marker survives the wire\<close>

lemma unix_now_ns_Ok: "0 \<le> t \<Longrightarrow> unix_now_ns t = Ok (of_int t)"
  by (simp add: unix_now_ns_def)

lemma inner_body_plain: "plain_json (inner_body now idx)"
  by (simp add: plain_json_def inner_body_def marker_kwargs_def null_embed_def json_object_def
      bt_of_list_def in_range_def)

lemma inner_body_value [simp]: "to_value (inner_body now idx) = inner_body now idx"
  by (simp add: inner_body_def marker_kwargs_def null_embed_def json_object_def bt_of_list_def)

lemma inner_body_marker:
  "(do { arr \<leftarrow> as_array (inner_body now idx); kwargs \<leftarrow> slice_get 1 arr;
         v \<leftarrow> value_get ''enqueued_at_ns'' kwargs; as_u64 v }) = Some now"
  by (simp add: inner_body_def marker_kwargs_def json_object_def bt_of_list_def slice_get_def)

lemma enqueued_at_ns_new:
  assumes "codec_ok c" and "envelope_new c st queue prio idx = Ok e"
  shows "enqueued_at_ns c e = Some (of_int (clock_ns st))"
proof -
  from assms(2) have "body e = b64_encode c (json_to_string c (inner_body (of_int (clock_ns st)) idx))"
    by (auto simp: envelope_new_def unix_now_ns_def split: if_splits)
  with assms(1) show ?thesis
    using inner_body_marker [of "of_int (clock_ns st)" idx]
    by (simp add: enqueued_at_ns_def codec_okD inner_body_plain)
qed

text \<open>The strings \<open>new\<close> is given are UTF-8; the rest of the message is ASCII.\<close>

definition stamp_ok :: "stamp \<Rightarrow> bool" where
  "stamp_ok st \<longleftrightarrow> ascii (task_uuid st) \<and> ascii (tag_uuid st) \<and> 0 \<le> clock_ns st"

lemma kwargs_repr_ascii: "ascii (kwargs_repr now idx)"
  by (simp add: kwargs_repr_def in_range_def)

lemma envelope_new_Ok:
  "envelope_new c st queue prio idx = Ok e \<Longrightarrow>
   0 \<le> clock_ns st \<and> body e = b64_encode c (json_to_string c (inner_body (of_int (clock_ns st)) idx)) \<and>
   kwargsrepr (headers e) = kwargs_repr (of_int (clock_ns st)) idx \<and>
   stamps (headers e) = JObj [] \<and> priority (properties e) = prio \<and>
   routing_key (delivery_info (properties e)) = queue"
  by (auto simp: envelope_new_def unix_now_ns_def json_object_def bt_of_list_def split: if_splits)

lemma envelope_new_plain:
  assumes "codec_ok c" and "stamp_ok st" and "utf8_valid queue"
    and "envelope_new c st queue prio idx = Ok e"
  shows "plain_json (ser_envelope e)"
proof -
  let ?now = "of_int (clock_ns st) :: u64"
  have b: "utf8_valid (b64_encode c (json_to_string c (inner_body ?now idx)))"
    using assms(1) by (simp add: codec_okD ascii_utf8_valid)
  have k: "utf8_valid (kwargs_repr ?now idx)"
    by (simp add: kwargs_repr_ascii ascii_utf8_valid)
  have o: "utf8_valid (''gen'' @ dec (unat (pid st)) @ ''@celery-bench'')"
    by (rule ascii_utf8_valid) (simp add: in_range_def)
  have u: "utf8_valid (task_uuid st)" "utf8_valid (tag_uuid st)" "0 \<le> clock_ns st"
    using assms(2) by (simp_all add: stamp_ok_def ascii_utf8_valid)
  note e = assms(4) [unfolded envelope_new_def unix_now_ns_Ok [OF u(3)] bind_outcome.simps
    outcome.inject, symmetric]
  have "json_clean (ser_envelope e)"
    using b k o u(1,2) assms(3)
    by (simp add: e ser_envelope_def ser_headers_def ser_properties_def ser_delivery_info_def
        json_object_def bt_of_list_def in_range_def)
  moreover have "json_depth (ser_envelope e) < 128"
    by (simp add: e ser_envelope_def ser_headers_def ser_properties_def ser_delivery_info_def
        json_object_def bt_of_list_def)
  ultimately show ?thesis by (simp add: plain_json_def)
qed

lemma envelope_new_stamps:
  "envelope_new c st queue prio idx = Ok e \<Longrightarrow> to_value (stamps (headers e)) = stamps (headers e)"
  by (auto simp: envelope_new_def unix_now_ns_def json_object_def bt_of_list_def split: if_splits)

lemma env_round_trip:
  assumes "codec_ok c" and "stamp_ok st" and "utf8_valid queue"
    and "envelope_new c st queue prio idx = Ok e"
  shows "env_from_slice c (env_to_string c e) = Some e"
  unfolding env_from_slice_def env_to_string_def
  by (rule envelope.text_round_trip [OF assms(1) envelope_new_stamps [OF assms(4)]
        envelope_new_plain [OF assms]])

lemma payload_marker_new:
  assumes "codec_ok c" and "stamp_ok st" and "utf8_valid queue"
    and "envelope_new c st queue prio idx = Ok e"
  shows "payload_marker c (env_to_string c e) = Some (of_int (clock_ns st))"
  using env_round_trip [OF assms] enqueued_at_ns_new [OF assms(1,4)]
  by (simp add: payload_marker_def)

end
