(* ===== verification/Report.thy ===== *)
theory Report
  imports Metrics Json
begin

text \<open>
  \<open>src/src/report.rs\<close>: the texts of durations, counts and rates, the line printed for a trial, the
  rows of the summary table, and the document written by \<open>write_json\<close>. What is printed and
  written of them is in \<open>Report_File\<close>.
\<close>

section \<open>The result of a trial\<close>

text \<open>
  \<open>TrialResult\<close> of \<open>src/src/metrics.rs\<close>. The hash map of the per-second latencies is the list of its
  entries in the order it is iterated in.
\<close>

record trial_result =
  tr_workers :: usize
  total_jobs :: u64
  duration_s :: f64
  jobs_per_sec :: f64
  throughput_per_sec :: "u64 list"
  errors_per_sec :: "u64 list"
  latency_per_sec :: "(string \<times> u64 list) list"
  latency :: latency_stats
  tr_errors :: u64
  timed_out :: bool

section \<open>Numbers as text\<close>

definition fmt_us :: "u64 \<Rightarrow> string" where
  "fmt_us us =
     (if us < 1000 then dec (unat us) @ [CHR '' '', CHR 0xC2, CHR 0xB5, CHR ''s'']
      else if us < 1000000 then f64_fmt 1 (f64_div (f64_of_nat (unat us)) (Fin 1000)) @ '' ms''
      else f64_fmt 2 (f64_div (f64_of_nat (unat us)) (Fin 1000000)) @ '' s'')"

text \<open>The loop of \<open>format_n\<close> over the reversed digits: \<open>i\<close> is the index of \<open>enumerate\<close>.\<close>

fun format_n_loop :: "nat \<Rightarrow> string \<Rightarrow> string \<Rightarrow> string" where
  "format_n_loop i [] result = result"
| "format_n_loop i (c # cs) result =
     (let result = (if 0 < i \<and> i mod 3 = 0 then result @ '','' else result)
      in format_n_loop (Suc i) cs (result @ [c]))"

definition format_n :: "u64 \<Rightarrow> string" where
  "format_n n = rev (format_n_loop 0 (rev (dec (unat n))) [])"

definition format_jobs_per_sec :: "f64 \<Rightarrow> string" where
  "format_jobs_per_sec jps =
     (if \<not> f64_is_finite jps \<or> f64_less jps (Fin 0) then ''n/a'' else format_n (f64_to_u64 jps))"

section \<open>The line of a trial and the summary\<close>

text \<open>The widths of the format strings count characters, not bytes.\<close>

definition align_left :: "nat \<Rightarrow> string \<Rightarrow> string" where
  "align_left w s = s @ replicate (w - length (utf8_chars s)) (CHR '' '')"

definition align_right :: "nat \<Rightarrow> string \<Rightarrow> string" where
  "align_right w s = replicate (w - length (utf8_chars s)) (CHR '' '') @ s"

definition trial_line :: "trial_result \<Rightarrow> string" where
  "trial_line r =
     ''  ['' @ align_right 4 (dec (unat (tr_workers r))) @ '' workers]  ''
     @ align_right 10 (format_jobs_per_sec (jobs_per_sec r)) @ '' jobs/s  p50=''
     @ align_left 8 (fmt_us (p50 (latency r))) @ '' p99=''
     @ align_left 8 (fmt_us (p99 (latency r))) @ '' p99.9=''
     @ align_left 8 (fmt_us (p99_9 (latency r))) @ '' max=''
     @ fmt_us (max_us (latency r)) @ (if timed_out r then '' [TIMEOUT]'' else [])"

definition summary_header :: "string list" where
  "summary_header =
     [''Workers'', ''jobs/s'', ''p50'', ''p99'', ''p99.9'', ''max'', ''errors'']"

definition summary_row :: "trial_result \<Rightarrow> string list" where
  "summary_row r =
     [(if timed_out r then dec (unat (tr_workers r)) @ '' [timeout]'' else dec (unat (tr_workers r))),
      format_jobs_per_sec (jobs_per_sec r),
      fmt_us (p50 (latency r)), fmt_us (p99 (latency r)), fmt_us (p99_9 (latency r)),
      fmt_us (max_us (latency r)), dec (unat (tr_errors r))]"

definition summary_table :: "trial_result list \<Rightarrow> string list list" where
  "summary_table rs = summary_header # map summary_row rs"

section \<open>The JSON report\<close>

text \<open>How \<open>serde_json\<close> writes a double: a number, or \<open>null\<close> when it is not finite.\<close>

definition ser_f64 :: "f64 \<Rightarrow> json" where
  "ser_f64 x = (if f64_is_finite x then JNum (JFloat x) else JNull)"

definition ser_u64s :: "u64 list \<Rightarrow> json" where
  "ser_u64s xs = JArr (map ser_unsigned xs)"

definition ser_latency_stats :: "latency_stats \<Rightarrow> json" where
  "ser_latency_stats l = JObj
     [(''p50'', ser_unsigned (p50 l)), (''p75'', ser_unsigned (p75 l)),
      (''p90'', ser_unsigned (p90 l)), (''p95'', ser_unsigned (p95 l)),
      (''p99'', ser_unsigned (p99 l)), (''p99_9'', ser_unsigned (p99_9 l)),
      (''p99_99'', ser_unsigned (p99_99 l)), (''max'', ser_unsigned (max_us l)),
      (''mean'', ser_f64 (mean l)), (''total_count'', ser_unsigned (total_count l))]"

definition round_duration :: "f64 \<Rightarrow> f64" where
  "round_duration d = f64_div (f64_round (f64_mul d (Fin 1000))) (Fin 1000)"

definition round_rate :: "f64 \<Rightarrow> f64" where
  "round_rate jps =
     (if f64_is_finite jps then f64_div (f64_round (f64_mul jps (Fin 10))) (Fin 10) else Fin 0)"

definition json_result :: "trial_result \<Rightarrow> json" where
  "json_result r = JObj
     [(''workers'', ser_unsigned (tr_workers r)),
      (''total_jobs'', ser_unsigned (total_jobs r)),
      (''duration_s'', ser_f64 (round_duration (duration_s r))),
      (''jobs_per_sec'', ser_f64 (round_rate (jobs_per_sec r))),
      (''timed_out'', JBool (timed_out r)),
      (''throughput_per_sec'', ser_u64s (throughput_per_sec r)),
      (''errors_per_sec'', ser_u64s (errors_per_sec r)),
      (''latency_per_sec_us'', JObj (map (\<lambda>(k, vs). (k, ser_u64s vs)) (latency_per_sec r))),
      (''latency_us'', ser_latency_stats (latency r)),
      (''errors'', ser_unsigned (tr_errors r))]"

text \<open>The document of \<open>write_json\<close>; \<open>timestamp\<close> is the RFC 3339 text of the current time.\<close>

definition json_output ::
  "trial_result list \<Rightarrow> string \<Rightarrow> string \<Rightarrow> usize list \<Rightarrow> u64 \<Rightarrow> string list \<Rightarrow> u64 \<Rightarrow> string \<Rightarrow> json" where
  "json_output results tag display_url workers jobs_per_trial queues warmup_jobs timestamp = JObj
     [(''tag'', JStr tag),
      (''timestamp'', JStr timestamp),
      (''config'', JObj
         [(''url'', JStr display_url),
          (''workers'', JArr (map ser_unsigned workers)),
          (''jobs_per_trial'', ser_unsigned jobs_per_trial),
          (''queues'', JArr (map JStr queues)),
          (''warmup_jobs'', ser_unsigned warmup_jobs)]),
      (''results'', JArr (map json_result results))]"

section \<open>Digits in groups of three\<close>

lemma format_n_loop_append: "format_n_loop i cs (a @ b) = a @ format_n_loop i cs b"
  by (induction i cs b arbitrary: a rule: format_n_loop.induct) (auto simp: Let_def)

lemma format_n_loop_acc: "format_n_loop i cs a = a @ format_n_loop i cs []"
  using format_n_loop_append [of i cs a "[]"] by simp

text \<open>A number in groups: a first group of one to three digits, then groups of three.\<close>

definition grouped :: "string \<Rightarrow> string \<Rightarrow> bool" where
  "grouped ds s \<longleftrightarrow> (\<exists>w ws. s = concat (w # map (\<lambda>g. CHR '','' # g) ws) \<and> concat (w # ws) = ds \<and>
     1 \<le> length w \<and> length w \<le> 3 \<and> (\<forall>g \<in> set ws. length g = 3))"

lemma grouped_step: "grouped ds s \<Longrightarrow> length g = 3 \<Longrightarrow> grouped (ds @ g) (s @ CHR '','' # g)"
  unfolding grouped_def
proof (elim exE conjE)
  fix w ws
  assume "s = concat (w # map (\<lambda>g. CHR '','' # g) ws)" "concat (w # ws) = ds" "1 \<le> length w"
    "length w \<le> 3" "\<forall>g \<in> set ws. length g = 3" "length g = 3"
  then show "\<exists>w ws. s @ CHR '','' # g = concat (w # map (\<lambda>g. CHR '','' # g) ws) \<and>
      concat (w # ws) = ds @ g \<and> 1 \<le> length w \<and> length w \<le> 3 \<and> (\<forall>g \<in> set ws. length g = 3)"
    by (intro exI [of _ w] exI [of _ "ws @ [g]"]) auto
qed

lemma format_n_loop_one:
  "format_n_loop i (c # cs) [] =
     (if 0 < i \<and> i mod 3 = 0 then [CHR '','', c] else [c]) @ format_n_loop (Suc i) cs []"
  unfolding format_n_loop.simps Let_def by (subst format_n_loop_acc) simp

lemma format_n_loop_three:
  assumes "i mod 3 = 0"
  shows "format_n_loop i [a] [] = (if 0 < i then '','' else []) @ [a]"
    and "format_n_loop i [a, b] [] = (if 0 < i then '','' else []) @ [a, b]"
    and "format_n_loop i (a # b # c # cs) [] =
      (if 0 < i then '','' else []) @ [a, b, c] @ format_n_loop (Suc (Suc (Suc i))) cs []"
proof -
  have "Suc i mod 3 \<noteq> 0" "Suc (Suc i) mod 3 \<noteq> 0" using assms by presburger+
  then show "format_n_loop i [a] [] = (if 0 < i then '','' else []) @ [a]"
    and "format_n_loop i [a, b] [] = (if 0 < i then '','' else []) @ [a, b]"
    and "format_n_loop i (a # b # c # cs) [] =
      (if 0 < i then '','' else []) @ [a, b, c] @ format_n_loop (Suc (Suc (Suc i))) cs []"
    using assms by (simp_all add: format_n_loop_one del: format_n_loop.simps(2))
qed

lemma format_n_loop_grouped:
  "cs \<noteq> [] \<Longrightarrow> i mod 3 = 0 \<Longrightarrow>
   \<exists>s. grouped (rev cs) s \<and> rev (format_n_loop i cs []) = s @ (if 0 < i then '','' else [])"
proof (induction "length cs" arbitrary: i cs rule: less_induct)
  case less
  have small: "grouped ds ds" if "1 \<le> length ds" "length ds \<le> 3" for ds
    using that unfolding grouped_def by (intro exI [of _ ds] exI [of _ "[]"]) simp
  note three = format_n_loop_three [OF less.prems(2)]
  consider a where "cs = [a]" | a b where "cs = [a, b]" | a b c where "cs = [a, b, c]"
    | a b c d ds where "cs = a # b # c # d # ds"
    using less.prems(1) by (metis neq_Nil_conv)
  then show ?case
  proof cases
    case (4 a b c d ds)
    have "Suc (Suc (Suc i)) mod 3 = 0" using less.prems(2) by presburger
    with less.hyps [of "d # ds" "Suc (Suc (Suc i))"] 4 obtain s where
      s: "grouped (rev (d # ds)) s" "rev (format_n_loop (Suc (Suc (Suc i))) (d # ds) []) = s @ '',''"
      by auto
    have "grouped (rev cs) (s @ CHR '','' # [c, b, a])"
      using grouped_step [OF s(1), of "[c, b, a]"] 4 by simp
    moreover have "rev (format_n_loop i cs []) = (s @ CHR '','' # [c, b, a]) @ (if 0 < i then '','' else [])"
      using s(2) by (simp add: 4 three(3) del: format_n_loop.simps)
    ultimately show ?thesis by blast
  qed (use small three(1,2) three(3) [of _ _ _ "[]"] in \<open>auto simp del: format_n_loop.simps(2)\<close>)
qed

lemma format_n_grouped: "grouped (dec (unat n)) (format_n n)"
proof -
  have "rev (dec (unat n)) \<noteq> []" by simp
  from format_n_loop_grouped [OF this, of 0] show ?thesis by (auto simp: format_n_def)
qed

lemma grouped_digits: "grouped ds s \<Longrightarrow> CHR '','' \<notin> set ds \<Longrightarrow> filter (\<lambda>c. c \<noteq> CHR '','') s = ds"
proof -
  have "filter (\<lambda>c. c \<noteq> CHR '','') (concat (map (\<lambda>g. CHR '','' # g) ws)) = concat ws"
    if "CHR '','' \<notin> set (concat ws)" for ws
    using that by (induction ws) (auto simp: filter_id_conv)
  then show "grouped ds s \<Longrightarrow> CHR '','' \<notin> set ds \<Longrightarrow> filter (\<lambda>c. c \<noteq> CHR '','') s = ds"
    by (auto simp: grouped_def filter_id_conv)
qed

section \<open>The properties of the report\<close>

text \<open>
  A count is printed with its digits, unchanged, in groups of three: between one and three
  digits, then a comma and exactly three digits as often as needed. Reading the digits back gives
  the number, so two different counts never print the same.
\<close>

lemma format_n_spec:
  "(\<exists>w ws. format_n n = concat (w # map (\<lambda>g. CHR '','' # g) ws) \<and> concat (w # ws) = dec (unat n) \<and>
      1 \<le> length w \<and> length w \<le> 3 \<and> (\<forall>g \<in> set ws. length g = 3)) \<and>
   undec (filter (\<lambda>c. c \<noteq> CHR '','') (format_n n)) = unat n"
proof -
  have "CHR '','' \<notin> set (dec (unat n))"
    using dec_digits [of "CHR '',''"] by (auto simp: is_digit_def)
  with format_n_grouped [of n] grouped_digits [OF format_n_grouped [of n]] show ?thesis
    by (simp add: grouped_def)
qed

lemma quotient_error:
  fixes us d :: nat
  assumes "0 < d" and "d \<le> us" and "us < 2 ^ 53"
  shows "\<bar>rnd (of_nat us / of_nat d) * of_nat d - of_nat us\<bar> < (1 :: rat)"
proof -
  let ?x = "of_nat us / of_nat d :: rat"
  have d: "0 < (of_nat d :: rat)" using assms(1) by simp
  have "(of_nat d :: rat) \<le> of_nat us" using assms(2) by (simp only: of_nat_le_iff)
  then have x1: "1 \<le> ?x" using d by (simp add: le_divide_eq)
  have "power_int (2::rat) (- 1022) \<le> power_int 2 0" by (rule power_int_increasing) simp_all
  also have "power_int (2::rat) 0 \<le> ?x" using x1 by (simp only: power_int_0_right)
  finally have "power_int (2::rat) (- 1022) \<le> ?x" .
  note small = this
  have pos: "0 < ?x" using x1 by linarith
  have "\<bar>rnd ?x - ?x\<bar> \<le> ?x / 2 ^ 53"
    by (rule rnd_error [OF pos ilog2_ge [OF pos small]])
  then have "\<bar>rnd ?x - ?x\<bar> * of_nat d \<le> ?x / 2 ^ 53 * of_nat d"
    using d by (intro mult_right_mono) simp_all
  also have "\<dots> = of_nat us / 2 ^ 53" using d by simp
  also have "\<dots> < 1"
  proof -
    have "(of_nat us :: rat) < of_nat (2 ^ 53)" using assms(3) by (simp only: of_nat_less_iff)
    then show ?thesis by (simp add: divide_less_eq)
  qed
  also have "\<bar>rnd ?x - ?x\<bar> * of_nat d = \<bar>(rnd ?x - ?x) * of_nat d\<bar>" using d by (simp add: abs_mult)
  also have "(rnd ?x - ?x) * of_nat d = rnd ?x * of_nat d - of_nat us"
    using d by (simp add: left_diff_distrib)
  finally show ?thesis .
qed

text \<open>A duration divided by \<open>m * 10 ^ p\<close> and printed with \<open>p\<close> decimals is right to half a unit.\<close>

lemma printed_error:
  fixes us m p :: nat
  assumes "0 < m" and "even m" and "m * 10 ^ p \<le> us" and "us < 2 ^ 53"
  shows "\<exists>k. f64_fmt p (f64_div (f64_of_nat us) (Fin (of_nat (m * 10 ^ p)))) = fixed p k \<and>
    \<bar>int k * int m - int us\<bar> \<le> int m div 2"
proof -
  let ?d = "m * 10 ^ p"
  let ?q = "rnd (of_nat us / of_nat ?d)"
  have d: "0 < ?d" using assms(1) by simp
  have "(1 :: rat) \<le> of_nat ?d" using d by (simp only: one_of_nat_le_iff)
  then have "(of_nat us / of_nat ?d :: rat) \<le> of_nat us / 1"
    by (intro divide_left_mono) simp_all
  then have "(of_nat us / of_nat ?d :: rat) \<le> of_nat us" by (simp only: div_by_1)
  also have "(of_nat us :: rat) \<le> of_nat (2 ^ 53)" using assms(4) by (simp only: of_nat_le_iff)
  also have "\<dots> \<le> 2 ^ 99" by simp
  finally have "fl (of_nat us / of_nat ?d) = Fin ?q" by (intro fl_small) simp_all
  then have q: "f64_div (f64_of_nat us) (Fin (of_nat ?d)) = Fin ?q"
    using d f64_of_nat_small [OF assms(4)] by simp
  define k where "k = nat (rhe (?q * 10 ^ p))"
  have pos: "0 \<le> ?q" by (rule rnd_nonneg)
  then have "0 \<le> rhe (?q * 10 ^ p)" using rhe_ge [of 0 "?q * 10 ^ p"] by simp
  then have k: "(of_nat k :: rat) = of_int (rhe (?q * 10 ^ p))" by (simp add: k_def)
  have "\<bar>of_nat k - ?q * 10 ^ p\<bar> \<le> 1 / 2"
    unfolding k using rhe_bounds [of "?q * 10 ^ p"] by linarith
  then have "\<bar>of_nat k - ?q * 10 ^ p\<bar> * of_nat m \<le> 1 / 2 * of_nat m" by (rule mult_right_mono) simp
  also have "\<bar>of_nat k - ?q * 10 ^ p\<bar> * of_nat m = \<bar>(of_nat k - ?q * 10 ^ p) * of_nat m\<bar>"
    by (simp add: abs_mult)
  also have "(of_nat k - ?q * 10 ^ p) * of_nat m = of_nat k * of_nat m - ?q * of_nat ?d"
    by (simp add: left_diff_distrib)
  finally have "\<bar>of_nat k * of_nat m - of_nat us\<bar> < of_nat m / 2 + (1 :: rat)"
    using quotient_error [OF d assms(3,4)] by linarith
  moreover obtain h where h: "m = 2 * h" using assms(2) by blast
  ultimately have "\<bar>of_nat k * of_nat m - of_nat us\<bar> < of_nat h + (1 :: rat)" by simp
  then have "of_int \<bar>int k * int m - int us\<bar> < (of_int (int h + 1) :: rat)" by simp
  then have "\<bar>int k * int m - int us\<bar> < int h + 1" by (simp only: of_int_less_iff)
  then have "\<bar>int k * int m - int us\<bar> \<le> int m div 2" by (simp add: h)
  moreover have "f64_fmt p (f64_div (f64_of_nat us) (Fin (of_nat ?d))) = fixed p k"
    unfolding q using pos by (simp add: k_def)
  ultimately show ?thesis by blast
qed

text \<open>
  A duration is printed right to half a unit of its last digit. Below a millisecond it is
  printed exactly, in microseconds; below a second as \<open>k\<close> tenths of a millisecond that differ from
  it by at most 50 microseconds; above (up to \<open>2 ^ 53\<close> microseconds) as \<open>k\<close> hundredths of a
  second that differ from it by at most 5000 microseconds, in spite of the two roundings of the
  floating-point division.
\<close>

lemma fmt_us_accuracy:
  assumes "unat us < 2 ^ 53"
  shows "if unat us < 1000 then fmt_us us = dec (unat us) @ [CHR '' '', CHR 0xC2, CHR 0xB5, CHR ''s'']
    else if unat us < 1000000
    then \<exists>k. fmt_us us = fixed 1 k @ '' ms'' \<and> \<bar>100 * int k - int (unat us)\<bar> \<le> 50
    else \<exists>k. fmt_us us = fixed 2 k @ '' s'' \<and> \<bar>10000 * int k - int (unat us)\<bar> \<le> 5000"
proof -
  consider "unat us < 1000" | "1000 \<le> unat us" "unat us < 1000000" | "1000000 \<le> unat us"
    by linarith
  then show ?thesis
  proof cases
    case 2
    from printed_error [of 100 1 "unat us"] 2(1) assms obtain k where
      "f64_fmt 1 (f64_div (f64_of_nat (unat us)) (Fin 1000)) = fixed 1 k"
      "\<bar>int k * 100 - int (unat us)\<bar> \<le> 50" by auto
    moreover from 2 have "\<not> us < 1000" "us < 1000000"
      by (simp_all add: word_less_nat_alt not_less)
    ultimately show ?thesis using 2
      by (simp add: fmt_us_def) (metis mult.commute)
  next
    case 3
    from printed_error [of 10000 2 "unat us"] 3 assms obtain k where
      "f64_fmt 2 (f64_div (f64_of_nat (unat us)) (Fin 1000000)) = fixed 2 k"
      "\<bar>int k * 10000 - int (unat us)\<bar> \<le> 5000" by auto
    moreover from 3 have "\<not> us < 1000" "\<not> us < 1000000"
      by (simp_all add: word_less_nat_alt not_less)
    ultimately show ?thesis using 3
      by (simp add: fmt_us_def) (metis mult.commute)
  qed (simp add: fmt_us_def word_less_nat_alt)
qed

text \<open>
  A rate that is not a number, infinite or negative is printed as \<open>n/a\<close>; every other rate is
  printed as its integral part (up to \<open>2 ^ 64 - 1\<close>, where it stays), in groups of three digits.
\<close>

lemma format_jobs_per_sec_spec:
  "format_jobs_per_sec jps =
    (case jps of
       Fin a \<Rightarrow> if a < 0 then ''n/a''
                else format_n (of_nat (min (nat \<lfloor>a\<rfloor>) (2 ^ 64 - 1)))
     | _ \<Rightarrow> ''n/a'')"
proof (cases jps)
  case (Fin a)
  have "f64_to_u64 (Fin a) = of_nat (min (nat \<lfloor>a\<rfloor>) (2 ^ 64 - 1))" if a: "0 \<le> a"
  proof (cases "2 ^ 64 \<le> a")
    case True
    then have "2 ^ 64 \<le> \<lfloor>a\<rfloor>" by (simp add: le_floor_iff)
    then have "min (nat \<lfloor>a\<rfloor>) (2 ^ 64 - 1) = 2 ^ 64 - 1" by (simp add: min_def nat_le_iff)
    moreover have "(of_nat (2 ^ 64 - 1) :: u64) = - 1" by simp
    moreover have "\<not> a < 1" using True by (simp add: not_less)
    ultimately show ?thesis using True by (simp del: of_nat_diff)
  next
    case False
    then have "\<lfloor>a\<rfloor> < 2 ^ 64" by (simp add: floor_less_iff)
    then have m: "min (nat \<lfloor>a\<rfloor>) (2 ^ 64 - 1) = nat \<lfloor>a\<rfloor>" by (simp add: min_def nat_le_iff)
    have "a < 1 \<Longrightarrow> \<lfloor>a\<rfloor> = 0" using a by (simp add: floor_eq_iff)
    with False m a show ?thesis by (auto simp: of_nat_nat)
  qed
  then show ?thesis by (simp add: format_jobs_per_sec_def Fin del: f64_to_u64.simps)
qed (simp_all add: format_jobs_per_sec_def)

lemma rounding_finite:
  assumes "0 \<le> a" and "a \<le> 2 ^ 80" and "1 \<le> m" and "m \<le> 1000"
  shows "\<exists>b. f64_div (f64_round (f64_mul (Fin a) (Fin m))) (Fin m) = Fin b \<and> 0 \<le> b"
proof -
  have am: "0 \<le> a * m" using assms by simp
  have "a * m \<le> 2 ^ 80 * 1000" using assms by (intro mult_mono) simp_all
  also have "(2::rat) ^ 80 * 1000 \<le> 2 ^ 90" by simp
  finally have b90: "a * m \<le> 2 ^ 90" .
  then have fl1: "f64_mul (Fin a) (Fin m) = Fin (rnd (a * m))"
    using fl_small [OF am] by simp
  have r0: "0 \<le> rnd (a * m)" by (rule rnd_nonneg)
  have "rnd (a * m) \<le> rnd (2 ^ 90)" using b90 by (rule rnd_mono)
  also have "\<dots> \<le> 2 ^ 91"
  proof -
    have "power_int (2::rat) (- 1022) \<le> power_int 2 0" by (rule power_int_increasing) simp_all
    also have "power_int (2::rat) 0 \<le> 2 ^ 90" by simp
    finally have "- 1022 \<le> ilog2 ((2::rat) ^ 90)" by (rule ilog2_ge [rotated]) simp
    then have "\<bar>rnd (2 ^ 90) - 2 ^ 90\<bar> \<le> (2::rat) ^ 90 / 2 ^ 53" by (intro rnd_error) simp_all
    then show ?thesis by simp
  qed
  finally have "rnd (a * m) + 1 / 2 \<le> 2 ^ 92" by simp
  then have i: "0 \<le> \<lfloor>rnd (a * m) + 1 / 2\<rfloor>" "of_int \<lfloor>rnd (a * m) + 1 / 2\<rfloor> \<le> (2 ^ 92 :: rat)"
    using r0 of_int_floor_le [of "rnd (a * m) + 1 / 2"] by (simp_all add: zero_le_floor)
  let ?i = "of_int \<lfloor>rnd (a * m) + 1 / 2\<rfloor> :: rat"
  have q0: "0 \<le> ?i / m" using i(1) assms(3) by simp
  have "?i / m \<le> ?i / 1" using i(1) assms(3) by (intro divide_left_mono) simp_all
  also have "?i / 1 \<le> 2 ^ 92" using i(2) by (simp only: div_by_1)
  also have "(2::rat) ^ 92 \<le> 2 ^ 99" by simp
  finally have "?i / m \<le> 2 ^ 99" .
  from fl_small [OF q0 this] have "f64_div (Fin ?i) (Fin m) = Fin (rnd (?i / m))"
    using assms(3) by simp
  with fl1 r0 rnd_nonneg show ?thesis by simp
qed

text \<open>
  The rate and the duration of a trial are numbers in the JSON report. Rounding to one decimal
  (three for the duration) turns every rate the report can contain, not a number or infinite
  included, into a finite double, so the field is never written as \<open>null\<close>.
\<close>

lemma report_numbers:
  assumes "\<And>a. jps = Fin a \<Longrightarrow> 0 \<le> a \<and> a \<le> 2 ^ 80" and "0 \<le> d" and "d \<le> 2 ^ 80"
  shows "(\<exists>b. ser_f64 (round_rate jps) = JNum (JFloat (Fin b)) \<and> 0 \<le> b) \<and>
    (\<exists>b. ser_f64 (round_duration (Fin d)) = JNum (JFloat (Fin b)) \<and> 0 \<le> b)"
proof
  show "\<exists>b. ser_f64 (round_rate jps) = JNum (JFloat (Fin b)) \<and> 0 \<le> b"
  proof (cases jps)
    case (Fin a)
    with assms(1) rounding_finite [of a 10] show ?thesis
      by (auto simp: round_rate_def ser_f64_def)
  qed (simp_all add: round_rate_def ser_f64_def)
  show "\<exists>b. ser_f64 (round_duration (Fin d)) = JNum (JFloat (Fin b)) \<and> 0 \<le> b"
    using rounding_finite [OF assms(2,3), of 1000] by (auto simp: round_duration_def ser_f64_def)
qed

end
