(* ===== verification/Redis.thy ===== *)
theory Redis
  imports Bench_Prelude F64
begin

text \<open>
  The broker as the program sees it. Redis and the client crate are not part of the repository:
  a server is a parameter (the record \<open>server\<close>), over an arbitrary type of server states that may
  hide failures, timeouts and other databases. \<open>server_ok\<close> states what the program relies on, the
  documented effect of the commands it sends on the lists the server stores: \<open>LPUSH\<close> puts an
  element at the left end of a list, \<open>BRPOP\<close> takes one from the right end of the first of its keys
  that has one, \<open>DEL\<close> and \<open>FLUSHDB\<close> empty lists. \<open>mem_server\<close> is a server without failures that
  satisfies it.
\<close>

section \<open>Commands, replies and errors\<close>

datatype redis_cmd = DEL string | FLUSHDB | LPUSH string string

record redis_error =
  is_connection_dropped :: bool
  is_io_error :: bool
  error_text :: string

definition fatal_error :: "redis_error \<Rightarrow> bool" where
  "fatal_error e \<longleftrightarrow> is_connection_dropped e \<or> is_io_error e"

text \<open>The list stored under each key, left end first; a missing key holds no list.\<close>

type_synonym keyspace = "string \<Rightarrow> string list"

text \<open>
  \<open>sv_pipe\<close> runs a pipeline of commands whose replies are ignored (\<open>Pipeline::query_async\<close>),
  \<open>sv_brpop\<close> one \<open>BRPOP\<close> with its keys and timeout; \<open>sv_lists\<close> is the keyspace of a state.
\<close>

record 's server =
  sv_pipe :: "redis_cmd list \<Rightarrow> 's \<Rightarrow> (redis_error + unit) \<times> 's"
  sv_brpop :: "string list \<Rightarrow> f64 \<Rightarrow> 's \<Rightarrow> (redis_error + (string \<times> string) option) \<times> 's"
  sv_lists :: "'s \<Rightarrow> keyspace"

section \<open>What the commands do to the keyspace\<close>

fun cmd_effect :: "redis_cmd \<Rightarrow> keyspace \<Rightarrow> keyspace" where
  "cmd_effect (DEL k) m = m(k := [])"
| "cmd_effect FLUSHDB m = (\<lambda>_. [])"
| "cmd_effect (LPUSH k v) m = m(k := v # m k)"

fun brpop_effect :: "string list \<Rightarrow> keyspace \<Rightarrow> ((string \<times> string) \<times> keyspace) option" where
  "brpop_effect [] m = None"
| "brpop_effect (k # ks) m =
     (if m k = [] then brpop_effect ks m else Some ((k, last (m k)), m(k := butlast (m k))))"

text \<open>
  A pipeline that reports success has run its commands in order; one that fails may have run any
  of them. A \<open>BRPOP\<close> that reports an element has taken it, one that reports a timeout or an error
  reply has taken nothing, and one whose connection failed may have taken an element nobody saw.
\<close>

definition pipe_law :: "'s server \<Rightarrow> bool" where
  "pipe_law sv \<longleftrightarrow> (\<forall>cs s s'. sv_pipe sv cs s = (Inr (), s') \<longrightarrow>
     sv_lists sv s' = fold cmd_effect cs (sv_lists sv s))"

definition brpop_law :: "'s server \<Rightarrow> bool" where
  "brpop_law sv \<longleftrightarrow> (\<forall>ks t s r s'. sv_brpop sv ks t s = (r, s') \<longrightarrow>
     (case r of
        Inr (Some kv) \<Rightarrow> brpop_effect ks (sv_lists sv s) = Some (kv, sv_lists sv s')
      | Inr None \<Rightarrow> sv_lists sv s' = sv_lists sv s
      | Inl e \<Rightarrow> sv_lists sv s' = sv_lists sv s \<or>
          fatal_error e \<and> (\<exists>kv. brpop_effect ks (sv_lists sv s) = Some (kv, sv_lists sv s'))))"

definition server_ok :: "'s server \<Rightarrow> bool" where
  "server_ok sv \<longleftrightarrow> pipe_law sv \<and> brpop_law sv"

lemma server_ok_pipe:
  "server_ok sv \<Longrightarrow> sv_pipe sv cs s = (Inr (), s') \<Longrightarrow>
   sv_lists sv s' = fold cmd_effect cs (sv_lists sv s)"
  unfolding server_ok_def pipe_law_def by blast

lemma server_ok_brpop:
  assumes "server_ok sv" and "sv_brpop sv ks t s = (r, s')"
  shows "r = Inr (Some kv) \<Longrightarrow> brpop_effect ks (sv_lists sv s) = Some (kv, sv_lists sv s')"
    and "r = Inr None \<Longrightarrow> sv_lists sv s' = sv_lists sv s"
    and "r = Inl e \<Longrightarrow> \<not> fatal_error e \<Longrightarrow> sv_lists sv s' = sv_lists sv s"
    and "r = Inl e \<Longrightarrow> sv_lists sv s' = sv_lists sv s \<or>
           (\<exists>kv. brpop_effect ks (sv_lists sv s) = Some (kv, sv_lists sv s'))"
proof -
  have "case r of
        Inr (Some kv) \<Rightarrow> brpop_effect ks (sv_lists sv s) = Some (kv, sv_lists sv s')
      | Inr None \<Rightarrow> sv_lists sv s' = sv_lists sv s
      | Inl e \<Rightarrow> sv_lists sv s' = sv_lists sv s \<or>
          fatal_error e \<and> (\<exists>kv. brpop_effect ks (sv_lists sv s) = Some (kv, sv_lists sv s'))"
    using assms unfolding server_ok_def brpop_law_def by blast
  then show "r = Inr (Some kv) \<Longrightarrow> brpop_effect ks (sv_lists sv s) = Some (kv, sv_lists sv s')"
    and "r = Inr None \<Longrightarrow> sv_lists sv s' = sv_lists sv s"
    and "r = Inl e \<Longrightarrow> \<not> fatal_error e \<Longrightarrow> sv_lists sv s' = sv_lists sv s"
    and "r = Inl e \<Longrightarrow> sv_lists sv s' = sv_lists sv s \<or>
           (\<exists>kv. brpop_effect ks (sv_lists sv s) = Some (kv, sv_lists sv s'))"
    by auto
qed

section \<open>Counting what is stored\<close>

definition stored :: "string list \<Rightarrow> keyspace \<Rightarrow> nat" where
  "stored ks m = sum_list (map (\<lambda>k. length (m k)) ks)"

definition stored_set :: "string list \<Rightarrow> keyspace \<Rightarrow> string set" where
  "stored_set ks m = (\<Union>k \<in> set ks. set (m k))"

lemma stored_Nil [simp]: "stored [] m = 0"
  by (simp add: stored_def)

lemma stored_Cons [simp]: "stored (k # ks) m = length (m k) + stored ks m"
  by (simp add: stored_def)

lemma stored_cong: "(\<And>k. k \<in> set ks \<Longrightarrow> m k = m' k) \<Longrightarrow> stored ks m = stored ks m'"
  by (induction ks) auto

lemma stored_update:
  "distinct ks \<Longrightarrow> k \<in> set ks \<Longrightarrow> stored ks (m(k := xs)) + length (m k) = stored ks m + length xs"
proof (induction ks)
  case (Cons l ks)
  show ?case
  proof (cases "k = l")
    case True
    with Cons.prems have "stored ks (m(k := xs)) = stored ks m"
      by (intro stored_cong) auto
    with True show ?thesis by (simp add: fun_upd_def)
  next
    case False
    with Cons show ?thesis by simp
  qed
qed simp

lemma brpop_effect_Some:
  "brpop_effect ks m = Some ((k, v), m') \<Longrightarrow>
   k \<in> set ks \<and> m k \<noteq> [] \<and> v = last (m k) \<and> m' = m(k := butlast (m k))"
  by (induction ks m rule: brpop_effect.induct) (auto split: if_splits)

lemma brpop_effect_None_iff: "brpop_effect ks m = None \<longleftrightarrow> stored ks m = 0"
  by (induction ks m rule: brpop_effect.induct) auto

lemma brpop_effect_stored:
  assumes "distinct ks" and "brpop_effect ks m = Some ((k, v), m')"
  shows "stored ks m = Suc (stored ks m')"
proof -
  from brpop_effect_Some [OF assms(2)]
  have k: "k \<in> set ks" "m k \<noteq> []" "m' = m(k := butlast (m k))" by auto
  with stored_update [OF assms(1) k(1), of m "butlast (m k)"] show ?thesis
    by (cases "m k") auto
qed

lemma brpop_effect_set:
  assumes "brpop_effect ks m = Some ((k, v), m')"
  shows "v \<in> stored_set ks m" and "stored_set ks m' \<subseteq> stored_set ks m"
proof -
  from brpop_effect_Some [OF assms]
  have k: "k \<in> set ks" "m k \<noteq> []" "v = last (m k)" "m' = m(k := butlast (m k))" by auto
  then show "v \<in> stored_set ks m" by (auto simp: stored_set_def intro!: bexI [of _ k])
  have "set (m' l) \<subseteq> set (m l)" for l
    using k(4) by (auto dest: in_set_butlastD)
  then show "stored_set ks m' \<subseteq> stored_set ks m"
    unfolding stored_set_def by blast
qed

section \<open>A server without failures\<close>

definition mem_server :: "keyspace server" where
  "mem_server =
     \<lparr>sv_pipe = (\<lambda>cs m. (Inr (), fold cmd_effect cs m)),
      sv_brpop = (\<lambda>ks t m. case brpop_effect ks m of
                     None \<Rightarrow> (Inr None, m) | Some (kv, m') \<Rightarrow> (Inr (Some kv), m')),
      sv_lists = (\<lambda>m. m)\<rparr>"

lemma mem_server_ok: "server_ok mem_server"
  by (auto simp: server_ok_def pipe_law_def brpop_law_def mem_server_def
      split: option.splits sum.splits)

end
