(* ===== verification/Console.thy ===== *)
theory Console
  imports Bench_Prelude
begin

text \<open>
  What the program prints: \<open>print!\<close>, \<open>println!\<close> and \<open>eprintln!\<close> of every module append to one list
  of events, which keeps the order of the texts on each of the two streams.
\<close>

datatype event = Stdout string | Stderr string

definition newline :: string where
  "newline = [CHR 0x0A]"

definition println :: "string \<Rightarrow> event" where
  "println s = Stdout (s @ newline)"

definition eprintln :: "string \<Rightarrow> event" where
  "eprintln s = Stderr (s @ newline)"

fun on_stdout :: "event \<Rightarrow> string" where
  "on_stdout (Stdout s) = s"
| "on_stdout (Stderr s) = []"

fun on_stderr :: "event \<Rightarrow> string" where
  "on_stderr (Stdout s) = []"
| "on_stderr (Stderr s) = s"

text \<open>The characters outside ASCII that the texts use: an em dash, an ellipsis, an arrow.\<close>

abbreviation em_dash :: string where
  "em_dash \<equiv> [CHR 0xE2, CHR 0x80, CHR 0x94]"

abbreviation ellipsis :: string where
  "ellipsis \<equiv> [CHR 0xE2, CHR 0x80, CHR 0xA6]"

abbreviation right_arrow :: string where
  "right_arrow \<equiv> [CHR 0xE2, CHR 0x86, CHR 0x92]"

lemma event_stream_simps [simp]:
  "on_stdout (println s) = s @ newline" "on_stderr (println s) = []"
  "on_stdout (eprintln s) = []" "on_stderr (eprintln s) = s @ newline"
  by (simp_all add: println_def eprintln_def)

end
