(* ===== verification/Startup.thy ===== *)
theory Startup
  imports Cli Envelope Report Redis Console
begin

text \<open>
  What \<open>main\<close> of \<open>src/src/main.rs\<close> does before the first trial: the checks it makes before it
  touches the network (\<open>startup\<close>), the tag it reads from the server (\<open>fetch_tag\<close>), what it prints
  about the run, and its estimate of the memory the queued jobs take.
\<close>

section \<open>Text of the server\<close>

text \<open>\<open>str::lines\<close>: lines end in a newline or in a carriage return and a newline.\<close>

definition strip_cr :: "string \<Rightarrow> string" where
  "strip_cr s = (if s \<noteq> [] \<and> last s = CHR 0x0D then butlast s else s)"

definition str_lines :: "string \<Rightarrow> string list" where
  "str_lines s =
     (let ls = split_at (CHR 0x0A) s
      in map strip_cr (butlast ls) @ (if last ls = [] then [] else [last ls]))"

text \<open>\<open>str::trim\<close>: the characters with the Unicode property \<open>White_Space\<close>, in UTF-8.\<close>

definition white_space :: "string list" where
  "white_space =
     [[CHR 0x09], [CHR 0x0A], [CHR 0x0B], [CHR 0x0C], [CHR 0x0D], [CHR 0x20],
      [CHR 0xC2, CHR 0x85], [CHR 0xC2, CHR 0xA0], [CHR 0xE1, CHR 0x9A, CHR 0x80]]
     @ map (\<lambda>n. [CHR 0xE2, CHR 0x80, char_of n]) ([0x80..<0x8B] @ [0xA8, 0xA9, 0xAF::nat])
     @ [[CHR 0xE2, CHR 0x81, CHR 0x9F], [CHR 0xE3, CHR 0x80, CHR 0x80]]"

definition trim_start :: "string list \<Rightarrow> string list" where
  "trim_start cs = dropWhile (\<lambda>c. c \<in> set white_space) cs"

definition trim_str :: "string \<Rightarrow> string" where
  "trim_str s = concat (rev (trim_start (rev (trim_start (utf8_chars s)))))"

section \<open>The tag\<close>

text \<open>What comes of asking the server for \<open>INFO server\<close>.\<close>

datatype info_reply =
  NoClient redis_error | NoConnection redis_error | InfoFailed redis_error | Info string

definition tag_of_info :: "string \<Rightarrow> string" where
  "tag_of_info info =
     (case find (is_prefix ''redis_version:'') (str_lines info) of
        Some line \<Rightarrow> ''redis-'' @ trim_str (drop (length ''redis_version:'') line)
      | None \<Rightarrow> ''unknown'')"

fun fetch_tag :: "info_reply \<Rightarrow> string" where
  "fetch_tag (Info info) = tag_of_info info"
| "fetch_tag reply = ''unknown''"

fun fetch_warnings :: "info_reply \<Rightarrow> event list" where
  "fetch_warnings (NoClient e) =
     [eprintln (''warning: could not build Redis client for tag lookup: '' @ error_text e)]"
| "fetch_warnings (NoConnection e) =
     [eprintln (''warning: could not connect to Redis for tag lookup: '' @ error_text e)]"
| "fetch_warnings (InfoFailed e) =
     [eprintln (''warning: could not fetch Redis INFO for tag: '' @ error_text e)]"
| "fetch_warnings (Info info) = []"

text \<open>The server is asked only when no \<open>--tag\<close> is given.\<close>

definition tag_warnings :: "cli \<Rightarrow> info_reply \<Rightarrow> event list" where
  "tag_warnings cli reply = (case tag cli of Some t \<Rightarrow> [] | None \<Rightarrow> fetch_warnings reply)"

definition effective_tag :: "cli \<Rightarrow> info_reply \<Rightarrow> string" where
  "effective_tag cli reply =
     (case tag cli of Some t \<Rightarrow> sanitize_tag t | None \<Rightarrow> sanitize_tag (fetch_tag reply))"

definition output_file :: "cli \<Rightarrow> string \<Rightarrow> string" where
  "output_file cli t =
     (case output_path cli of Some p \<Rightarrow> p | None \<Rightarrow> ''celery_bench_'' @ t @ ''.json'')"

section \<open>The warning about database 0\<close>

definition db_in_url :: "'u url_ops \<Rightarrow> string \<Rightarrow> u8" where
  "db_in_url U s =
     (case Option.bind (u_parse U s) (\<lambda>u. parse_u8 (trim_slashes (u_path U u))) of
        Some n \<Rightarrow> n | None \<Rightarrow> 0)"

definition warns_flush :: "'u url_ops \<Rightarrow> cli \<Rightarrow> string \<Rightarrow> bool" where
  "warns_flush U cli s \<longleftrightarrow> allow_flushdb cli \<and> db_in_url U s = 0"

section \<open>The checks before the network\<close>

datatype startup_error = BadCli cli_error | BadUrl url_error | BadOption option_error

definition startup_url :: "'u url_ops \<Rightarrow> cli \<Rightarrow> (startup_error, string) outcome" where
  "startup_url U cli =
     bind_outcome (map_error BadCli (validate_cli U cli)) (\<lambda>_.
     map_error BadUrl (build_redis_url U cli))"

text \<open>The warnings printed as soon as the URL is known, before the other checks.\<close>

definition cert_warning_text :: string where
  "cert_warning_text =
     ''warning: TLS certificate verification is DISABLED for this connection (insecure mode) ''
     @ em_dash @ '' the server's certificate chain and hostname are not validated. ''
     @ ''Only use this against trusted networks.''"

definition flush_warning_text :: string where
  "flush_warning_text =
     ''warning: --allow-flushdb is set on db 0 '' @ em_dash
     @ '' this will destroy ALL keys in the database. Use --db 13 (or any non-zero db) ''
     @ ''to isolate benchmark data.''"

definition url_warnings :: "'u url_ops \<Rightarrow> cli \<Rightarrow> string \<Rightarrow> event list" where
  "url_warnings U cli s =
     (if url_disables_cert_verification U s then [eprintln cert_warning_text] else [])
     @ (if warns_flush U cli s then [eprintln flush_warning_text] else [])"

definition startup_warnings :: "'u url_ops \<Rightarrow> cli \<Rightarrow> event list" where
  "startup_warnings U cli =
     (case startup_url U cli of Ok s \<Rightarrow> url_warnings U cli s | _ \<Rightarrow> [])"

definition startup_options :: "bool \<Rightarrow> cli \<Rightarrow> (startup_error, percentile_spec list) outcome" where
  "startup_options checks cli =
     bind_outcome (case output_path cli of
                     Some out \<Rightarrow> map_error BadOption (validate_output_path out)
                   | None \<Rightarrow> Ok ()) (\<lambda>_.
     collect_outcome (\<lambda>p. map_error BadOption (parse_percentile_spec checks p))
       (latency_percentiles cli))"

record started =
  conn_url :: string
  shown_url :: string
  st_specs :: "percentile_spec list"

definition startup :: "'u url_ops \<Rightarrow> bool \<Rightarrow> cli \<Rightarrow> (startup_error, started) outcome" where
  "startup U checks cli =
     bind_outcome (startup_url U cli) (\<lambda>s.
     bind_outcome (startup_options checks cli) (\<lambda>ps.
     Ok \<lparr>conn_url = s, shown_url = redact_url U s, st_specs = ps\<rparr>))"

section \<open>What is printed about the run\<close>

text \<open>The label of the queues; the indexing of the source would panic without a queue.\<close>

definition queues_label :: "string list \<Rightarrow> ('e, string) outcome" where
  "queues_label names =
     (case names of
        [] \<Rightarrow> Panicked ''index out of bounds''
      | [q] \<Rightarrow> Ok q
      | q # qs \<Rightarrow> Ok (dec (length names) @ '' queues ('' @ q @ ellipsis @ last qs @ '')''))"

text \<open>\<open>{:?}\<close> of a vector of integers.\<close>

fun comma_list :: "string list \<Rightarrow> string" where
  "comma_list [] = []"
| "comma_list [s] = s"
| "comma_list (s # ss) = s @ '', '' @ comma_list ss"

definition debug_u8s :: "u8 list \<Rightarrow> string" where
  "debug_u8s ps = ''['' @ comma_list (map (\<lambda>p. dec (unat p)) ps) @ '']''"

definition title_line :: "string \<Rightarrow> string" where
  "title_line t = ''=== celery-bench '' @ em_dash @ '' '' @ t @ '' ===''"

definition config_line :: "cli \<Rightarrow> string \<Rightarrow> string \<Rightarrow> string" where
  "config_line cli display_url label =
     ''    '' @ display_url @ ''  jobs='' @ format_n (jobs cli) @ ''  queues='' @ label
     @ ''  priorities='' @ debug_u8s (priorities cli)"

definition banner :: "cli \<Rightarrow> string \<Rightarrow> string \<Rightarrow> string \<Rightarrow> event list" where
  "banner cli t display_url label =
     [println (newline @ title_line t), println (config_line cli display_url label), println []]"

section \<open>The memory estimate\<close>

text \<open>The length of one real message, and the estimate in mebibytes from it.\<close>

definition sample_len :: "text_codec \<Rightarrow> stamp \<Rightarrow> cli \<Rightarrow> ('e, nat) outcome" where
  "sample_len c st cli =
     bind_outcome (envelope_new c st (queue cli) 0 0) (\<lambda>e. Ok (length (env_to_string c e)))"

definition estimated_mb :: "u64 \<Rightarrow> nat \<Rightarrow> f64" where
  "estimated_mb n len =
     f64_div (f64_mul (f64_of_nat (unat n)) (f64_of_nat len)) (f64_mul (Fin 1024) (Fin 1024))"

definition memory_warning :: "cli \<Rightarrow> nat \<Rightarrow> string option" where
  "memory_warning cli len =
     (let mb = estimated_mb (jobs cli) len
      in if f64_less (Fin 100) mb
         then Some (''warning: estimated peak Redis memory ~'' @ f64_fmt 0 mb @ '' MB (''
                @ format_n (jobs cli) @ '' jobs '' @ [CHR 0xC3, CHR 0x97] @ '' ~'' @ dec len @ '' B/job)'')
         else None)"

end
