(* ===== verification/Ref_Codec.thy ===== *)
theory Ref_Codec
  imports Json
begin

text \<open>
  A concrete text codec that satisfies \<open>codec_ok\<close>: base64 as in RFC 4648 and compact JSON as in
  RFC 8259, both executable. It shows that the hypothesis the other theories put on the
  codec can hold, and the witnesses run on it. It models no code of the repository.
\<close>

section \<open>Base64\<close>

definition b64_alphabet :: string where
  "b64_alphabet =
     ''ABCDEFGHIJKLMNOPQRSTUVWXYZabcdefghijklmnopqrstuvwxyz0123456789+/''"

definition b64_char :: "nat \<Rightarrow> char" where
  "b64_char n = b64_alphabet ! n"

definition b64_val :: "char \<Rightarrow> nat option" where
  "b64_val c = map_of (zip b64_alphabet [0..<64]) c"

fun b64_enc :: "nat list \<Rightarrow> string" where
  "b64_enc [] = []"
| "b64_enc [a] = [b64_char (a div 4), b64_char (a mod 4 * 16), CHR ''='', CHR ''='']"
| "b64_enc [a, b] =
     [b64_char (a div 4), b64_char (a mod 4 * 16 + b div 16), b64_char (b mod 16 * 4), CHR ''='']"
| "b64_enc (a # b # c # s) =
     b64_char (a div 4) # b64_char (a mod 4 * 16 + b div 16) # b64_char (b mod 16 * 4 + c div 64)
       # b64_char (c mod 64) # b64_enc s"

fun b64_dec :: "string \<Rightarrow> nat list option" where
  "b64_dec [] = Some []"
| "b64_dec (p # q # r # t # s) = do {
     x \<leftarrow> b64_val p;
     y \<leftarrow> b64_val q;
     if t = CHR ''='' then
       (if s = [] then
          (if r = CHR ''='' then (if y mod 16 = 0 then Some [x * 4 + y div 16] else None)
           else do { z \<leftarrow> b64_val r;
                     if z mod 4 = 0 then Some [x * 4 + y div 16, y mod 16 * 16 + z div 4] else None })
        else None)
     else do {
       z \<leftarrow> b64_val r;
       w \<leftarrow> b64_val t;
       bs \<leftarrow> b64_dec s;
       Some ((x * 4 + y div 16) # (y mod 16 * 16 + z div 4) # (z mod 4 * 64 + w) # bs) } }"
| "b64_dec s = None"

lemma b64_tables:
  "\<forall>n \<in> set [0..<64]. b64_val (b64_char n) = Some n \<and> b64_char n \<noteq> CHR ''='' \<and>
     in_range 0 127 (b64_char n)"
  by code_simp

lemma b64_val_char [simp]: "n < 64 \<Longrightarrow> b64_val (b64_char n) = Some n"
  and b64_char_not_pad [simp]: "n < 64 \<Longrightarrow> b64_char n \<noteq> CHR ''=''"
  and b64_char_ascii [simp]: "n < 64 \<Longrightarrow> in_range 0 127 (b64_char n)"
  using b64_tables by auto

lemma small_div [simp]:
  "(a::nat) < 256 \<Longrightarrow> a div 4 < 64" "(a::nat) < 256 \<Longrightarrow> a div 16 < 16" "(a::nat) < 256 \<Longrightarrow> a div 64 < 4"
  by auto

lemma small_mod: "(a::nat) mod 4 < 4" "(a::nat) mod 16 < 16"
  by simp_all

lemma b64_indices [simp]:
  "(a::nat) mod 4 * 16 < 64" "(b::nat) < 256 \<Longrightarrow> a mod 4 * 16 + b div 16 < 64"
  "(b::nat) mod 16 * 4 < 64" "(c::nat) < 256 \<Longrightarrow> b mod 16 * 4 + c div 64 < 64"
  using small_mod(1) [of a] small_mod(2) [of b] small_div(2) [of b] small_div(3) [of c] by linarith+

lemma b64_round_trip: "\<forall>b \<in> set bs. b < 256 \<Longrightarrow> b64_dec (b64_enc bs) = Some bs"
  by (induction bs rule: b64_enc.induct) simp_all

lemma b64_enc_ascii: "\<forall>b \<in> set bs. b < 256 \<Longrightarrow> ascii (b64_enc bs)"
  by (induction bs rule: b64_enc.induct) (simp_all add: in_range_def [of _ _ "CHR ''=''"])

section \<open>JSON\<close>

definition hex_char :: "nat \<Rightarrow> char" where
  "hex_char n = ''0123456789abcdef'' ! n"

definition hex_val :: "char \<Rightarrow> nat option" where
  "hex_val c = map_of (zip ''0123456789abcdef'' [0..<16]) c"

definition json_escapes :: "(char \<times> char) list" where
  "json_escapes =
     [(CHR 0x22, CHR 0x22), (CHR 0x5C, CHR 0x5C), (CHR 0x08, CHR ''b''), (CHR 0x09, CHR ''t''),
      (CHR 0x0A, CHR ''n''), (CHR 0x0C, CHR ''f''), (CHR 0x0D, CHR ''r'')]"

definition json_unescapes :: "(char \<times> char) list" where
  "json_unescapes = map (\<lambda>(a, b). (b, a)) json_escapes"

definition json_esc :: "char \<Rightarrow> string" where
  "json_esc c =
     (case map_of json_escapes c of
        Some e \<Rightarrow> [CHR 0x5C, e]
      | None \<Rightarrow>
          if (of_char c :: nat) < 32
          then CHR 0x5C # ''u00'' @ [hex_char (of_char c div 16), hex_char (of_char c mod 16)]
          else [c])"

fun p_str :: "string \<Rightarrow> (string \<times> string) option" where
  "p_str [] = None"
| "p_str (c # s) =
     (if c = CHR 0x22 then Some ([], s)
      else if c = CHR 0x5C then
        (case s of
           [] \<Rightarrow> None
         | d # t \<Rightarrow>
             if d = CHR ''u'' then
               (case t of
                  a # b # x # y # t' \<Rightarrow> do {
                    h \<leftarrow> hex_val x;
                    l \<leftarrow> hex_val y;
                    (r, u) \<leftarrow> p_str t';
                    if a = CHR ''0'' \<and> b = CHR ''0'' \<and> h < 8
                    then Some (char_of (h * 16 + l) # r, u) else None }
                | _ \<Rightarrow> None)
             else do { e \<leftarrow> map_of json_unescapes d; (r, u) \<leftarrow> p_str t; Some (e # r, u) })
      else do { (r, u) \<leftarrow> p_str s; Some (c # r, u) })"

lemma hex_table: "\<forall>n \<in> set [0..<16]. hex_val (hex_char n) = Some n"
  by code_simp

lemma hex_val_char [simp]: "n < 16 \<Longrightarrow> hex_val (hex_char n) = Some n"
  using hex_table by simp

lemma json_escapes_invert:
  "map_of json_escapes c = Some d \<Longrightarrow> d \<noteq> CHR ''u'' \<and> map_of json_unescapes d = Some c"
  by (drule map_of_SomeD) (auto simp: json_escapes_def json_unescapes_def)

lemma json_esc_cases:
  obtains (plain) "json_esc c = [c]" "c \<noteq> CHR 0x22" "c \<noteq> CHR 0x5C"
  | (short) d where "json_esc c = [CHR 0x5C, d]" "d \<noteq> CHR ''u''" "map_of json_unescapes d = Some c"
  | (hex) x y h l where "json_esc c = CHR 0x5C # ''u00'' @ [x, y]" "hex_val x = Some h"
      "hex_val y = Some l" "h < 8" "char_of (h * 16 + l) = c"
proof (cases "map_of json_escapes c")
  case (Some d)
  show thesis
    by (rule short [of d]) (use Some json_escapes_invert [OF Some] in \<open>auto simp: json_esc_def\<close>)
next
  case None
  show thesis
  proof (cases "(of_char c :: nat) < 32")
    case True
    then have "(of_char c :: nat) div 16 < 8" "(of_char c :: nat) div 16 < 16" by auto
    moreover have "char_of (of_char c div 16 * 16 + of_char c mod 16 :: nat) = c" by simp
    ultimately show thesis
      using None True by (intro hex) (auto simp: json_esc_def)
  next
    case False
    from None have "c \<noteq> CHR 0x22" "c \<noteq> CHR 0x5C" by (auto simp: json_escapes_def)
    with None False show thesis by (intro plain) (auto simp: json_esc_def)
  qed
qed

lemma p_str_round_trip: "p_str (concat (map json_esc s) @ CHR 0x22 # t) = Some (s, t)"
proof (induction s)
  case (Cons c s)
  show ?case
    by (cases c rule: json_esc_cases) (simp_all add: Cons)
qed simp

fun commas :: "string list \<Rightarrow> string" where
  "commas [] = []"
| "commas [s] = s"
| "commas (s # t # ss) = s @ CHR '','' # commas (t # ss)"

definition json_quote :: "string \<Rightarrow> string" where
  "json_quote s = CHR 0x22 # concat (map json_esc s) @ [CHR 0x22]"

fun print_json :: "json \<Rightarrow> string" where
  "print_json JNull = ''null''"
| "print_json (JBool b) = (if b then ''true'' else ''false'')"
| "print_json (JNum (PosInt n)) = dec (unat n)"
| "print_json (JNum (NegInt w)) = CHR ''-'' # dec (nat (- sint w))"
| "print_json (JNum (JFloat x)) = ''null''"
| "print_json (JStr s) = json_quote s"
| "print_json (JArr js) = CHR ''['' # commas (map print_json js) @ '']''"
| "print_json (JObj kvs) =
     CHR ''{'' # commas (map (\<lambda>(k, v). json_quote k @ CHR '':'' # print_json v) kvs) @ ''}''"

definition p_digits :: "string \<Rightarrow> nat \<times> string" where
  "p_digits s = (undec (takeWhile is_digit s), dropWhile is_digit s)"

fun p_val :: "nat \<Rightarrow> string \<Rightarrow> (json \<times> string) option"
  and p_elems :: "nat \<Rightarrow> string \<Rightarrow> (json list \<times> string) option"
  and p_members :: "nat \<Rightarrow> string \<Rightarrow> ((string \<times> json) list \<times> string) option" where
  "p_val 0 s = None"
| "p_val (Suc n) s =
     (case s of [] \<Rightarrow> None | c # t \<Rightarrow>
        if c = CHR ''n'' then (if is_prefix ''ull'' t then Some (JNull, drop 3 t) else None)
        else if c = CHR ''t'' then (if is_prefix ''rue'' t then Some (JBool True, drop 3 t) else None)
        else if c = CHR ''f'' then (if is_prefix ''alse'' t then Some (JBool False, drop 4 t) else None)
        else if c = CHR 0x22 then map_option (\<lambda>(x, u). (JStr x, u)) (p_str t)
        else if c = CHR ''['' then
          (if t \<noteq> [] \<and> hd t = CHR '']'' then Some (JArr [], tl t)
           else map_option (\<lambda>(xs, u). (JArr xs, u)) (p_elems n t))
        else if c = CHR ''{'' then
          (if t \<noteq> [] \<and> hd t = CHR ''}'' then Some (JObj [], tl t)
           else map_option (\<lambda>(xs, u). (JObj xs, u)) (p_members n t))
        else if c = CHR ''-'' then
          (let (k, u) = p_digits t
           in if t \<noteq> [] \<and> is_digit (hd t) \<and> 0 < k \<and> k \<le> 2 ^ 63
              then Some (JNum (NegInt (of_int (- int k))), u) else None)
        else if is_digit c then
          (let (k, u) = p_digits s in if k < 2 ^ 64 then Some (JNum (PosInt (of_nat k)), u) else None)
        else None)"
| "p_elems 0 s = None"
| "p_elems (Suc n) s = do {
     (x, t) \<leftarrow> p_val n s;
     (case t of [] \<Rightarrow> None | c # u \<Rightarrow>
        if c = CHR '','' then do { (xs, v) \<leftarrow> p_elems n u; Some (x # xs, v) }
        else if c = CHR '']'' then Some ([x], u) else None) }"
| "p_members 0 s = None"
| "p_members (Suc n) s =
     (case s of [] \<Rightarrow> None | q # s' \<Rightarrow>
        if q \<noteq> CHR 0x22 then None else do {
        (k, t) \<leftarrow> p_str s';
        (case t of [] \<Rightarrow> None | c # u \<Rightarrow>
           if c \<noteq> CHR '':'' then None else do {
           (x, v) \<leftarrow> p_val n u;
           (case v of [] \<Rightarrow> None | d # w \<Rightarrow>
              if d = CHR '','' then do { (xs, z) \<leftarrow> p_members n w; Some ((k, x) # xs, z) }
              else if d = CHR ''}'' then Some ([(k, x)], w) else None) }) })"

definition parse_json :: "string \<Rightarrow> json option" where
  "parse_json s =
     (case p_val (length s) s of Some (j, []) \<Rightarrow> Some j | _ \<Rightarrow> None)"

section \<open>What is printed is parsed back\<close>

definition ends_token :: "string \<Rightarrow> bool" where
  "ends_token r \<longleftrightarrow> r = [] \<or> \<not> is_digit (hd r)"

lemma p_digits_dec: "ends_token r \<Longrightarrow> p_digits (dec n @ r) = (n, r)"
proof -
  assume r: "ends_token r"
  have "takeWhile is_digit (dec n @ r) = dec n @ takeWhile is_digit r"
    by (rule takeWhile_append2) (rule dec_digits)
  moreover have "dropWhile is_digit (dec n @ r) = dropWhile is_digit r"
    by (rule dropWhile_append2) (rule dec_digits)
  moreover from r have "takeWhile is_digit r = []" "dropWhile is_digit r = r"
    by (cases r; simp add: ends_token_def)+
  ultimately show ?thesis by (simp add: p_digits_def)
qed

lemma json_quote_parsed: "p_str (tl (json_quote s) @ t) = Some (s, t)"
  using p_str_round_trip [of s t] by (simp add: json_quote_def)

text \<open>The first character tells the kinds of value apart.\<close>

lemma dec_cons: "\<exists>c t. dec n = c # t \<and> is_digit c"
  using dec_digits [of _ n] by (cases "dec n") auto

lemma digit_not_mark [simp]:
  "is_digit c \<Longrightarrow> c \<noteq> CHR ''n''" "is_digit c \<Longrightarrow> c \<noteq> CHR ''t''" "is_digit c \<Longrightarrow> c \<noteq> CHR ''f''"
  "is_digit c \<Longrightarrow> c \<noteq> CHR 0x22" "is_digit c \<Longrightarrow> c \<noteq> CHR ''[''" "is_digit c \<Longrightarrow> c \<noteq> CHR ''{''"
  "is_digit c \<Longrightarrow> c \<noteq> CHR ''-''" "is_digit c \<Longrightarrow> c \<noteq> CHR '']''" "is_digit c \<Longrightarrow> c \<noteq> CHR ''}''"
  by (auto simp: is_digit_def)

lemma p_val_PosInt: "ends_token r \<Longrightarrow> p_val (Suc n) (dec (unat w) @ r) = Some (JNum (PosInt w), r)"
proof -
  assume r: "ends_token r"
  obtain c t where d: "dec (unat w) = c # t" "is_digit c" using dec_cons by blast
  from p_digits_dec [OF r, of "unat w"] d(1) have "p_digits (c # t @ r) = (unat w, r)" by simp
  moreover have "unat w < 2 ^ 64" using unsigned_less [where w = w and 'a = nat] by simp
  ultimately show ?thesis using d by simp
qed

lemma p_val_NegInt:
  assumes "ends_token r" and "w <s 0"
  shows "p_val (Suc n) (CHR ''-'' # dec (nat (- sint w)) @ r) = Some (JNum (NegInt w), r)"
proof -
  let ?k = "nat (- sint w)"
  from assms(2) have neg: "sint w < 0" by (simp add: word_sless_alt)
  have lo: "- (2 ^ 63) \<le> sint w" using sint_range_size [of w] by (simp add: word_size)
  obtain c t where d: "dec ?k = c # t" "is_digit c" using dec_cons by blast
  from p_digits_dec [OF assms(1), of ?k] d(1) have "p_digits (c # t @ r) = (?k, r)" by simp
  moreover have "0 < ?k" "?k \<le> 2 ^ 63" using neg lo by auto
  moreover have "of_int (- int ?k) = w" using neg by simp
  ultimately show ?thesis using d by simp
qed

lemma print_json_hd: "\<exists>c t. print_json j = c # t \<and> c \<noteq> CHR '']''"
proof (cases j)
  case (JNum x)
  have "\<exists>c t. dec n = c # t \<and> c \<noteq> CHR '']''" for n
    using dec_cons [of n] by auto
  with JNum show ?thesis by (cases x) simp_all
qed (auto simp: json_quote_def)

lemma commas_Cons: "ss \<noteq> [] \<Longrightarrow> commas (s # ss) = s @ CHR '','' # commas ss"
  by (cases ss) auto

text \<open>What a value's text must do for its lists to be read back.\<close>

definition reads_back :: "json \<Rightarrow> bool" where
  "reads_back j \<longleftrightarrow> (\<forall>n r. ends_token r \<longrightarrow> length (print_json j) \<le> n \<longrightarrow>
     p_val n (print_json j @ r) = Some (j, r))"

lemma reads_backD:
  "reads_back j \<Longrightarrow> ends_token r \<Longrightarrow> length (print_json j) \<le> n \<Longrightarrow>
   p_val n (print_json j @ r) = Some (j, r)"
  by (simp add: reads_back_def)

lemma ends_token_marks [simp]:
  "ends_token []" "ends_token (CHR '','' # r)" "ends_token (CHR '']'' # r)" "ends_token (CHR ''}'' # r)"
  by (simp_all add: ends_token_def is_digit_def)

lemma p_elems_print:
  "js \<noteq> [] \<Longrightarrow> (\<And>j. j \<in> set js \<Longrightarrow> reads_back j) \<Longrightarrow>
   length (commas (map print_json js)) < n \<Longrightarrow>
   p_elems n (commas (map print_json js) @ CHR '']'' # r) = Some (js, r)"
proof (induction js arbitrary: n)
  case (Cons j js)
  from Cons.prems(3) obtain m where n: "n = Suc m" by (cases n) auto
  show ?case
  proof (cases "js = []")
    case True
    with Cons.prems reads_backD [of j "CHR '']'' # r" m] show ?thesis
      by (simp add: n)
  next
    case False
    let ?s = "commas (map print_json js) @ CHR '']'' # r"
    from False Cons.prems(3) have len: "length (print_json j) + Suc (length (commas (map print_json js))) \<le> m"
      by (simp add: n commas_Cons)
    then have "p_val m (print_json j @ CHR '','' # ?s) = Some (j, CHR '','' # ?s)"
      using Cons.prems(2) by (intro reads_backD) auto
    moreover have "p_elems m ?s = Some (js, r)"
      using len Cons.prems(2) False by (intro Cons.IH) auto
    ultimately show ?thesis using False by (simp add: n commas_Cons)
  qed
qed simp

lemma p_members_print:
  "kvs \<noteq> [] \<Longrightarrow> (\<And>k j. (k, j) \<in> set kvs \<Longrightarrow> reads_back j) \<Longrightarrow>
   length (commas (map (\<lambda>(k, v). json_quote k @ CHR '':'' # print_json v) kvs)) < n \<Longrightarrow>
   p_members n (commas (map (\<lambda>(k, v). json_quote k @ CHR '':'' # print_json v) kvs) @ CHR ''}'' # r)
     = Some (kvs, r)"
proof (induction kvs arbitrary: n)
  case (Cons kv kvs)
  obtain k j where kv: "kv = (k, j)" by (cases kv)
  from Cons.prems(3) obtain m where n: "n = Suc m" by (cases n) auto
  have q: "p_str (concat (map json_esc k) @ CHR 0x22 # t) = Some (k, t)" for t
    by (rule p_str_round_trip)
  show ?case
  proof (cases "kvs = []")
    case True
    with Cons.prems reads_backD [of j "CHR ''}'' # r" m] show ?thesis
      by (simp add: n kv json_quote_def q)
  next
    case False
    let ?c = "commas (map (\<lambda>(k, v). json_quote k @ CHR '':'' # print_json v) kvs)"
    let ?s = "?c @ CHR ''}'' # r"
    from False Cons.prems(3) have len: "length (print_json j) + Suc (length ?c) \<le> m"
      by (simp add: n kv commas_Cons)
    then have "p_val m (print_json j @ CHR '','' # ?s) = Some (j, CHR '','' # ?s)"
      using Cons.prems(2) [of k j] by (intro reads_backD) (auto simp: kv)
    moreover have "p_members m ?s = Some (kvs, r)"
      using len Cons.prems(2) False by (intro Cons.IH) auto
    ultimately show ?thesis using False by (simp add: n kv commas_Cons json_quote_def q)
  qed
qed simp

lemma reads_back_arr:
  assumes "\<And>j. j \<in> set js \<Longrightarrow> reads_back j"
  shows "reads_back (JArr js)"
  unfolding reads_back_def
proof (intro allI impI)
  fix n r assume n: "length (print_json (JArr js)) \<le> n"
  then obtain m where m: "n = Suc m" by (cases n) auto
  show "p_val n (print_json (JArr js) @ r) = Some (JArr js, r)"
  proof (cases js)
    case (Cons j js')
    have "p_elems m (commas (map print_json js) @ CHR '']'' # r) = Some (js, r)"
      using assms n by (intro p_elems_print) (auto simp: Cons m list_all_iff)
    moreover obtain c t where "print_json j = c # t" "c \<noteq> CHR '']''"
      using print_json_hd by blast
    then have "\<exists>c t. commas (map print_json js) = c # t \<and> c \<noteq> CHR '']''"
      by (cases js') (auto simp: Cons)
    ultimately show ?thesis by (auto simp: m)
  qed (simp add: m)
qed

lemma reads_back_obj:
  assumes "\<And>k j. (k, j) \<in> set kvs \<Longrightarrow> reads_back j"
  shows "reads_back (JObj kvs)"
  unfolding reads_back_def
proof (intro allI impI)
  fix n r assume n: "length (print_json (JObj kvs)) \<le> n"
  then obtain m where m: "n = Suc m" by (cases n) auto
  let ?c = "commas (map (\<lambda>(k, v). json_quote k @ CHR '':'' # print_json v) kvs)"
  show "p_val n (print_json (JObj kvs) @ r) = Some (JObj kvs, r)"
  proof (cases kvs)
    case (Cons kv kvs')
    have "reads_back j" if "(k, j) \<in> set kvs" for k j
      using assms that by (auto simp: list_all_iff)
    then have "p_members m (?c @ CHR ''}'' # r) = Some (kvs, r)"
      using n by (intro p_members_print) (auto simp: Cons m)
    moreover have "\<exists>t. ?c = CHR 0x22 # t"
      by (cases kvs') (auto simp: Cons json_quote_def split: prod.splits)
    ultimately show ?thesis by (auto simp: m)
  qed (simp add: m)
qed

lemma reads_back_clean: "json_clean j \<Longrightarrow> reads_back j"
proof (induction j)
  case (JNum x)
  show ?case
    unfolding reads_back_def
  proof (intro allI impI)
    fix n r assume r: "ends_token r" and n: "length (print_json (JNum x)) \<le> n"
    then obtain m where m: "n = Suc m"
      using print_json_hd [of "JNum x"] by (cases n) auto
    show "p_val n (print_json (JNum x) @ r) = Some (JNum x, r)"
      using JNum p_val_PosInt [OF r] p_val_NegInt [OF r] by (cases x) (simp_all only: m print_json.simps append_Cons json_clean.simps)
  qed
next
  case (JStr s)
  have "p_str (concat (map json_esc s) @ CHR 0x22 # t) = Some (s, t)" for t
    by (rule p_str_round_trip)
  then show ?case
    by (auto simp: reads_back_def json_quote_def Suc_le_eq gr0_conv_Suc dest!: less_imp_Suc_add)
next
  case (JArr js)
  then show ?case by (intro reads_back_arr) (auto simp: list_all_iff)
next
  case (JObj kvs)
  then show ?case by (intro reads_back_obj) (fastforce simp: list_all_iff)
qed (auto simp: reads_back_def Suc_le_eq gr0_conv_Suc dest!: less_imp_Suc_add)

section \<open>The codec\<close>

definition ref_codec :: text_codec where
  "ref_codec =
     \<lparr>json_to_string = print_json, json_from_slice = parse_json,
      b64_encode = (\<lambda>s. b64_enc (map of_char s)),
      b64_decode = (\<lambda>s. map_option (map char_of) (b64_dec s))\<rparr>"

lemma parse_print_json: "json_clean j \<Longrightarrow> parse_json (print_json j) = Some j"
  using reads_backD [OF reads_back_clean, of j "[]" "length (print_json j)"]
  by (simp add: parse_json_def)

lemma ref_codec_ok: "codec_ok ref_codec"
  by (simp add: codec_ok_def ref_codec_def plain_json_def parse_print_json b64_round_trip
      b64_enc_ascii o_def)

end
