(* ===== verification/Ref_Url.thy ===== *)
theory Ref_Url
  imports Cli Ref_Codec
begin

text \<open>
  A small URL implementation, \<open>scheme://[:password@]host[:port]/path[#fragment]\<close>, with every other
  character of a component escaped. It satisfies \<open>url_ok\<close> and is what the witnesses of the URL
  properties are evaluated on.
\<close>

section \<open>Escaping\<close>

definition unreserved :: "char \<Rightarrow> bool" where
  "unreserved c \<longleftrightarrow> is_ascii_alphanumeric c \<or> c \<in> {CHR ''.'', CHR ''-'', CHR ''*'', CHR ''_''}"

definition esc_char :: "char \<Rightarrow> string" where
  "esc_char c =
     (if unreserved c then [c]
      else [CHR ''%'', hex_char (of_char c div 16), hex_char (of_char c mod 16)])"

definition esc :: "string \<Rightarrow> string" where
  "esc s = concat (map esc_char s)"

fun unesc :: "string \<Rightarrow> string" where
  "unesc [] = []"
| "unesc (c # s) =
     (if c = CHR ''%'' then
        (case s of
           a # b # t \<Rightarrow>
             (case (hex_val a, hex_val b) of
                (Some x, Some y) \<Rightarrow> char_of (16 * x + y) # unesc t
              | _ \<Rightarrow> c # unesc s)
         | _ \<Rightarrow> c # unesc s)
      else c # unesc s)"

lemma unesc_esc_char: "unesc (esc_char c @ t) = c # unesc t"
proof (cases "unreserved c")
  case True
  then have "c \<noteq> CHR ''%''" by (auto simp: unreserved_def is_ascii_alphanumeric_def Let_def)
  with True show ?thesis by (simp add: esc_char_def)
next
  case False
  have "of_char c < (256::nat)" by simp
  then have "of_char c div 16 < (16::nat)" "of_char c mod 16 < (16::nat)"
      "char_of (16 * (of_char c div 16) + of_char c mod 16 :: nat) = c"
    by simp_all
  with False show ?thesis
    using hex_val_char [of "of_char c div 16"] hex_val_char [of "of_char c mod 16"]
    by (simp add: esc_char_def)
qed

lemma unesc_esc [simp]: "unesc (esc s) = s"
proof -
  have "unesc (esc s @ []) = s @ unesc []"
    unfolding esc_def by (induction s) (simp_all add: unesc_esc_char del: unesc.simps(2))
  then show ?thesis by simp
qed

text \<open>Escaped text has no delimiter in it.\<close>

definition delimiter :: "char \<Rightarrow> bool" where
  "delimiter c \<longleftrightarrow> c \<in> {CHR '':'', CHR ''/'', CHR ''@'', CHR ''#''}"

lemma hex_char_plain:
  assumes "n < 16"
  shows "\<not> delimiter (hex_char n)"
proof -
  have "\<forall>n \<in> set [0..<16]. \<not> delimiter (hex_char n)" by code_simp
  with assms show ?thesis by simp
qed

lemma esc_char_plain: "d \<in> set (esc_char c) \<Longrightarrow> \<not> delimiter d"
proof -
  have "of_char c div 16 < (16::nat)" "of_char c mod 16 < (16::nat)"
    using nat_of_char_less_256 [of c] by simp_all
  then have "\<not> delimiter (hex_char (of_char c div 16))" "\<not> delimiter (hex_char (of_char c mod 16))"
    by (simp_all add: hex_char_plain)
  then show "d \<in> set (esc_char c) \<Longrightarrow> \<not> delimiter d"
    by (auto simp: esc_char_def unreserved_def delimiter_def is_ascii_alphanumeric_def Let_def
        split: if_splits)
qed

lemma esc_plain: "d \<in> set (esc s) \<Longrightarrow> \<not> delimiter d"
  by (auto simp: esc_def dest: esc_char_plain)

lemma dec_plain: "d \<in> set (dec n) \<Longrightarrow> \<not> delimiter d"
  using dec_digits by (fastforce simp: delimiter_def is_digit_def)

lemma span_at:
  assumes "\<And>c. c \<in> set s \<Longrightarrow> c \<noteq> d" and "t = [] \<or> hd t = d"
  shows "takeWhile (\<lambda>c. c \<noteq> d) (s @ t) = s" and "dropWhile (\<lambda>c. c \<noteq> d) (s @ t) = t"
  using assms by (induction s) (cases t; auto)+

section \<open>URLs\<close>

record ref_url =
  r_scheme :: string
  r_password :: "string option"
  r_host :: string
  r_port :: "u16 option"
  r_path :: string
  r_fragment :: "string option"

definition print_auth :: "ref_url \<Rightarrow> string" where
  "print_auth u =
     (case r_password u of None \<Rightarrow> [] | Some p \<Rightarrow> '':'' @ esc p @ ''@'') @ esc (r_host u) @
     (case r_port u of None \<Rightarrow> [] | Some n \<Rightarrow> CHR '':'' # dec (unat n))"

definition print_url :: "ref_url \<Rightarrow> string" where
  "print_url u = esc (r_scheme u) @ ''://'' @ print_auth u @ ''/'' @ esc (r_path u) @
     (case r_fragment u of None \<Rightarrow> [] | Some f \<Rightarrow> CHR ''#'' # esc f)"

definition parse_auth :: "string \<Rightarrow> string option \<times> string \<times> u16 option" where
  "parse_auth s =
     (let at_pos = dropWhile (\<lambda>c. c \<noteq> CHR ''@'') s;
          pw = (if at_pos = [] then None
                else Some (unesc (drop 1 (takeWhile (\<lambda>c. c \<noteq> CHR ''@'') s))));
          hp = (if at_pos = [] then s else drop 1 at_pos);
          p = dropWhile (\<lambda>c. c \<noteq> CHR '':'') hp
      in (pw, unesc (takeWhile (\<lambda>c. c \<noteq> CHR '':'') hp),
          if p = [] then None else Some (of_nat (undec (drop 1 p)))))"

definition parse_url :: "string \<Rightarrow> ref_url option" where
  "parse_url s =
     (let r = dropWhile (\<lambda>c. c \<noteq> CHR '':'') s in
      if is_prefix ''://'' r then
        (let r = drop 3 r;
             tail = dropWhile (\<lambda>c. c \<noteq> CHR ''/'') r;
             (pw, h, p) = parse_auth (takeWhile (\<lambda>c. c \<noteq> CHR ''/'') r);
             f = dropWhile (\<lambda>c. c \<noteq> CHR ''#'') (drop 1 tail)
         in Some \<lparr>r_scheme = unesc (takeWhile (\<lambda>c. c \<noteq> CHR '':'') s), r_password = pw, r_host = h,
              r_port = p, r_path = unesc (takeWhile (\<lambda>c. c \<noteq> CHR ''#'') (drop 1 tail)),
              r_fragment = (if f = [] then None else Some (unesc (drop 1 f)))\<rparr>)
      else None)"

lemma parse_print_auth: "parse_auth (print_auth u) = (r_password u, r_host u, r_port u)"
proof -
  let ?port = "case r_port u of None \<Rightarrow> [] | Some n \<Rightarrow> CHR '':'' # dec (unat n)"
  let ?hp = "esc (r_host u) @ ?port"
  have no: "c \<noteq> CHR ''@''" if "c \<in> set ?hp" for c
    using that esc_plain [of c] dec_plain [of c] by (auto simp: delimiter_def split: option.splits)
  have colon: "c \<noteq> CHR '':''" if "c \<in> set (esc s)" for c s
    using esc_plain [OF that] by (auto simp: delimiter_def)
  have at_sign: "c \<noteq> CHR ''@''" if "c \<in> set (CHR '':'' # esc s)" for c s
    using esc_plain [of c s] that by (auto simp: delimiter_def)
  have host: "takeWhile (\<lambda>c. c \<noteq> CHR '':'') ?hp = esc (r_host u)"
      "dropWhile (\<lambda>c. c \<noteq> CHR '':'') ?hp = ?port"
    by (rule span_at [OF colon]; simp split: option.splits)+
  show ?thesis
  proof (cases "r_password u")
    case None
    have "dropWhile (\<lambda>c. c \<noteq> CHR ''@'') ?hp = []"
      using no by (simp only: dropWhile_eq_Nil_conv) blast
    then show ?thesis
      unfolding parse_auth_def print_auth_def None Let_def
      by (simp add: host split: option.splits)
  next
    case (Some p)
    have pw: "takeWhile (\<lambda>c. c \<noteq> CHR ''@'') ((CHR '':'' # esc p) @ CHR ''@'' # ?hp) = CHR '':'' # esc p"
        "dropWhile (\<lambda>c. c \<noteq> CHR ''@'') ((CHR '':'' # esc p) @ CHR ''@'' # ?hp) = CHR ''@'' # ?hp"
      by (rule span_at [OF at_sign]; simp)+
    have eq: "print_auth u = (CHR '':'' # esc p) @ CHR ''@'' # ?hp"
      by (simp add: print_auth_def Some)
    show ?thesis
      unfolding parse_auth_def eq pw Let_def
      by (simp add: host Some split: option.splits)
  qed
qed

lemma print_auth_plain: "CHR ''/'' \<notin> set (print_auth u)"
  using esc_plain [of "CHR ''/''"] dec_plain [of "CHR ''/''"]
  by (auto simp: print_auth_def delimiter_def split: option.splits)

lemma parse_print_url: "parse_url (print_url u) = Some u"
proof -
  let ?frag = "case r_fragment u of None \<Rightarrow> [] | Some f \<Rightarrow> CHR ''#'' # esc f"
  let ?tail = "CHR ''/'' # esc (r_path u) @ ?frag"
  have plain: "c \<noteq> d" if "c \<in> set (esc s)" "delimiter d" for c d s
    using esc_plain [OF that(1)] that(2) by auto
  have eq: "print_url u = esc (r_scheme u) @ ''://'' @ print_auth u @ ?tail"
    by (simp add: print_url_def)
  have sc: "takeWhile (\<lambda>c. c \<noteq> CHR '':'') (print_url u) = esc (r_scheme u)"
      "dropWhile (\<lambda>c. c \<noteq> CHR '':'') (print_url u) = ''://'' @ print_auth u @ ?tail"
    unfolding eq by (rule span_at; simp add: plain delimiter_def)+
  have au: "takeWhile (\<lambda>c. c \<noteq> CHR ''/'') (print_auth u @ ?tail) = print_auth u"
      "dropWhile (\<lambda>c. c \<noteq> CHR ''/'') (print_auth u @ ?tail) = ?tail"
    by (rule span_at; use print_auth_plain [of u] in auto)+
  have pa: "takeWhile (\<lambda>c. c \<noteq> CHR ''#'') (esc (r_path u) @ ?frag) = esc (r_path u)"
      "dropWhile (\<lambda>c. c \<noteq> CHR ''#'') (esc (r_path u) @ ?frag) = ?frag"
    by (rule span_at; simp add: plain delimiter_def split: option.splits)+
  have d: "drop 3 (''://'' @ print_auth u @ ?tail) = print_auth u @ ?tail"
      "drop 1 ?tail = esc (r_path u) @ ?frag" by simp_all
  have fr: "(if ?frag = [] then None else Some (unesc (drop 1 ?frag))) = r_fragment u"
    by (cases "r_fragment u") simp_all
  show ?thesis
    unfolding parse_url_def Let_def sc d au pa fr parse_print_auth by simp
qed

definition ref_url_ops :: "ref_url url_ops" where
  "ref_url_ops =
     \<lparr>u_parse = parse_url,
      u_string = print_url,
      u_scheme = r_scheme,
      u_path = (\<lambda>u. CHR ''/'' # r_path u),
      u_fragment = r_fragment,
      u_password = r_password,
      u_base = (\<lambda>u. True),
      u_set_host = (\<lambda>h u. if h = [] then None else Some (u\<lparr>r_host := h\<rparr>)),
      u_set_port = (\<lambda>p u. Some (u\<lparr>r_port := Some p\<rparr>)),
      u_set_scheme = (\<lambda>s u. Some (u\<lparr>r_scheme := s\<rparr>)),
      u_set_password = (\<lambda>p u. Some (u\<lparr>r_password := if p = [] then None else Some p\<rparr>)),
      u_set_fragment = (\<lambda>f u. u\<lparr>r_fragment := Some f\<rparr>),
      u_set_path = (\<lambda>p u. u\<lparr>r_path := if is_prefix ''/'' p then drop 1 p else p\<rparr>)\<rparr>"

lemma ref_url_ok: "url_ok ref_url_ops"
  by (auto simp: url_ok_def url_frame_def url_values_def url_passwords_def keeps_def ref_url_ops_def
      parse_print_url split: if_splits)

end
