(* ===== verification/Startup_Spec.thy ===== *)
theory Startup_Spec
  imports Startup Cli_Spec
begin

text \<open>
  The properties of the start of \<open>main\<close>: what an accepted start has checked, which database the
  warning about \<open>--allow-flushdb\<close> is about, where the report goes by default, and that nothing
  decided before the network depends on the password.
\<close>

section \<open>The database in the URL\<close>

lemma trim_slashes_digits:
  assumes "s \<noteq> []" and "\<forall>c \<in> set s. is_digit c"
  shows "trim_slashes (CHR ''/'' # s) = s"
proof -
  have no: "c \<noteq> CHR ''/''" if "c \<in> set s" for c
    using assms(2) that by (auto simp: is_digit_def)
  have d: "dropWhile (\<lambda>c. c = CHR ''/'') t = t" if "set t \<subseteq> set s" for t
    using that no by (cases t) auto
  have "dropWhile (\<lambda>c. c = CHR ''/'') (CHR ''/'' # s) = s"
    using d [of s] by simp
  then show ?thesis
    unfolding trim_slashes_def using d [of "rev s"] by simp
qed

lemma db_in_url_built:
  assumes "url_ok U" and "build_redis_url U cli = Ok s" and "u_parse U (url cli) = Some u"
    and "u_base U u"
  shows "db_in_url U s =
    (case db cli of
       Some n \<Rightarrow> n
     | None \<Rightarrow> if trim_slashes (u_path U u) = [] then 13
               else (case parse_u8 (trim_slashes (u_path U u)) of Some n \<Rightarrow> n | None \<Rightarrow> 0))"
proof -
  obtain u' v where b: "u_parse U (url cli) = Some u'" "u_parse U s = Some v"
    "u_base U u' \<Longrightarrow> u_path U v = (case db cli of Some n \<Rightarrow> CHR ''/'' # dec (unat n)
       | None \<Rightarrow> if trim_slashes (u_path U u') = [] then ''/13'' else u_path U u')"
    using built_url [OF assms(1,2)] by metis
  have u: "u' = u" using b(1) assms(3) by simp
  have path: "u_path U v = (case db cli of Some n \<Rightarrow> CHR ''/'' # dec (unat n)
       | None \<Rightarrow> if trim_slashes (u_path U u) = [] then ''/13'' else u_path U u)"
    using b(3) assms(4) unfolding u by simp
  have digits: "trim_slashes (CHR ''/'' # dec n) = dec n" for n
    by (rule trim_slashes_digits) (auto dest: dec_digits)
  have "parse_u8 (trim_slashes ''/13'') = Some 13"
    using parse_unsigned_dec [of "13 :: u8"] digits [of 13] by (simp add: dec_13)
  then show ?thesis
    unfolding db_in_url_def b(2) bind.bind_lunit path
    by (cases "db cli") (simp_all add: digits)
qed

text \<open>
  The warning before \<open>FLUSHDB\<close> is about the right database. With \<open>--allow-flushdb\<close> the program
  warns exactly when the database it will flush is 0: the one of \<open>--db\<close> when it is given, else the
  number in the path of the URL, else 13; a path that is not a number up to 255 counts as 0.
\<close>

lemma flush_warning_db:
  assumes "url_ok U" and "build_redis_url U cli = Ok s" and "u_parse U (url cli) = Some u"
    and "u_base U u"
  shows "warns_flush U cli s \<longleftrightarrow> allow_flushdb cli \<and>
    (case db cli of
       Some n \<Rightarrow> n = 0
     | None \<Rightarrow> trim_slashes (u_path U u) \<noteq> [] \<and>
               (\<forall>n. parse_u8 (trim_slashes (u_path U u)) = Some n \<longrightarrow> n = 0))"
  unfolding warns_flush_def db_in_url_built [OF assms]
  by (simp split: option.splits)

section \<open>The password plays no part\<close>

text \<open>Two starts that show and decide the same.\<close>

definition same_view :: "started \<Rightarrow> started \<Rightarrow> bool" where
  "same_view S S' \<longleftrightarrow> shown_url S = shown_url S' \<and> st_specs S = st_specs S'"

lemma password_scheme_fragment_path:
  assumes "url_ok U" and "u_set_password U q w = Some v"
  shows "u_scheme U (set_db U cli v) = u_scheme U (set_db U cli w)"
    and "u_fragment U (set_db U cli v) = u_fragment U (set_db U cli w)"
    and "u_path U (set_db U cli v) = u_path U (set_db U cli w)"
  using url_ok_keeps(4) [OF assms(1) set_db_password [OF assms]] by simp_all

lemma validate_password [simp]: "validate_cli U (cli\<lparr>password := x\<rparr>) = validate_cli U cli"
  by (simp add: validate_cli_def)

lemma warns_flush_password [simp]: "warns_flush U (cli\<lparr>password := x\<rparr>) s = warns_flush U cli s"
  by (simp add: warns_flush_def)

lemma startup_Ok:
  "startup U checks cli = Ok S \<longleftrightarrow> validate_cli U cli = Ok () \<and>
    (\<exists>s. build_redis_url U cli = Ok s \<and>
       (\<forall>out. output_path cli = Some out \<longrightarrow> validate_output_path out = Ok ()) \<and>
       (\<exists>ps. collect_outcome (\<lambda>p. map_error BadOption (parse_percentile_spec checks p))
               (latency_percentiles cli) = Ok ps \<and>
          S = \<lparr>conn_url = s, shown_url = redact_url U s, st_specs = ps\<rparr>))"
  by (auto simp: startup_def startup_url_def startup_options_def outcome_simps split: option.splits)

lemma startup_url_Ok: "startup_url U cli = Ok s \<longleftrightarrow> validate_cli U cli = Ok () \<and> build_redis_url U cli = Ok s"
  by (simp add: startup_url_def outcome_simps)

lemma url_warnings_password [simp]: "url_warnings U (cli\<lparr>password := x\<rparr>) s = url_warnings U cli s"
  by (simp add: url_warnings_def)

text \<open>With another password another URL is built that looks the same and gives the same warnings.\<close>

lemma startup_url_swap:
  assumes "url_ok U" and "p \<noteq> []" and "p' \<noteq> []"
    and "startup_url U (cli\<lparr>password := Some p\<rparr>) = Ok s"
  obtains s' where "startup_url U (cli\<lparr>password := Some p'\<rparr>) = Ok s'"
    and "redact_url U s' = redact_url U s" and "url_warnings U cli s' = url_warnings U cli s"
proof -
  from assms(4) have val: "validate_cli U cli = Ok ()"
    and s: "build_redis_url U (cli\<lparr>password := Some p\<rparr>) = Ok s" by (auto simp: startup_url_Ok)
  obtain w v v' where b: "build_redis_url U (cli\<lparr>password := Some p'\<rparr>) = Ok (u_string U (set_db U cli v'))"
    "s = u_string U (set_db U cli v)" "u_set_password U p w = Some v" "u_set_password U p' w = Some v'"
    "redact_url U (u_string U (set_db U cli v')) = redact_url U s"
    by (rule swap_password [OF assms(1-3) s])
  note parse = url_okD(1) [OF assms(1)]
  note view = password_scheme_fragment_path [OF assms(1) b(3)] password_scheme_fragment_path [OF assms(1) b(4)]
  have "url_disables_cert_verification U (u_string U (set_db U cli v'))
      = url_disables_cert_verification U s"
    by (simp add: url_disables_cert_verification_def b(2) parse view)
  moreover have "warns_flush U cli (u_string U (set_db U cli v')) = warns_flush U cli s"
    by (simp add: warns_flush_def db_in_url_def b(2) parse view)
  ultimately show thesis
    using val b(1,5) by (intro that [of "u_string U (set_db U cli v')"]) (simp_all add: startup_url_Ok url_warnings_def)
qed

lemma build_redis_url_Err_swap:
  assumes "url_ok U" and "build_redis_url U (cli\<lparr>password := Some p\<rparr>) = Err e"
  shows "build_redis_url U (cli\<lparr>password := Some p'\<rparr>) = Err e"
proof -
  have none: "u_set_password U p' u = None" if "u_set_password U p u = None" for u
    using assms(1) that unfolding url_ok_def url_passwords_def by blast
  have last: "bind_outcome (set_option (u_set_password U) (\<lambda>_. x) (Some p') u) (\<lambda>u. Ok (g u)) = Err e"
    if "bind_outcome (set_option (u_set_password U) (\<lambda>_. x) (Some p) u) (\<lambda>u. Ok (g u)) = Err e" for x u g
    using that none [of u] by (simp add: set_option_def split: option.splits)
  show ?thesis
  proof (cases "u_parse U (url cli)")
    case None
    with assms(2) show ?thesis by (simp add: build_redis_url_def)
  next
    case (Some u)
    with assms(2) show ?thesis
      unfolding build_redis_url_def Let_def
      by simp ((erule bind_outcome_Err_mono)+, erule last)
  qed
qed

lemma startup_url_Err_swap:
  "url_ok U \<Longrightarrow> startup_url U (cli\<lparr>password := Some p\<rparr>) = Err e \<Longrightarrow>
   startup_url U (cli\<lparr>password := Some p'\<rparr>) = Err e"
  by (auto simp: startup_url_def outcome_fails intro: build_redis_url_Err_swap)

lemma check_all_not_Panicked: "(\<And>x. f x \<noteq> Panicked m) \<Longrightarrow> check_all f xs \<noteq> Panicked m"
  by (induction xs) (auto simp: outcome_fails)

lemma startup_checks_not_Panicked: "validate_cli U cli \<noteq> Panicked m" "build_redis_url U cli \<noteq> Panicked m"
  by (auto simp: validate_cli_def build_redis_url_def outcome_fails set_option_def ensure_def
      Let_def check_all_not_Panicked split: option.splits if_splits)

lemma startup_url_not_Panicked: "startup_url U cli \<noteq> Panicked m"
  by (simp add: startup_url_def outcome_fails startup_checks_not_Panicked)

lemma startup_warnings_swap:
  assumes "url_ok U" and "p \<noteq> []" and "p' \<noteq> []"
  shows "startup_warnings U (cli\<lparr>password := Some p'\<rparr>) = startup_warnings U (cli\<lparr>password := Some p\<rparr>)"
proof (cases "startup_url U (cli\<lparr>password := Some p\<rparr>)")
  case (Ok s)
  from startup_url_swap [OF assms Ok] obtain s' where
    "startup_url U (cli\<lparr>password := Some p'\<rparr>) = Ok s'" "url_warnings U cli s' = url_warnings U cli s" by blast
  with Ok show ?thesis by (simp add: startup_warnings_def)
next
  case (Err e)
  with startup_url_Err_swap [OF assms(1) Err] show ?thesis by (simp add: startup_warnings_def)
qed (simp add: startup_url_not_Panicked)

lemma startup_options_password [simp]: "startup_options checks (cli\<lparr>password := x\<rparr>) = startup_options checks cli"
  by (simp add: startup_options_def)

text \<open>
  An accepted start is accepted with every other password, and looks the same; a start that fails
  fails with the same error.
\<close>

lemma startup_swap:
  assumes "url_ok U"
    and "p \<noteq> []" and "p' \<noteq> []" and "startup U checks (cli\<lparr>password := Some p\<rparr>) = Ok S"
  obtains S' where "startup U checks (cli\<lparr>password := Some p'\<rparr>) = Ok S'" and "same_view S S'"
proof -
  from assms(4) obtain s ps where s: "startup_url U (cli\<lparr>password := Some p\<rparr>) = Ok s"
    and ps: "startup_options checks cli = Ok ps"
    and S: "S = \<lparr>conn_url = s, shown_url = redact_url U s, st_specs = ps\<rparr>"
    by (auto simp: startup_def outcome_simps)
  from startup_url_swap [OF assms(1-3) s] obtain s' where
    s': "startup_url U (cli\<lparr>password := Some p'\<rparr>) = Ok s'" "redact_url U s' = redact_url U s" by blast
  show thesis
    by (rule that [of "\<lparr>conn_url = s', shown_url = redact_url U s, st_specs = ps\<rparr>"])
      (simp_all add: startup_def s' ps S same_view_def)
qed

lemma startup_stops_swap:
  assumes "url_ok U" and "p \<noteq> []" and "p' \<noteq> []"
    and "stops f (startup U checks (cli\<lparr>password := Some p\<rparr>)) = Some res"
  shows "stops f (startup U checks (cli\<lparr>password := Some p'\<rparr>)) = Some res"
proof (cases "startup_url U (cli\<lparr>password := Some p\<rparr>)")
  case (Ok s)
  from startup_url_swap [OF assms(1-3) Ok] obtain s' where
    "startup_url U (cli\<lparr>password := Some p'\<rparr>) = Ok s'" by blast
  with Ok assms(4) show ?thesis
    by (cases "startup_options checks cli") (simp_all add: startup_def)
next
  case (Err e)
  with startup_url_Err_swap [OF assms(1) Err] assms(4) show ?thesis by (simp add: startup_def)
qed (simp add: startup_url_not_Panicked)

section \<open>The memory warning is exact\<close>

text \<open>
  Below \<open>2 ^ 53\<close> bytes the doubles of the estimate do not matter: the warning is given exactly when
  the messages take more than 100 MiB.
\<close>

lemma above_100_iff: "100 < (of_nat n :: rat) / 2 ^ 20 \<longleftrightarrow> 104857600 < n"
proof -
  have "100 < (of_nat n :: rat) / 2 ^ 20 \<longleftrightarrow> of_nat 104857600 < (of_nat n :: rat)"
    by (simp add: pos_less_divide_eq)
  then show ?thesis by (simp only: of_nat_less_iff)
qed

lemma rnd_above_100:
  assumes "104857600 < n"
  shows "100 < rnd (of_nat n / 2 ^ 20)"
proof -
  let ?x = "of_nat 104857601 / 2 ^ 20 :: rat"
  have "of_nat 104857601 \<le> (of_nat n :: rat)" using assms by (simp only: of_nat_le_iff)
  then have "rnd ?x \<le> rnd (of_nat n / 2 ^ 20)"
    by (intro rnd_mono divide_right_mono) simp_all
  moreover have "0 \<le> ilog2 ?x" by (rule ilog2_ge) simp_all
  then have "\<bar>rnd ?x - ?x\<bar> \<le> ?x / 2 ^ 53" by (intro rnd_error) simp_all
  then have "?x - ?x / 2 ^ 53 \<le> rnd ?x" by linarith
  moreover have "100 < ?x - ?x / 2 ^ 53" by simp
  ultimately show ?thesis by linarith
qed

lemma estimate_exact:
  assumes "j < 2 ^ 53" and "len < 2 ^ 53" and "j * len < 2 ^ 53"
  shows "f64_div (f64_mul (f64_of_nat j) (f64_of_nat len)) (f64_mul (Fin 1024) (Fin 1024))
    = Fin (rnd (of_nat (j * len) / 2 ^ 20))"
proof -
  have "j * len \<le> 2 ^ 99" using assms(3) by simp
  then have "(of_nat (j * len) :: rat) \<le> of_nat (2 ^ 99)" by (simp only: of_nat_le_iff)
  then have small: "(of_nat (j * len) :: rat) \<le> 2 ^ 99" by simp
  have "fl (of_nat (j * len)) = Fin (of_nat (j * len))"
    using fl_small [OF _ small] rnd_of_nat [OF assms(3)] by simp
  then have "f64_mul (f64_of_nat j) (f64_of_nat len) = Fin (of_nat (j * len))"
    by (simp add: f64_of_nat_small [OF assms(1)] f64_of_nat_small [OF assms(2)])
  moreover have "f64_mul (Fin 1024) (Fin 1024) = Fin (2 ^ 20)"
    using fl_small [of "2 ^ 20"] rnd_of_nat [of "2 ^ 20"] by simp
  moreover have "(of_nat (j * len) :: rat) / 2 ^ 20 \<le> 2 ^ 99"
    using small by (simp add: pos_divide_le_eq)
  then have "fl (of_nat (j * len) / 2 ^ 20) = Fin (rnd (of_nat (j * len) / 2 ^ 20))"
    by (intro fl_small) simp_all
  ultimately show ?thesis by simp
qed

lemma memory_warning_iff:
  assumes "unat (jobs cli) < 2 ^ 53" and "len < 2 ^ 53" and "unat (jobs cli) * len < 2 ^ 53"
  shows "memory_warning cli len \<noteq> None \<longleftrightarrow> 104857600 < unat (jobs cli) * len"
proof -
  let ?n = "unat (jobs cli) * len"
  have "100 < rnd (of_nat ?n / 2 ^ 20) \<longleftrightarrow> 104857600 < ?n"
  proof (cases "104857600 < ?n")
    case False
    then have "(of_nat ?n :: rat) / 2 ^ 20 \<le> 100"
      unfolding above_100_iff [symmetric] by (simp only: not_less)
    then have "rnd (of_nat ?n / 2 ^ 20) \<le> rnd 100" by (rule rnd_mono)
    with False rnd_of_nat [of 100] show ?thesis by simp
  next
    case True
    with rnd_above_100 [OF True] show ?thesis by blast
  qed
  then show ?thesis
    unfolding memory_warning_def Let_def estimated_mb_def estimate_exact [OF assms] by simp
qed

end
