(* ===== verification/Worker.thy ===== *)
theory Worker
  imports Envelope Redis Metrics
begin

text \<open>
  \<open>src/src/worker.rs\<close>: one simulated Celery worker. \<open>handle_message\<close> is the function of that
  name; \<open>worker_step\<close> is one atomic step of the loop of \<open>LoadWorker::run\<close>, from one access of the
  state shared with the other workers (counters, latency channel, done signal, shutdown flag,
  broker) to the next, so that an interleaving of workers is a sequence of such steps.
\<close>

section \<open>State\<close>

text \<open>
  What the workers of a trial share. The latency channel is the list of the values sent so far,
  \<open>done_flag\<close> the value of the watch channel, \<open>srv\<close> the state of the broker. Both receivers live
  as long as the trial, so a send never fails.
\<close>

record 's shared =
  srv :: 's
  metrics :: metrics
  latencies :: "u64 list"
  done_flag :: bool
  shutdown :: bool

text \<open>The constants of a worker: its target, the keys it polls and the timeout of one poll.\<close>

record worker_cfg =
  target_jobs :: u64
  keys :: "string list"
  brpop_timeout_secs :: f64

datatype worker_error = RedisConnection redis_error

text \<open>
  Where a worker is: at the top of its loop, past the shutdown check, waiting for \<open>BRPOP\<close>,
  holding a payload, past the sample or error of a payload, past the increment of the completed
  counter (with the value it returned), or sleeping after an error reply; it ends by returning, by
  a panic, or by being aborted at an await.
\<close>

datatype wpc =
    Top
  | Checking
  | Polling
  | Handling string
  | Counting
  | Signalling u64
  | Backoff
  | Returned "worker_error + unit"
  | Crashed string
  | Aborted

fun terminal :: "wpc \<Rightarrow> bool" where
  "terminal (Returned r) = True"
| "terminal (Crashed m) = True"
| "terminal Aborted = True"
| "terminal pc = False"

section \<open>Handling one message\<close>

text \<open>The latency of a message in microseconds: at least 1, and 1 when the clocks are skewed.\<close>

definition latency_us :: "u64 \<Rightarrow> u64 \<Rightarrow> u64" where
  "latency_us now_ns enqueued =
     max (if enqueued \<le> now_ns then (now_ns - enqueued) div 1000 else 1) 1"

text \<open>The outer match: a sample for a message of this tool, no sample for any other payload.\<close>

definition message_sample :: "text_codec \<Rightarrow> int \<Rightarrow> string \<Rightarrow> (unit, u64 option) outcome" where
  "message_sample c t payload =
     (case env_from_slice c payload of
        None \<Rightarrow> Ok None
      | Some envelope \<Rightarrow>
          (case enqueued_at_ns c envelope of
             None \<Rightarrow> Ok None
           | Some enqueued \<Rightarrow>
               bind_outcome (unix_now_ns t) (\<lambda>now_ns. Ok (Some (latency_us now_ns enqueued)))))"

definition record_sample :: "u64 option \<Rightarrow> 's shared \<Rightarrow> 's shared" where
  "record_sample sample s =
     (case sample of
        Some us \<Rightarrow> s\<lparr>latencies := latencies s @ [us]\<rparr>
      | None \<Rightarrow> s\<lparr>metrics := inc_error (metrics s)\<rparr>)"

definition signal_done :: "worker_cfg \<Rightarrow> u64 \<Rightarrow> 's shared \<Rightarrow> 's shared" where
  "signal_done cfg d s = (if target_jobs cfg \<le> d then s\<lparr>done_flag := True\<rparr> else s)"

definition handle_message ::
  "worker_cfg \<Rightarrow> text_codec \<Rightarrow> int \<Rightarrow> string \<Rightarrow> 's shared \<Rightarrow> (unit, unit) outcome \<times> 's shared" where
  "handle_message cfg c t payload s =
     (case message_sample c t payload of
        Panicked m \<Rightarrow> (Panicked m, s)
      | Err e \<Rightarrow> (Err e, s)
      | Ok sample \<Rightarrow>
          let s = record_sample sample s;
              (d, m) = inc_completed (metrics s);
              s = s\<lparr>metrics := m\<rparr>
          in (Ok (), signal_done cfg d s))"

section \<open>The loop\<close>

fun worker_step ::
  "worker_cfg \<Rightarrow> text_codec \<Rightarrow> 's server \<Rightarrow> int \<Rightarrow> wpc \<Rightarrow> 's shared \<Rightarrow> wpc \<times> 's shared" where
  "worker_step cfg c sv t Top s =
     (if shutdown s then (Returned (Inr ()), s) else (Checking, s))"
| "worker_step cfg c sv t Checking s =
     (if target_jobs cfg \<le> get_completed (metrics s) then (Returned (Inr ()), s) else (Polling, s))"
| "worker_step cfg c sv t Polling s =
     (case sv_brpop sv (keys cfg) (brpop_timeout_secs cfg) (srv s) of
        (Inr (Some (k, payload)), b) \<Rightarrow> (Handling payload, s\<lparr>srv := b\<rparr>)
      | (Inr None, b) \<Rightarrow> (Top, s\<lparr>srv := b\<rparr>)
      | (Inl e, b) \<Rightarrow>
          if is_connection_dropped e \<or> is_io_error e
          then (Returned (Inl (RedisConnection e)), s\<lparr>srv := b\<rparr>)
          else (Backoff, s\<lparr>srv := b, metrics := inc_error (metrics s)\<rparr>))"
| "worker_step cfg c sv t (Handling payload) s =
     (case message_sample c t payload of
        Ok sample \<Rightarrow> (Counting, record_sample sample s)
      | Panicked m \<Rightarrow> (Crashed m, s)
      | Err e \<Rightarrow> (Crashed [], s))"
| "worker_step cfg c sv t Counting s =
     (let (d, m) = inc_completed (metrics s) in (Signalling d, s\<lparr>metrics := m\<rparr>))"
| "worker_step cfg c sv t (Signalling d) s = (Top, signal_done cfg d s)"
| "worker_step cfg c sv t Backoff s = (Top, s)"
| "worker_step cfg c sv t pc s = (pc, s)"

text \<open>
  The steps of a worker that runs alone, with the clock readings it makes: the loop as the source
  writes it, cut off when the readings run out.
\<close>

fun run_alone ::
  "worker_cfg \<Rightarrow> text_codec \<Rightarrow> 's server \<Rightarrow> int list \<Rightarrow> wpc \<Rightarrow> 's shared \<Rightarrow> wpc \<times> 's shared" where
  "run_alone cfg c sv [] pc s = (pc, s)"
| "run_alone cfg c sv (t # ts) pc s =
     (let (pc', s') = worker_step cfg c sv t pc s in run_alone cfg c sv ts pc' s')"

section \<open>Lemmas\<close>

lemma latency_us_pos: "1 \<le> latency_us n e"
  by (simp add: latency_us_def)

lemma message_sample_not_Err: "message_sample c t payload \<noteq> Err e"
  by (auto simp: message_sample_def unix_now_ns_def split: option.splits)

lemma message_sample_pos: "message_sample c t payload = Ok (Some us) \<Longrightarrow> 1 \<le> us"
  by (auto simp: message_sample_def unix_now_ns_def latency_us_pos split: option.splits if_splits)

lemma message_sample_marker:
  "message_sample c t payload =
     (case payload_marker c payload of
        None \<Rightarrow> Ok None
      | Some enqueued \<Rightarrow> bind_outcome (unix_now_ns t) (\<lambda>now. Ok (Some (latency_us now enqueued))))"
  by (auto simp: message_sample_def payload_marker_def split: option.splits)

lemma record_sample_frame [simp]:
  "srv (record_sample x s) = srv s" "done_flag (record_sample x s) = done_flag s"
  "shutdown (record_sample x s) = shutdown s"
  "completed (metrics (record_sample x s)) = completed (metrics s)"
  by (auto simp: record_sample_def inc_error_def split: option.splits)

lemma record_sample_latencies:
  "latencies (record_sample x s) = latencies s @ (case x of None \<Rightarrow> [] | Some us \<Rightarrow> [us])"
  by (simp add: record_sample_def split: option.splits)

lemma record_sample_errors:
  "errors (metrics (record_sample x s)) = errors (metrics s) + (case x of None \<Rightarrow> 1 | Some us \<Rightarrow> 0)"
  by (simp add: record_sample_def inc_error_def split: option.splits)

lemma signal_done_frame [simp]:
  "srv (signal_done cfg d s) = srv s" "metrics (signal_done cfg d s) = metrics s"
  "latencies (signal_done cfg d s) = latencies s" "shutdown (signal_done cfg d s) = shutdown s"
  "done_flag (signal_done cfg d s) \<longleftrightarrow> done_flag s \<or> target_jobs cfg \<le> d"
  by (auto simp: signal_done_def)

text \<open>
  \<open>handle_message\<close> is the three atomic steps a worker makes from \<open>Handling\<close>, when nobody else
  moves between them.
\<close>

lemma handle_message_steps:
  "handle_message cfg c t payload s = (Ok (), s') \<longleftrightarrow>
   run_alone cfg c sv [t, t1, t2] (Handling payload) s = (Top, s')"
  by (auto simp: handle_message_def inc_completed_def Let_def message_sample_not_Err
      split: outcome.splits)

end
