(* ===== verification/Producer.thy ===== *)
theory Producer
  imports Envelope Redis
begin

text \<open>
  \<open>src/src/producer.rs\<close>: clearing the queue keys, \<open>FLUSHDB\<close>, the round-robin choice of a queue
  and a priority for job \<open>i\<close>, and the batched bulk enqueue. The locale \<open>fair_dispatch\<close> is the
  contract of the choice: over any whole cycle every slot is chosen exactly once.
\<close>

section \<open>Clearing\<close>

definition clear_queue ::
  "'s server \<Rightarrow> string list \<Rightarrow> 's \<Rightarrow> (redis_error, unit) outcome \<times> 's" where
  "clear_queue sv queues s =
     (case sv_pipe sv (map DEL (brpop_keys queues)) s of
        (Inr _, s') \<Rightarrow> (Ok (), s') | (Inl e, s') \<Rightarrow> (Err e, s'))"

definition flushdb :: "'s server \<Rightarrow> 's \<Rightarrow> (redis_error, unit) outcome \<times> 's" where
  "flushdb sv s =
     (case sv_pipe sv [FLUSHDB] s of (Inr _, s') \<Rightarrow> (Ok (), s') | (Inl e, s') \<Rightarrow> (Err e, s'))"

section \<open>Round robin\<close>

definition round_robin_indices :: "u64 \<Rightarrow> u64 \<Rightarrow> u64 \<Rightarrow> ('e, u64 \<times> u64) outcome" where
  "round_robin_indices i n_queues n_priorities =
     (if n_queues = 0 then Panicked ''attempt to calculate the remainder with a divisor of zero''
      else if n_priorities = 0
      then Panicked ''attempt to calculate the remainder with a divisor of zero''
      else Ok (i mod n_queues, (i div n_queues) mod n_priorities))"

section \<open>Bulk enqueue\<close>

definition BATCH_SIZE :: u64 where
  "BATCH_SIZE = 1000"

text \<open>\<open>v[i]\<close> of a slice or vector.\<close>

definition index_vec :: "'a list \<Rightarrow> nat \<Rightarrow> ('e, 'a) outcome" where
  "index_vec xs i = (if i < length xs then Ok (xs ! i) else Panicked ''index out of bounds'')"

text \<open>The body of the inner loop: the command of job \<open>i\<close>, built at the moment \<open>st (unat i)\<close>.\<close>

definition job_cmd ::
  "text_codec \<Rightarrow> (nat \<Rightarrow> stamp) \<Rightarrow> string list \<Rightarrow> u8 list \<Rightarrow> u64 \<Rightarrow>
   (redis_error, redis_cmd) outcome" where
  "job_cmd c st queues priorities i =
     bind_outcome (round_robin_indices i (of_nat (length queues)) (of_nat (length priorities)))
       (\<lambda>(q_idx, p_idx).
     bind_outcome (index_vec queues (unat q_idx)) (\<lambda>queue.
     bind_outcome (index_vec priorities (unat p_idx)) (\<lambda>prio.
     bind_outcome (envelope_new c (st (unat i)) queue prio i) (\<lambda>envelope.
     Ok (LPUSH (q_for_pri queue prio) (env_to_string c envelope))))))"

definition batch_cmds ::
  "text_codec \<Rightarrow> (nat \<Rightarrow> stamp) \<Rightarrow> string list \<Rightarrow> u8 list \<Rightarrow> u64 \<Rightarrow> nat \<Rightarrow>
   (redis_error, redis_cmd list) outcome" where
  "batch_cmds c st queues priorities idx batch =
     collect_outcome (\<lambda>j. job_cmd c st queues priorities (idx + of_nat j)) [0..<batch]"

lemma batch_bounds:
  assumes "remaining \<noteq> 0"
  shows "unat (min remaining BATCH_SIZE) = min (unat remaining) 1000"
    and "0 < unat (min remaining BATCH_SIZE)"
    and "unat (remaining - min remaining BATCH_SIZE) = unat remaining - unat (min remaining BATCH_SIZE)"
proof -
  show m: "unat (min remaining BATCH_SIZE) = min (unat remaining) 1000"
    by (simp add: min_def BATCH_SIZE_def word_le_nat_alt)
  with assms show "0 < unat (min remaining BATCH_SIZE)"
    by (simp add: unat_gt_0)
  show "unat (remaining - min remaining BATCH_SIZE) = unat remaining - unat (min remaining BATCH_SIZE)"
    by (rule unat_sub) simp
qed

function bulk_loop ::
  "text_codec \<Rightarrow> (nat \<Rightarrow> stamp) \<Rightarrow> 's server \<Rightarrow> string list \<Rightarrow> u8 list \<Rightarrow> u64 \<Rightarrow> u64 \<Rightarrow> 's \<Rightarrow>
   (redis_error, unit) outcome \<times> 's" where
  "bulk_loop c st sv queues priorities idx remaining s =
     (if remaining = 0 then (Ok (), s)
      else let batch = min remaining BATCH_SIZE in
        case batch_cmds c st queues priorities idx (unat batch) of
          Err e \<Rightarrow> (Err e, s)
        | Panicked m \<Rightarrow> (Panicked m, s)
        | Ok pipe \<Rightarrow>
            (case sv_pipe sv pipe s of
               (Inl e, s') \<Rightarrow> (Err e, s')
             | (Inr _, s') \<Rightarrow>
                 bulk_loop c st sv queues priorities (idx + batch) (remaining - batch) s'))"
  by pat_completeness auto

termination
proof (relation "measure (\<lambda>(c, st, sv, queues, priorities, idx, remaining, s). unat remaining)",
    goal_cases)
  case (2 c st sv queues priorities idx remaining s)
  then show ?case
    using batch_bounds [of remaining] by simp
qed simp

declare bulk_loop.simps [simp del]

definition bulk_enqueue ::
  "text_codec \<Rightarrow> (nat \<Rightarrow> stamp) \<Rightarrow> 's server \<Rightarrow> string list \<Rightarrow> u8 list \<Rightarrow> u64 \<Rightarrow> 's \<Rightarrow>
   (redis_error, unit) outcome \<times> 's" where
  "bulk_enqueue c st sv queues priorities n_jobs s =
     bulk_loop c st sv queues priorities 0 n_jobs s"

section \<open>The choice is fair\<close>

text \<open>
  \<open>pick d i\<close> is the slot of job \<open>i\<close> in a configuration \<open>d\<close>, \<open>window\<close> says that the jobs of each
  whole cycle below the bound \<open>limit\<close> take each slot exactly once.
\<close>

locale fair_dispatch =
  fixes valid :: "'d \<Rightarrow> bool" and cycle_len :: "'d \<Rightarrow> nat" and slots :: "'d \<Rightarrow> 's set"
    and pick :: "'d \<Rightarrow> nat \<Rightarrow> 's" and limit :: nat
  assumes window: "valid d \<Longrightarrow> Suc k * cycle_len d \<le> limit \<Longrightarrow>
     bij_betw (pick d) {k * cycle_len d..<Suc k * cycle_len d} (slots d)"
begin

lemma once_per_window:
  assumes "valid d" and "Suc k * cycle_len d \<le> limit" and "s \<in> slots d"
  shows "card {i \<in> {k * cycle_len d..<Suc k * cycle_len d}. pick d i = s} = 1"
proof -
  let ?w = "{k * cycle_len d..<Suc k * cycle_len d}"
  from window [OF assms(1,2)] have inj: "inj_on (pick d) ?w" and im: "pick d ` ?w = slots d"
    by (auto simp: bij_betw_def)
  from im assms(3) obtain i where i: "i \<in> ?w" "s = pick d i" by blast
  have "{j \<in> ?w. pick d j = s} = {i}"
    unfolding i(2) using i(1) by (auto dest: inj_onD [OF inj])
  then show ?thesis by simp
qed

lemma whole_cycles:
  assumes "valid d" and "c * cycle_len d \<le> limit" and "s \<in> slots d"
  shows "card {i \<in> {..<c * cycle_len d}. pick d i = s} = c"
  using assms(2)
proof (induction c)
  case (Suc c)
  let ?w = "{c * cycle_len d..<Suc c * cycle_len d}"
  have split: "{i \<in> {..<Suc c * cycle_len d}. pick d i = s}
      = {i \<in> {..<c * cycle_len d}. pick d i = s} \<union> {i \<in> ?w. pick d i = s}"
    by auto
  have "card {i \<in> {..<Suc c * cycle_len d}. pick d i = s}
      = card {i \<in> {..<c * cycle_len d}. pick d i = s} + card {i \<in> ?w. pick d i = s}"
    unfolding split by (rule card_Un_disjoint) auto
  also have "\<dots> = c + 1"
    using Suc.IH Suc.prems once_per_window [OF assms(1) Suc.prems assms(3)] by simp
  finally show ?case by simp
qed simp

lemma spread:
  assumes "valid d" and "0 < cycle_len d" and "Suc (n div cycle_len d) * cycle_len d \<le> limit"
    and "s \<in> slots d"
  shows "n div cycle_len d \<le> card {i \<in> {..<n}. pick d i = s}"
    and "card {i \<in> {..<n}. pick d i = s} \<le> Suc (n div cycle_len d)"
proof -
  let ?c = "n div cycle_len d"
  have lo: "?c * cycle_len d \<le> n" by simp
  have hi: "n \<le> Suc ?c * cycle_len d"
    using dividend_less_div_times [OF assms(2), of n] by simp
  have lim: "?c * cycle_len d \<le> limit"
    using assms(3) by simp
  have "?c = card {i \<in> {..<?c * cycle_len d}. pick d i = s}"
    using whole_cycles [OF assms(1) lim assms(4)] by simp
  also have "\<dots> \<le> card {i \<in> {..<n}. pick d i = s}"
    by (intro card_mono) (auto elim: less_le_trans [OF _ lo])
  finally show "?c \<le> card {i \<in> {..<n}. pick d i = s}" .
  have "card {i \<in> {..<n}. pick d i = s} \<le> card {i \<in> {..<Suc ?c * cycle_len d}. pick d i = s}"
    by (intro card_mono) (use hi in auto)
  also have "\<dots> = Suc ?c"
    using whole_cycles [OF assms(1) assms(3) assms(4)] .
  finally show "card {i \<in> {..<n}. pick d i = s} \<le> Suc ?c" .
qed

end

definition rr_valid :: "u64 \<times> u64 \<Rightarrow> bool" where
  "rr_valid d \<longleftrightarrow> fst d \<noteq> 0 \<and> snd d \<noteq> 0"

definition rr_cycle :: "u64 \<times> u64 \<Rightarrow> nat" where
  "rr_cycle d = unat (fst d) * unat (snd d)"

definition rr_slots :: "u64 \<times> u64 \<Rightarrow> (unit, u64 \<times> u64) outcome set" where
  "rr_slots d = {Ok (q, p) | q p. q < fst d \<and> p < snd d}"

lemma rr_unat:
  assumes "rr_valid (a, b)" and "i < 2 ^ 64"
  shows "\<exists>q p. round_robin_indices (of_nat i) a b = Ok (q, p) \<and>
     unat q = i mod unat a \<and> unat p = i div unat a mod unat b \<and> q < a \<and> p < b"
proof -
  have i: "unat (of_nat i :: u64) = i"
    using assms(2) by (simp add: unsigned_of_nat take_bit_nat_eq_self)
  from assms(1) have pos: "0 < unat a" "0 < unat b"
    by (auto simp: rr_valid_def unat_gt_0)
  from assms(1) show ?thesis
    by (simp add: round_robin_indices_def rr_valid_def unat_mod unat_div i word_less_nat_alt pos)
qed

lemma div_mod_window:
  assumes "k * (a * b) \<le> i" and "i < Suc k * (a * b)" and "0 < (a::nat)"
  shows "i = k * (a * b) + (i div a mod b) * a + i mod a"
proof -
  have "i div (a * b) = k"
    using assms by (intro div_nat_eqI) (simp_all add: mult.commute)
  then have k: "i div a div b = k" by (simp add: div_mult2_eq)
  define m where "m = i div a mod b"
  with k have e: "i div a = k * b + m"
    by (metis div_mult_mod_eq)
  have "i = (k * b + m) * a + i mod a"
    using div_mult_mod_eq [of i a] by (simp only: e)
  then show ?thesis
    by (simp add: m_def [symmetric] algebra_simps)
qed

interpretation round_robin: fair_dispatch rr_valid rr_cycle rr_slots
    "\<lambda>d i. round_robin_indices (of_nat i) (fst d) (snd d)" "2 ^ 64"
proof (unfold_locales, goal_cases)
  case (1 d k)
  obtain a b where d: "d = (a, b)" by (cases d)
  let ?w = "{k * rr_cycle d..<Suc k * rr_cycle d}"
  let ?f = "\<lambda>i. round_robin_indices (of_nat i) a b :: (unit, u64 \<times> u64) outcome"
  from 1 have pos: "0 < unat a" "0 < unat b" by (auto simp: d rr_valid_def unat_gt_0)
  have f: "\<exists>q p. ?f i = Ok (q, p) \<and> unat q = i mod unat a \<and> unat p = i div unat a mod unat b
      \<and> q < a \<and> p < b" if "i \<in> ?w" for i
    using rr_unat [of a b i] 1 that by (simp add: d)
  have inj: "inj_on ?f ?w"
  proof (rule inj_onI)
    fix i j assume ij: "i \<in> ?w" "j \<in> ?w" "?f i = ?f j"
    with f [of i] f [of j] have "i mod unat a = j mod unat a"
      and "i div unat a mod unat b = j div unat a mod unat b" by auto
    with div_mod_window [of k "unat a" "unat b" i] div_mod_window [of k "unat a" "unat b" j] ij pos
    show "i = j" by (simp add: d rr_cycle_def)
  qed
  have sub: "?f ` ?w \<subseteq> rr_slots d"
    using f by (fastforce simp: rr_slots_def d)
  have slots: "rr_slots (a, b) = Ok ` ({..<a} \<times> {..<b})"
    by (auto simp: rr_slots_def d)
  have unat_lt: "card {..<x} = unat x" for x :: u64
  proof -
    have "unat ` {..<x} = {..<unat x}"
    proof (intro subset_antisym subsetI)
      fix n assume "n \<in> {..<unat x}"
      moreover from this have "n < 2 ^ 64"
        using unsigned_less [where w = x and 'a = nat] by simp
      ultimately have "n = unat (of_nat n :: u64)" "of_nat n < x"
        by (simp_all add: unsigned_of_nat take_bit_nat_eq_self word_less_nat_alt)
      then show "n \<in> unat ` {..<x}" by blast
    qed (auto simp: word_less_nat_alt)
    then show ?thesis
      by (metis card_image card_lessThan inj_on_subset subset_UNIV inj_unsigned)
  qed
  have "card (?f ` ?w) = card (rr_slots d)"
    using card_image [OF inj]
    by (simp add: slots card_image inj_on_def card_cartesian_product unat_lt rr_cycle_def d)
  moreover have "finite (rr_slots d)" by (simp add: d slots)
  ultimately have "?f ` ?w = rr_slots d"
    using sub by (metis card_subset_eq)
  with inj show ?case by (simp add: bij_betw_def d)
qed

end
