(* ===== verification/Enqueue.thy ===== *)
theory Enqueue
  imports Producer
begin

text \<open>
  What \<open>producer::bulk_enqueue\<close> and \<open>clear_queue\<close> achieve on the broker. The abstract
  specification is a list of jobs in order: job \<open>i\<close> goes to \<open>job_key\<close> with \<open>job_payload\<close>; the
  batched loop refines it, whatever the batch boundaries.
\<close>

section \<open>The jobs in the abstract\<close>

definition job_queue :: "string list \<Rightarrow> nat \<Rightarrow> string" where
  "job_queue queues i = queues ! (i mod length queues)"

definition job_priority :: "string list \<Rightarrow> u8 list \<Rightarrow> nat \<Rightarrow> u8" where
  "job_priority queues priorities i = priorities ! (i div length queues mod length priorities)"

definition job_key :: "string list \<Rightarrow> u8 list \<Rightarrow> nat \<Rightarrow> string" where
  "job_key queues priorities i =
     q_for_pri (job_queue queues i) (job_priority queues priorities i)"

definition job_payload ::
  "text_codec \<Rightarrow> (nat \<Rightarrow> stamp) \<Rightarrow> string list \<Rightarrow> u8 list \<Rightarrow> nat \<Rightarrow> string" where
  "job_payload c st queues priorities i =
     (case envelope_new c (st i) (job_queue queues i) (job_priority queues priorities i) (of_nat i)
        :: (redis_error, celery_envelope) outcome
      of Ok e \<Rightarrow> env_to_string c e | _ \<Rightarrow> [])"

definition plan_ok :: "string list \<Rightarrow> u8 list \<Rightarrow> (nat \<Rightarrow> stamp) \<Rightarrow> bool" where
  "plan_ok queues priorities st \<longleftrightarrow>
     queues \<noteq> [] \<and> priorities \<noteq> [] \<and> length queues < 2 ^ 64 \<and> length priorities < 2 ^ 64 \<and>
     list_all utf8_valid queues \<and> (\<forall>i. stamp_ok (st i))"

lemma envelope_new_exists:
  "stamp_ok st \<Longrightarrow> \<exists>e. envelope_new c st queue prio idx = Ok e"
  by (simp add: envelope_new_def stamp_ok_def unix_now_ns_Ok)

lemma unat_of_nat_u64: "n < 2 ^ 64 \<Longrightarrow> unat (of_nat n :: u64) = n"
  by (simp add: unsigned_of_nat take_bit_nat_eq_self)

lemma job_cmd_Ok:
  assumes "plan_ok queues priorities st" and "i < 2 ^ 64"
  shows "job_cmd c st queues priorities (of_nat i) =
     Ok (LPUSH (job_key queues priorities i) (job_payload c st queues priorities i))"
proof -
  let ?a = "of_nat (length queues) :: u64" and ?b = "of_nat (length priorities) :: u64"
  from assms(1) have len: "0 < length queues" "0 < length priorities"
      "unat ?a = length queues" "unat ?b = length priorities" and st: "stamp_ok (st i)"
    by (auto simp: plan_ok_def unat_of_nat_u64)
  have "rr_valid (?a, ?b)"
    using len unat_gt_0 [of ?a] unat_gt_0 [of ?b] by (simp add: rr_valid_def)
  from rr_unat [OF this assms(2)] obtain q p
    where rr: "round_robin_indices (of_nat i) ?a ?b = (Ok (q, p) :: (redis_error, u64 \<times> u64) outcome)"
      and q: "unat q = i mod length queues" and p: "unat p = i div length queues mod length priorities"
    unfolding len(3,4) by metis
  have iv: "index_vec queues (unat q) = Ok (job_queue queues i)"
      "index_vec priorities (unat p) = Ok (job_priority queues priorities i)"
    using len(1,2) by (simp_all add: index_vec_def q p job_queue_def job_priority_def)
  obtain e where e: "envelope_new c (st i) (job_queue queues i)
      (job_priority queues priorities i) (of_nat i) = (Ok e :: (redis_error, celery_envelope) outcome)"
    using envelope_new_exists [OF st] by blast
  show ?thesis
    by (simp add: job_cmd_def rr iv unat_of_nat_u64 [OF assms(2)] e job_key_def job_payload_def)
qed

lemma batch_cmds_Ok:
  assumes "plan_ok queues priorities st" and "n \<le> 2 ^ 64"
  shows "batch_cmds c st queues priorities 0 n =
     Ok (map (\<lambda>i. LPUSH (job_key queues priorities i) (job_payload c st queues priorities i)) [0..<n])"
  using job_cmd_Ok [OF assms(1)] assms(2)
  by (auto simp: batch_cmds_def collect_outcome_Ok_iff list_all2_conv_all_nth)

section \<open>The batched loop refines the list of jobs\<close>

lemma collect_outcome_append:
  "collect_outcome f (xs @ ys) =
     bind_outcome (collect_outcome f xs) (\<lambda>us. bind_outcome (collect_outcome f ys) (\<lambda>vs. Ok (us @ vs)))"
proof (induction xs)
  case Nil
  then show ?case by (cases "collect_outcome f ys") auto
next
  case (Cons x xs)
  then show ?case
    by (cases "f x"; cases "collect_outcome f xs"; cases "collect_outcome f ys") auto
qed

lemma collect_outcome_map: "collect_outcome f (map g xs) = collect_outcome (\<lambda>x. f (g x)) xs"
  by (induction xs) auto

lemma upt_add_map: "[0..<m + n] = [0..<m] @ map (\<lambda>j. m + j) [0..<n]"
  by (rule nth_equalityI) (auto simp: nth_append)

lemma batch_cmds_add:
  "batch_cmds c st queues priorities idx (m + n) =
     bind_outcome (batch_cmds c st queues priorities idx m) (\<lambda>us.
     bind_outcome (batch_cmds c st queues priorities (idx + of_nat m) n) (\<lambda>vs. Ok (us @ vs)))"
  unfolding batch_cmds_def upt_add_map collect_outcome_append collect_outcome_map
  by (simp only: of_nat_add add.assoc)

lemma bulk_loop_split:
  "remaining \<noteq> 0 \<Longrightarrow>
   batch_cmds c st queues priorities idx (unat remaining) =
     bind_outcome (batch_cmds c st queues priorities idx (unat (min remaining BATCH_SIZE))) (\<lambda>us.
     bind_outcome (batch_cmds c st queues priorities (idx + min remaining BATCH_SIZE)
        (unat (remaining - min remaining BATCH_SIZE))) (\<lambda>vs. Ok (us @ vs)))"
proof -
  assume "remaining \<noteq> 0"
  then have "unat remaining
      = unat (min remaining BATCH_SIZE) + unat (remaining - min remaining BATCH_SIZE)"
    using batch_bounds [of remaining] by simp
  moreover have "of_nat (unat (min remaining BATCH_SIZE)) = min remaining BATCH_SIZE"
    by simp
  ultimately show ?thesis
    using batch_cmds_add [of c st queues priorities idx "unat (min remaining BATCH_SIZE)"
      "unat (remaining - min remaining BATCH_SIZE)"] by (simp only:)
qed

lemma bulk_loop_0: "bulk_loop c st sv queues priorities idx 0 s = (Ok (), s)"
  by (simp add: bulk_loop.simps [of c st sv queues priorities idx 0 s])

lemma bulk_loop_step:
  assumes "remaining \<noteq> 0"
    and "bulk_loop c st sv queues priorities idx remaining s = (Ok (), s')"
  shows "\<exists>pipe s1. batch_cmds c st queues priorities idx (unat (min remaining BATCH_SIZE)) = Ok pipe \<and>
    sv_pipe sv pipe s = (Inr (), s1) \<and>
    bulk_loop c st sv queues priorities (idx + min remaining BATCH_SIZE)
       (remaining - min remaining BATCH_SIZE) s1 = (Ok (), s')"
proof (cases "batch_cmds c st queues priorities idx (unat (min remaining BATCH_SIZE))")
  case (Ok pipe)
  obtain r s1 where "sv_pipe sv pipe s = (r, s1)" by fastforce
  with Ok assms show ?thesis
    by (cases r) (simp_all add: bulk_loop.simps [of c st sv queues priorities idx remaining s] Let_def)
qed (use assms in \<open>simp_all add: bulk_loop.simps [of c st sv queues priorities idx remaining s] Let_def\<close>)

lemma bulk_loop_effect:
  "server_ok sv \<Longrightarrow> bulk_loop c st sv queues priorities idx remaining s = (Ok (), s') \<Longrightarrow>
   \<exists>cmds. batch_cmds c st queues priorities idx (unat remaining) = Ok cmds
     \<and> sv_lists sv s' = fold cmd_effect cmds (sv_lists sv s)"
proof (induction "unat remaining" arbitrary: idx remaining s rule: less_induct)
  case less
  show ?case
  proof (cases "remaining = 0")
    case True
    with less.prems show ?thesis
      by (simp add: bulk_loop_0 batch_cmds_def)
  next
    case False
    let ?b = "min remaining BATCH_SIZE"
    from bulk_loop_step [OF False less.prems(2)] obtain pipe s1 where
      1: "batch_cmds c st queues priorities idx (unat ?b) = Ok pipe"
         "sv_pipe sv pipe s = (Inr (), s1)"
         "bulk_loop c st sv queues priorities (idx + ?b) (remaining - ?b) s1 = (Ok (), s')"
      by blast
    have "unat (remaining - ?b) < unat remaining"
      using batch_bounds [OF False] by simp
    from less.hyps [OF this less.prems(1) 1(3)] obtain cmds where
      2: "batch_cmds c st queues priorities (idx + ?b) (unat (remaining - ?b)) = Ok cmds"
         "sv_lists sv s' = fold cmd_effect cmds (sv_lists sv s1)"
      by blast
    have "batch_cmds c st queues priorities idx (unat remaining) = Ok (pipe @ cmds)"
      using bulk_loop_split [OF False, of c st queues priorities idx] 1(1) 2(1) by simp
    moreover have "sv_lists sv s' = fold cmd_effect (pipe @ cmds) (sv_lists sv s)"
      using 2(2) server_ok_pipe [OF less.prems(1) 1(2)] by simp
    ultimately show ?thesis by blast
  qed
qed

lemma bulk_loop_returns:
  "(\<And>cs s. \<exists>s'. sv_pipe sv cs s = (Inr (), s')) \<Longrightarrow>
   batch_cmds c st queues priorities idx (unat remaining) = Ok cmds \<Longrightarrow>
   \<exists>s'. bulk_loop c st sv queues priorities idx remaining s = (Ok (), s')"
proof (induction "unat remaining" arbitrary: idx remaining s cmds rule: less_induct)
  case less
  show ?case
  proof (cases "remaining = 0")
    case True
    then show ?thesis by (simp add: bulk_loop_0)
  next
    case False
    let ?b = "min remaining BATCH_SIZE"
    from less.prems(2) obtain us vs where
      1: "batch_cmds c st queues priorities idx (unat ?b) = Ok us"
         "batch_cmds c st queues priorities (idx + ?b) (unat (remaining - ?b)) = Ok vs"
      by (auto simp: bulk_loop_split [OF False] outcome_simps)
    obtain s1 where 2: "sv_pipe sv us s = (Inr (), s1)" using less.prems(1) by blast
    have "unat (remaining - ?b) < unat remaining"
      using batch_bounds [OF False] by simp
    from less.hyps [OF this less.prems(1) 1(2)] obtain s' where
      "bulk_loop c st sv queues priorities (idx + ?b) (remaining - ?b) s1 = (Ok (), s')" by blast
    with False 1(1) 2 show ?thesis
      by (simp add: bulk_loop.simps [of c st sv queues priorities idx remaining s] Let_def)
  qed
qed

section \<open>What is stored afterwards\<close>

lemma fold_pushes:
  "fold cmd_effect (map (\<lambda>i. LPUSH (key i) (val i)) js) m k =
     rev (map val (filter (\<lambda>i. key i = k) js)) @ m k"
  by (induction js arbitrary: m) auto

lemma bulk_enqueue_lists:
  assumes "server_ok sv" and "plan_ok queues priorities st"
    and "bulk_enqueue c st sv queues priorities n_jobs s = (Ok (), s')"
  shows "sv_lists sv s' k =
     rev (map (job_payload c st queues priorities)
       (filter (\<lambda>i. job_key queues priorities i = k) [0..<unat n_jobs])) @ sv_lists sv s k"
proof -
  have n: "unat n_jobs \<le> 2 ^ 64"
    using unsigned_less [where w = n_jobs and 'a = nat] by simp
  from bulk_loop_effect [OF assms(1) assms(3) [unfolded bulk_enqueue_def]]
  have "sv_lists sv s' = fold cmd_effect (map (\<lambda>i. LPUSH (job_key queues priorities i)
      (job_payload c st queues priorities i)) [0..<unat n_jobs]) (sv_lists sv s)"
    by (simp add: batch_cmds_Ok [OF assms(2) n])
  then show ?thesis by (simp only: fold_pushes)
qed

end
