(* ===== verification/Fleet.thy ===== *)
theory Fleet
  imports Worker Enqueue
begin

text \<open>
  The worker pool of a trial as \<open>run_trial\<close> of \<open>src/src/main.rs\<close> runs it: \<open>n\<close> workers whose atomic
  steps interleave in any order, the orchestrator, which may raise the shutdown flag and abort
  workers that wait, and a broker whose state may change between commands as long as the lists the
  trial uses do not (no other client touches the benchmark's keys). The invariants say that no
  message is counted twice, that at most one message is lost per worker that failed, that the
  samples and errors add up to the messages counted, and when the done signal is raised.
\<close>

section \<open>The pool and its steps\<close>

record 's pool =
  sh :: "'s shared"
  pcs :: "wpc list"

definition pool_init :: "nat \<Rightarrow> 's \<Rightarrow> 's pool" where
  "pool_init n s0 =
     \<lparr>sh = \<lparr>srv = s0, metrics = metrics_new, latencies = [], done_flag = False, shutdown = False\<rparr>,
      pcs = replicate n Top\<rparr>"

text \<open>Where \<open>abort_all\<close> can take effect: before a task first runs, and at its awaits.\<close>

fun abortable :: "wpc \<Rightarrow> bool" where
  "abortable Top = True"
| "abortable Polling = True"
| "abortable Backoff = True"
| "abortable pc = False"

inductive pool_step ::
  "worker_cfg \<Rightarrow> text_codec \<Rightarrow> 's server \<Rightarrow> 's pool \<Rightarrow> 's pool \<Rightarrow> bool"
  for cfg c sv where
  work: "\<lbrakk>i < length (pcs p); \<not> terminal (pcs p ! i);
          worker_step cfg c sv t (pcs p ! i) (sh p) = (pc', s')\<rbrakk>
         \<Longrightarrow> pool_step cfg c sv p (p\<lparr>sh := s', pcs := (pcs p)[i := pc']\<rparr>)"
| stop: "pool_step cfg c sv p (p\<lparr>sh := (sh p)\<lparr>shutdown := True\<rparr>\<rparr>)"
| abort: "\<lbrakk>i < length (pcs p); abortable (pcs p ! i)\<rbrakk>
         \<Longrightarrow> pool_step cfg c sv p (p\<lparr>pcs := (pcs p)[i := Aborted]\<rparr>)"
| abort_in_flight: "\<lbrakk>i < length (pcs p); pcs p ! i = Polling;
          sv_brpop sv (keys cfg) (brpop_timeout_secs cfg) (srv (sh p)) = (r, b)\<rbrakk>
         \<Longrightarrow> pool_step cfg c sv p (p\<lparr>sh := (sh p)\<lparr>srv := b\<rparr>, pcs := (pcs p)[i := Aborted]\<rparr>)"
| broker: "sv_lists sv b = sv_lists sv (srv (sh p))
         \<Longrightarrow> pool_step cfg c sv p (p\<lparr>sh := (sh p)\<lparr>srv := b\<rparr>\<rparr>)"

definition pool_run ::
  "worker_cfg \<Rightarrow> text_codec \<Rightarrow> 's server \<Rightarrow> nat \<Rightarrow> 's \<Rightarrow> 's pool \<Rightarrow> bool" where
  "pool_run cfg c sv n s0 p \<longleftrightarrow> (pool_step cfg c sv)\<^sup>*\<^sup>* (pool_init n s0) p"

text \<open>An invariant of the initial pool that every step keeps holds throughout the run.\<close>

lemma pool_run_invariant:
  assumes "pool_run cfg c sv n s0 p" and "I (pool_init n s0)"
    and "\<And>p p'. I p \<Longrightarrow> pool_step cfg c sv p p' \<Longrightarrow> I p'"
  shows "I p"
  using assms(1) unfolding pool_run_def
  by (induction rule: rtranclp_induct) (auto intro: assms(2,3))

section \<open>What a worker holds\<close>

text \<open>A payload taken from the broker and not yet counted.\<close>

fun holds :: "wpc \<Rightarrow> nat" where
  "holds (Handling payload) = 1"
| "holds Counting = 1"
| "holds pc = 0"

text \<open>A payload counted next: the sample or the error of it is recorded.\<close>

fun counts :: "wpc \<Rightarrow> nat" where
  "counts Counting = 1"
| "counts pc = 0"

text \<open>A worker that failed, and may have taken a payload with it.\<close>

fun failed :: "wpc \<Rightarrow> nat" where
  "failed (Returned (Inl e)) = 1"
| "failed (Crashed m) = 1"
| "failed Aborted = 1"
| "failed pc = 0"

text \<open>A worker past the target check that has not counted its message yet.\<close>

fun busy :: "wpc \<Rightarrow> nat" where
  "busy Polling = 1"
| "busy (Handling payload) = 1"
| "busy Counting = 1"
| "busy pc = 0"

lemma terminal_weights: "terminal pc \<Longrightarrow> holds pc = 0 \<and> counts pc = 0 \<and> busy pc = 0"
  by (cases pc) auto

lemma abortable_weights: "abortable pc \<Longrightarrow> holds pc = 0 \<and> counts pc = 0 \<and> failed pc = 0"
  by (cases pc) auto

lemma live_not_failed: "\<not> terminal pc \<Longrightarrow> failed pc = 0"
  by (cases pc) auto

lemma holds_le: "holds pc \<le> 1" and counts_le: "counts pc \<le> 1" and busy_le: "busy pc \<le> 1"
  by (cases pc; simp)+

lemma failed_le: "failed pc \<le> 1"
  by (cases pc rule: failed.cases) simp_all

text \<open>The messages still stored under the keys of the trial.\<close>

definition waiting :: "worker_cfg \<Rightarrow> 's server \<Rightarrow> 's shared \<Rightarrow> nat" where
  "waiting cfg sv s = stored (keys cfg) (sv_lists sv (srv s))"

abbreviation counted :: "'s shared \<Rightarrow> nat" where
  "counted s \<equiv> unat (completed (metrics s))"

section \<open>One step of one worker\<close>

lemma waiting_cong: "sv_lists sv (srv s') = sv_lists sv (srv s) \<Longrightarrow> waiting cfg sv s' = waiting cfg sv s"
  by (simp add: waiting_def)

lemma waiting_frame [simp]:
  "waiting cfg sv (s\<lparr>metrics := m\<rparr>) = waiting cfg sv s"
  "waiting cfg sv (s\<lparr>shutdown := f\<rparr>) = waiting cfg sv s"
  "waiting cfg sv (record_sample x s) = waiting cfg sv s"
  "waiting cfg sv (signal_done cfg d s) = waiting cfg sv s"
  by (simp_all add: waiting_def)

text \<open>The four outcomes of a poll.\<close>

lemma waiting_taken:
  assumes "distinct (keys cfg)"
    and "brpop_effect (keys cfg) (sv_lists sv (srv s)) = Some (kv, sv_lists sv (srv s'))"
  shows "Suc (waiting cfg sv s') = waiting cfg sv s"
    and "snd kv \<in> stored_set (keys cfg) (sv_lists sv (srv s))"
  using brpop_effect_stored [OF assms(1)] brpop_effect_set(1) assms(2)
  by (cases kv; auto simp: waiting_def)+

text \<open>A broken connection may have taken a message with it.\<close>

lemma waiting_dead:
  assumes "server_ok sv" and "distinct (keys cfg)"
    and "sv_brpop sv (keys cfg) t (srv s) = (Inl e, srv s')"
  shows "waiting cfg sv s' \<le> waiting cfg sv s \<and> waiting cfg sv s \<le> Suc (waiting cfg sv s')"
  using server_ok_brpop(4) [OF assms(1,3) refl]
proof (elim disjE exE)
  fix kv assume "brpop_effect (keys cfg) (sv_lists sv (srv s)) = Some (kv, sv_lists sv (srv s'))"
  from waiting_taken(1) [OF assms(2) this] show ?thesis by simp
qed (simp add: waiting_def)

lemma poll_cases:
  assumes "server_ok sv" and "distinct (keys cfg)"
    and "worker_step cfg c sv t Polling s = (pc', s')"
  obtains (message) payload where "pc' = Handling payload" "metrics s' = metrics s"
      "latencies s' = latencies s" "Suc (waiting cfg sv s') = waiting cfg sv s"
      "payload \<in> stored_set (keys cfg) (sv_lists sv (srv s))"
  | (quiet) "pc' = Top" "metrics s' = metrics s" "latencies s' = latencies s"
      "waiting cfg sv s' = waiting cfg sv s"
  | (dead) e where "pc' = Returned (Inl (RedisConnection e))" "metrics s' = metrics s"
      "latencies s' = latencies s" "fatal_error e"
      "waiting cfg sv s' \<le> waiting cfg sv s" "waiting cfg sv s \<le> Suc (waiting cfg sv s')"
  | (error) e where "pc' = Backoff" "metrics s' = inc_error (metrics s)" "latencies s' = latencies s"
      "waiting cfg sv s' = waiting cfg sv s" "\<not> fatal_error e"
      "sv_brpop sv (keys cfg) (brpop_timeout_secs cfg) (srv s) = (Inl e, srv s')"
proof -
  obtain r b where rb: "sv_brpop sv (keys cfg) (brpop_timeout_secs cfg) (srv s) = (r, b)"
    by fastforce
  note law = server_ok_brpop [OF assms(1) rb]
  show thesis
  proof (cases r)
    case (Inl e)
    show thesis
    proof (cases "fatal_error e")
      case True
      from True assms(3) have s': "pc' = Returned (Inl (RedisConnection e))" "s' = s\<lparr>srv := b\<rparr>"
        by (auto simp: rb Inl fatal_error_def)
      with True waiting_dead [OF assms(1,2), of _ s e s'] rb show thesis
        by (intro dead) (simp_all add: Inl)
    next
      case False
      with law(3) [OF Inl] assms(3) rb show thesis
        by (intro error [of e]) (auto simp: Inl waiting_def fatal_error_def)
    qed
  next
    case (Inr reply)
    show thesis
    proof (cases reply)
      case None
      with law(2) assms(3) show thesis
        by (intro quiet) (auto simp: rb Inr waiting_def)
    next
      case (Some kv)
      obtain k v where kv: "kv = (k, v)" by fastforce
      from assms(3) have s': "pc' = Handling v" "s' = s\<lparr>srv := b\<rparr>"
        by (auto simp: rb Inr Some kv)
      with law(1) [of kv] waiting_taken [OF assms(2), of sv s kv s'] show thesis
        by (intro message [of v]) (simp_all add: Some Inr kv)
    qed
  qed
qed

text \<open>
  The balance of messages: a step moves a message from the broker to a worker or from a worker to
  the counter, and loses one only when the worker fails.
\<close>

lemma worker_step_balance:
  assumes "server_ok sv" and "distinct (keys cfg)" and "\<not> terminal pc"
    and "worker_step cfg c sv t pc s = (pc', s')"
    and "counted s + holds pc + waiting cfg sv s < 2 ^ 64"
  shows "counted s' + holds pc' + waiting cfg sv s' \<le> counted s + holds pc + waiting cfg sv s"
    and "counted s + holds pc + waiting cfg sv s
           \<le> counted s' + holds pc' + waiting cfg sv s' + failed pc'"
proof -
  have "counted s' + holds pc' + waiting cfg sv s' \<le> counted s + holds pc + waiting cfg sv s \<and>
      counted s + holds pc + waiting cfg sv s \<le> counted s' + holds pc' + waiting cfg sv s' + failed pc'"
  proof (cases pc)
    case Polling
    show ?thesis
      by (rule poll_cases [OF assms(1,2) assms(4) [unfolded Polling]])
        (simp_all add: Polling inc_error_def)
  next
    case (Handling payload)
    with assms(4) show ?thesis
      by (auto split: outcome.splits)
  next
    case Counting
    from assms(4) have s': "pc' = Signalling (completed (metrics s) + 1)"
        "s' = s\<lparr>metrics := (metrics s)\<lparr>completed := completed (metrics s) + 1\<rparr>\<rparr>"
      by (simp_all add: Counting inc_completed_def)
    have "unat (completed (metrics s) + 1) = Suc (counted s)"
      using assms(5) by (intro unat_Suc_word) (simp add: Counting)
    then show ?thesis by (simp add: s' Counting)
  qed (use assms(3,4) in \<open>auto split: if_splits\<close>)
  then show "counted s' + holds pc' + waiting cfg sv s' \<le> counted s + holds pc + waiting cfg sv s"
    and "counted s + holds pc + waiting cfg sv s
           \<le> counted s' + holds pc' + waiting cfg sv s' + failed pc'"
    by auto
qed

text \<open>Whatever a \<open>BRPOP\<close> reports, it has taken at most one element.\<close>

lemma brpop_waiting:
  assumes "server_ok sv" and "distinct (keys cfg)"
    and "sv_brpop sv (keys cfg) tmo (srv s) = (r, b)"
  shows "waiting cfg sv (s\<lparr>srv := b\<rparr>) \<le> waiting cfg sv s"
    and "waiting cfg sv s \<le> Suc (waiting cfg sv (s\<lparr>srv := b\<rparr>))"
proof -
  have "sv_lists sv b = sv_lists sv (srv s) \<or>
      (\<exists>kv. brpop_effect (keys cfg) (sv_lists sv (srv s)) = Some (kv, sv_lists sv b))"
  proof (cases r)
    case (Inr reply)
    then show ?thesis
      using server_ok_brpop(1,2) [OF assms(1,3)] by (cases reply) auto
  qed (use server_ok_brpop(4) [OF assms(1,3)] in auto)
  then have "waiting cfg sv (s\<lparr>srv := b\<rparr>) \<le> waiting cfg sv s \<and>
      waiting cfg sv s \<le> Suc (waiting cfg sv (s\<lparr>srv := b\<rparr>))"
    using brpop_effect_stored [OF assms(2)] by (fastforce simp: waiting_def)
  then show "waiting cfg sv (s\<lparr>srv := b\<rparr>) \<le> waiting cfg sv s"
    and "waiting cfg sv s \<le> Suc (waiting cfg sv (s\<lparr>srv := b\<rparr>))" by auto
qed

section \<open>The invariants of the pool\<close>

text \<open>\<open>N\<close> messages: counted, held by a worker, waiting, or lost with a worker that failed.\<close>

definition balanced :: "worker_cfg \<Rightarrow> 's server \<Rightarrow> nat \<Rightarrow> 's pool \<Rightarrow> bool" where
  "balanced cfg sv N p \<longleftrightarrow>
     counted (sh p) + count_by holds (pcs p) + waiting cfg sv (sh p) \<le> N \<and>
     N \<le> counted (sh p) + count_by holds (pcs p) + waiting cfg sv (sh p) + count_by failed (pcs p)"

lemma balanced_init: "balanced cfg sv (stored (keys cfg) (sv_lists sv s0)) (pool_init n s0)"
  by (simp add: balanced_def pool_init_def metrics_new_def waiting_def)

lemma balanced_step:
  assumes "server_ok sv" and "distinct (keys cfg)" and "N < 2 ^ 64"
    and "balanced cfg sv N p" and "pool_step cfg c sv p p'"
  shows "balanced cfg sv N p'"
  using assms(5)
proof (cases rule: pool_step.cases)
  case (work i t pc' s')
  let ?pc = "pcs p ! i"
  have h: "holds ?pc \<le> count_by holds (pcs p)" using work(2) by (rule count_by_nth_le)
  with assms(3,4) have "counted (sh p) + holds ?pc + waiting cfg sv (sh p) < 2 ^ 64"
    by (simp add: balanced_def)
  note bal = worker_step_balance [OF assms(1,2) work(3,4) this]
  note upd = count_by_update [OF work(2), of holds pc'] count_by_update [OF work(2), of failed pc']
  show ?thesis
    using bal upd h assms(4) live_not_failed [OF work(3)] by (simp add: work(1) balanced_def)
next
  case stop
  with assms(4) show ?thesis by (simp add: balanced_def)
next
  case (abort i)
  note upd = count_by_update [OF abort(2), of holds Aborted] count_by_update [OF abort(2), of failed Aborted]
  show ?thesis
    using upd assms(4) abortable_weights [OF abort(3)] by (simp add: abort(1) balanced_def)
next
  case (abort_in_flight i r b)
  note upd = count_by_update [OF abort_in_flight(2), of holds Aborted]
    count_by_update [OF abort_in_flight(2), of failed Aborted]
  show ?thesis
    using upd assms(4) brpop_waiting [OF assms(1,2) abort_in_flight(4)] abort_in_flight(3)
    by (simp add: abort_in_flight(1) balanced_def)
next
  case (broker b)
  with assms(4) show ?thesis by (simp add: balanced_def waiting_def)
qed

lemma balanced_run:
  assumes "server_ok sv" and "distinct (keys cfg)" and "stored (keys cfg) (sv_lists sv s0) < 2 ^ 64"
    and "pool_run cfg c sv n s0 p"
  shows "balanced cfg sv (stored (keys cfg) (sv_lists sv s0)) p"
  using assms(4) balanced_init
proof (rule pool_run_invariant)
  fix p p' assume "balanced cfg sv (stored (keys cfg) (sv_lists sv s0)) p" "pool_step cfg c sv p p'"
  then show "balanced cfg sv (stored (keys cfg) (sv_lists sv s0)) p'"
    by (rule balanced_step [OF assms(1-3)])
qed

text \<open>In a balanced pool the completed counter has room for the messages still held.\<close>

lemma balanced_room:
  assumes "balanced cfg sv N p" and "N < 2 ^ 64" and "i < length (pcs p)" and "pcs p ! i = Counting"
  shows "Suc (counted (sh p)) < 2 ^ 64"
  using assms count_by_nth_le [OF assms(3), of holds] by (simp add: balanced_def)

lemma counting_step:
  assumes "worker_step cfg c sv t Counting s = (pc', s')" and "Suc (counted s) < 2 ^ 64"
  shows "pc' = Signalling (completed (metrics s'))" and "counted s' = Suc (counted s)"
    and "latencies s' = latencies s" and "errors (metrics s') = errors (metrics s)"
    and "done_flag s' = done_flag s" and "shutdown s' = shutdown s" and "srv s' = srv s"
proof -
  from assms(1) have s': "pc' = Signalling (completed (metrics s) + 1)"
      "s' = s\<lparr>metrics := (metrics s)\<lparr>completed := completed (metrics s) + 1\<rparr>\<rparr>"
    by (simp_all add: inc_completed_def)
  moreover have "unat (completed (metrics s) + 1) = Suc (counted s)"
    using assms(2) by (intro unat_Suc_word) simp
  ultimately show "pc' = Signalling (completed (metrics s'))" and "counted s' = Suc (counted s)"
    and "latencies s' = latencies s" and "errors (metrics s') = errors (metrics s)"
    and "done_flag s' = done_flag s" and "shutdown s' = shutdown s" and "srv s' = srv s"
    by simp_all
qed

text \<open>
  The frame of a step that is not the increment: the completed counter stays, the done flag and
  the shutdown flag are as before, unless the step is the signal.
\<close>

lemma worker_step_frame:
  assumes "worker_step cfg c sv t pc s = (pc', s')" and "pc \<noteq> Counting"
  shows "completed (metrics s') = completed (metrics s)" and "shutdown s' = shutdown s"
    and "done_flag s' \<longleftrightarrow> done_flag s \<or> (\<exists>d. pc = Signalling d \<and> target_jobs cfg \<le> d)"
  using assms
  by (cases pc; force simp: inc_error_def split: if_splits prod.splits sum.splits option.splits
      outcome.splits)+

section \<open>The done signal\<close>

text \<open>
  The signal is raised only when the target is reached; a worker that has counted the message that
  reached it raises it next; a worker returns without an error only on shutdown or at the target.
\<close>

definition signal_inv :: "worker_cfg \<Rightarrow> 's pool \<Rightarrow> bool" where
  "signal_inv cfg p \<longleftrightarrow>
     (done_flag (sh p) \<longrightarrow> unat (target_jobs cfg) \<le> counted (sh p)) \<and>
     (\<forall>i d. i < length (pcs p) \<longrightarrow> pcs p ! i = Signalling d \<longrightarrow> unat d \<le> counted (sh p)) \<and>
     (0 < unat (target_jobs cfg) \<longrightarrow> unat (target_jobs cfg) \<le> counted (sh p) \<longrightarrow>
        done_flag (sh p) \<or>
        (\<exists>i d. i < length (pcs p) \<and> pcs p ! i = Signalling d \<and> target_jobs cfg \<le> d)) \<and>
     (\<forall>i. i < length (pcs p) \<longrightarrow> pcs p ! i = Returned (Inr ()) \<longrightarrow>
        shutdown (sh p) \<or> unat (target_jobs cfg) \<le> counted (sh p))"

lemma signal_init: "signal_inv cfg (pool_init n s0)"
  by (simp add: signal_inv_def pool_init_def metrics_new_def)

lemma worker_step_exits:
  assumes "worker_step cfg c sv t pc s = (pc', s')" and "pc \<noteq> Counting" and "\<not> terminal pc"
  shows "pc' \<noteq> Signalling d"
    and "pc' = Returned (Inr ()) \<Longrightarrow> shutdown s \<or> unat (target_jobs cfg) \<le> counted s"
  using assms
  by (cases pc; force simp: get_completed_def word_le_nat_alt split: if_splits prod.splits sum.splits
      option.splits outcome.splits)+

lemma signal_work_count:
  assumes "signal_inv cfg p" and "i < length (pcs p)" and "counted s' = Suc (counted (sh p))"
    and "pc' = Signalling (completed (metrics s'))" and "done_flag s' = done_flag (sh p)"
    and "shutdown s' = shutdown (sh p)"
  shows "signal_inv cfg (p\<lparr>sh := s', pcs := (pcs p)[i := pc']\<rparr>)"
proof -
  have "\<exists>j d. j < length (pcs p) \<and> (pcs p)[i := pc'] ! j = Signalling d \<and> target_jobs cfg \<le> d"
    if "unat (target_jobs cfg) \<le> counted s'"
    using assms(2,4) that by (intro exI [of _ i] exI [of _ "completed (metrics s')"])
      (simp add: word_le_nat_alt)
  with assms show ?thesis
    by (force simp: signal_inv_def nth_list_update)
qed

lemma signal_work_other:
  assumes "signal_inv cfg p" and "i < length (pcs p)" and "counted s' = counted (sh p)"
    and "\<And>d. pc' \<noteq> Signalling d" and "shutdown s' = shutdown (sh p)"
    and "done_flag s' \<longleftrightarrow> done_flag (sh p) \<or> (\<exists>d. pcs p ! i = Signalling d \<and> target_jobs cfg \<le> d)"
    and "pc' = Returned (Inr ()) \<Longrightarrow> shutdown (sh p) \<or> unat (target_jobs cfg) \<le> counted (sh p)"
  shows "signal_inv cfg (p\<lparr>sh := s', pcs := (pcs p)[i := pc']\<rparr>)"
proof -
  have "unat (target_jobs cfg) \<le> counted (sh p)" if "pcs p ! i = Signalling d" "target_jobs cfg \<le> d" for d
    using assms(1,2) that by (force simp: signal_inv_def word_le_nat_alt intro: order_trans)
  moreover have "done_flag s' \<or> (\<exists>j d. j < length (pcs p) \<and> (pcs p)[i := pc'] ! j = Signalling d
      \<and> target_jobs cfg \<le> d)"
    if "done_flag (sh p) \<or> (\<exists>j d. j < length (pcs p) \<and> pcs p ! j = Signalling d \<and> target_jobs cfg \<le> d)"
    using that assms(6) by (metis nth_list_update_neq)
  ultimately show ?thesis
    using assms by (simp add: signal_inv_def nth_list_update) blast
qed

lemma signal_step:
  assumes "balanced cfg sv N p" and "N < 2 ^ 64" and "signal_inv cfg p" and "pool_step cfg c sv p p'"
  shows "signal_inv cfg p'"
  using assms(4)
proof (cases rule: pool_step.cases)
  case (work i t pc' s')
  show ?thesis
  proof (cases "pcs p ! i = Counting")
    case True
    with work(4) have w: "worker_step cfg c sv t Counting (sh p) = (pc', s')" by simp
    from counting_step [OF w balanced_room [OF assms(1,2) work(2) True]] show ?thesis
      unfolding work(1) by (intro signal_work_count [OF assms(3) work(2)])
  next
    case False
    from worker_step_frame [OF work(4) False] worker_step_exits [OF work(4) False work(3)]
    show ?thesis
      unfolding work(1) by (intro signal_work_other [OF assms(3) work(2)]) auto
  qed
next
  case stop
  with assms(3) show ?thesis by (auto simp: signal_inv_def)
next
  case (abort i)
  then show ?thesis
    by (auto intro!: signal_work_other [OF assms(3) abort(2), of "sh p" Aborted, simplified])
next
  case (abort_in_flight i r b)
  then show ?thesis
    using signal_work_other [OF assms(3) abort_in_flight(2), of "(sh p)\<lparr>srv := b\<rparr>" Aborted] by simp
next
  case (broker b)
  with assms(3) show ?thesis by (simp add: signal_inv_def)
qed

lemma signal_run:
  assumes "server_ok sv" and "distinct (keys cfg)" and "stored (keys cfg) (sv_lists sv s0) < 2 ^ 64"
    and "pool_run cfg c sv n s0 p"
  shows "signal_inv cfg p"
proof -
  let ?N = "stored (keys cfg) (sv_lists sv s0)"
  have "balanced cfg sv ?N p \<and> signal_inv cfg p"
    using assms(4)
  proof (rule pool_run_invariant)
    show "balanced cfg sv ?N (pool_init n s0) \<and> signal_inv cfg (pool_init n s0)"
      by (simp add: balanced_init signal_init)
  next
    fix p p' assume "balanced cfg sv ?N p \<and> signal_inv cfg p" "pool_step cfg c sv p p'"
    then show "balanced cfg sv ?N p' \<and> signal_inv cfg p'"
      using balanced_step [OF assms(1-3)] signal_step [OF _ assms(3)] by blast
  qed
  then show ?thesis ..
qed

section \<open>How far past the target the pool can go\<close>

definition overshoot_inv :: "worker_cfg \<Rightarrow> 's pool \<Rightarrow> bool" where
  "overshoot_inv cfg p \<longleftrightarrow>
     (if target_jobs cfg = 0 then counted (sh p) + count_by busy (pcs p) = 0
      else counted (sh p) + count_by busy (pcs p) < unat (target_jobs cfg) + length (pcs p))"

lemma overshoot_init: "overshoot_inv cfg (pool_init n s0)"
  by (simp add: overshoot_inv_def pool_init_def metrics_new_def unat_gt_0 add_pos_nonneg)

lemma worker_step_busy:
  assumes "worker_step cfg c sv t pc s = (pc', s')" and "pc \<noteq> Counting" and "\<not> terminal pc"
  shows "busy pc' \<le> busy pc \<or> counted s < unat (target_jobs cfg)"
  using assms
  by (cases pc; force simp: get_completed_def word_le_nat_alt split: if_splits prod.splits sum.splits
      option.splits outcome.splits)

lemma overshoot_update:
  assumes "overshoot_inv cfg p" and "i < length (pcs p)"
    and "counted s' + busy pc' \<le> counted (sh p) + busy (pcs p ! i) \<or>
         counted s' = counted (sh p) \<and> counted s' < unat (target_jobs cfg)"
  shows "overshoot_inv cfg (p\<lparr>sh := s', pcs := (pcs p)[i := pc']\<rparr>)"
  using assms(3)
proof
  assume "counted s' + busy pc' \<le> counted (sh p) + busy (pcs p ! i)"
  with count_by_update [OF assms(2), of busy pc'] assms(1) show ?thesis
    by (auto simp: overshoot_inv_def split: if_splits)
next
  assume c: "counted s' = counted (sh p) \<and> counted s' < unat (target_jobs cfg)"
  have "count_by busy ((pcs p)[i := pc']) \<le> 1 * length ((pcs p)[i := pc'])"
    by (rule count_by_le_length) (rule busy_le)
  with c show ?thesis
    by (auto simp: overshoot_inv_def)
qed

lemma overshoot_step:
  assumes "balanced cfg sv N p" and "N < 2 ^ 64" and "overshoot_inv cfg p"
    and "pool_step cfg c sv p p'"
  shows "overshoot_inv cfg p'"
  using assms(4)
proof (cases rule: pool_step.cases)
  case (work i t pc' s')
  show ?thesis
  proof (cases "pcs p ! i = Counting")
    case True
    with work(4) have w: "worker_step cfg c sv t Counting (sh p) = (pc', s')" by simp
    from counting_step [OF w balanced_room [OF assms(1,2) work(2) True]] show ?thesis
      unfolding work(1) by (intro overshoot_update [OF assms(3) work(2)]) (simp add: True)
  next
    case False
    from worker_step_frame [OF work(4) False] worker_step_busy [OF work(4) False work(3)]
    show ?thesis
      unfolding work(1) by (intro overshoot_update [OF assms(3) work(2)]) auto
  qed
next
  case (abort i)
  with overshoot_update [OF assms(3) abort(2), of "sh p" Aborted] show ?thesis by simp
next
  case (abort_in_flight i r b)
  with overshoot_update [OF assms(3) abort_in_flight(2), of "(sh p)\<lparr>srv := b\<rparr>" Aborted]
  show ?thesis by simp
qed (use assms(3) in \<open>simp_all add: overshoot_inv_def\<close>)

lemma overshoot_run:
  assumes "server_ok sv" and "distinct (keys cfg)" and "stored (keys cfg) (sv_lists sv s0) < 2 ^ 64"
    and "pool_run cfg c sv n s0 p"
  shows "overshoot_inv cfg p"
proof -
  let ?N = "stored (keys cfg) (sv_lists sv s0)"
  have "balanced cfg sv ?N p \<and> overshoot_inv cfg p"
    using assms(4)
  proof (rule pool_run_invariant)
    show "balanced cfg sv ?N (pool_init n s0) \<and> overshoot_inv cfg (pool_init n s0)"
      by (simp add: balanced_init overshoot_init)
  next
    fix p p' assume "balanced cfg sv ?N p \<and> overshoot_inv cfg p" "pool_step cfg c sv p p'"
    then show "balanced cfg sv ?N p' \<and> overshoot_inv cfg p'"
      using balanced_step [OF assms(1-3)] overshoot_step [OF _ assms(3)] by blast
  qed
  then show ?thesis ..
qed

lemma pool_step_length: "pool_step cfg c sv p p' \<Longrightarrow> length (pcs p') = length (pcs p)"
  by (induction rule: pool_step.induct) simp_all

lemma pool_run_length: "pool_run cfg c sv n s0 p \<Longrightarrow> length (pcs p) = n"
  by (erule pool_run_invariant) (simp_all add: pool_init_def pool_step_length)

section \<open>Stopping\<close>

text \<open>
  How many more moves a worker can make: once the target is reached (\<open>rank False\<close>), and once the
  shutdown flag is set (\<open>rank True\<close>: a worker may be past the check of the flag).
\<close>

fun rank :: "bool \<Rightarrow> wpc \<Rightarrow> nat" where
  "rank sd Polling = 6"
| "rank sd (Handling payload) = 5"
| "rank sd Counting = 4"
| "rank sd (Signalling d) = 3"
| "rank sd Backoff = 3"
| "rank sd Top = 2"
| "rank sd Checking = (if sd then 7 else 1)"
| "rank sd pc = 0"

lemma rank_le: "rank sd pc \<le> 7"
  by (cases pc) auto

lemma rank_0_iff: "rank sd pc = 0 \<longleftrightarrow> terminal pc"
  by (cases pc) auto

lemma worker_step_rank:
  assumes "worker_step cfg c sv t pc s = (pc', s')" and "\<not> terminal pc"
    and "if sd then shutdown s else unat (target_jobs cfg) \<le> counted s"
  shows "rank sd pc' < rank sd pc"
  using assms
  by (cases pc; force simp: get_completed_def word_le_nat_alt split: if_splits prod.splits sum.splits
      option.splits outcome.splits)

lemma abortable_rank: "abortable pc \<Longrightarrow> 0 < rank sd pc"
  by (cases pc) auto

lemma pool_step_rank:
  assumes "pool_step cfg c sv p p'"
    and "if sd then shutdown (sh p) else unat (target_jobs cfg) \<le> counted (sh p)"
  shows "pcs p' = pcs p \<or> count_by (rank sd) (pcs p') < count_by (rank sd) (pcs p)"
  using assms(1)
proof (cases rule: pool_step.cases)
  case (work i t pc' s')
  then show ?thesis
    using count_by_update [OF work(2), of "rank sd" pc'] worker_step_rank [OF work(4,3) assms(2)]
    by simp
next
  case (abort i)
  then show ?thesis
    using count_by_update [OF abort(2), of "rank sd" Aborted] abortable_rank [OF abort(3), of sd]
    by simp
next
  case (abort_in_flight i r b)
  then show ?thesis
    using count_by_update [OF abort_in_flight(2), of "rank sd" Aborted] by simp
qed simp_all

text \<open>A worker that has not ended can always move, and moving changes where it is.\<close>

lemma pool_progress:
  assumes "i < length (pcs p)" and "\<not> terminal (pcs p ! i)"
    and "if sd then shutdown (sh p) else unat (target_jobs cfg) \<le> counted (sh p)"
  shows "\<exists>p'. pool_step cfg c sv p p' \<and> pcs p' \<noteq> pcs p"
proof -
  obtain pc' s' where w: "worker_step cfg c sv 0 (pcs p ! i) (sh p) = (pc', s')" by fastforce
  have "pc' \<noteq> pcs p ! i"
    using worker_step_rank [OF w assms(2,3)] by auto
  then have "(pcs p)[i := pc'] \<noteq> pcs p"
    using assms(1) by (metis nth_list_update_eq)
  with pool_step.work [OF assms(1,2) w] show ?thesis
    by (intro exI [of _ "p\<lparr>sh := s', pcs := (pcs p)[i := pc']\<rparr>"]) simp
qed

end
