(* ===== verification/Fleet_Samples.thy ===== *)
theory Fleet_Samples
  imports Fleet
begin

text \<open>
  The bookkeeping of the worker pool: how the latency samples and the error counter relate to the
  messages counted, in any run, in a run whose broker sends no error replies, and in a run that
  meets only messages of this tool.
\<close>

section \<open>Samples and errors\<close>

text \<open>A broker that answers every \<open>BRPOP\<close> with an element, a timeout or a failed connection.\<close>

definition no_error_replies :: "'s server \<Rightarrow> bool" where
  "no_error_replies sv \<longleftrightarrow>
     (\<forall>ks t s e b. sv_brpop sv ks t s = (Inl e, b) \<longrightarrow> fatal_error e)"

text \<open>Every payload under the keys, or held by a worker, is a message of this tool.\<close>

definition tool_payloads :: "worker_cfg \<Rightarrow> text_codec \<Rightarrow> 's server \<Rightarrow> 's pool \<Rightarrow> bool" where
  "tool_payloads cfg c sv p \<longleftrightarrow>
     (\<forall>v \<in> stored_set (keys cfg) (sv_lists sv (srv (sh p))). payload_marker c v \<noteq> None) \<and>
     (\<forall>i v. i < length (pcs p) \<longrightarrow> pcs p ! i = Handling v \<longrightarrow> payload_marker c v \<noteq> None)"

text \<open>
  Samples are positive and there are never more of them than messages counted or about to be; the
  difference is messages that were not of this tool.
\<close>

definition samples_inv :: "'s pool \<Rightarrow> bool" where
  "samples_inv p \<longleftrightarrow>
     (\<forall>us \<in> set (latencies (sh p)). 1 \<le> us) \<and>
     length (latencies (sh p)) \<le> counted (sh p) + count_by counts (pcs p)"

definition errors_inv :: "'s pool \<Rightarrow> bool" where
  "errors_inv p \<longleftrightarrow>
     unat (errors (metrics (sh p))) + length (latencies (sh p))
       = counted (sh p) + count_by counts (pcs p)"

lemma samples_init: "samples_inv (pool_init n s0)" and errors_init: "errors_inv (pool_init n s0)"
  by (simp_all add: samples_inv_def errors_inv_def pool_init_def metrics_new_def)

text \<open>What one step does to the samples, the errors and the messages about to be counted.\<close>

lemma worker_step_samples:
  assumes "worker_step cfg c sv t pc s = (pc', s')" and "\<not> terminal pc" and "pc \<noteq> Counting"
  obtains (same) "latencies s' = latencies s" "counts pc' = 0" "counts pc = 0"
      "metrics s' = metrics s"
  | (error_reply) e where "latencies s' = latencies s" "counts pc' = 0" "counts pc = 0"
      "metrics s' = inc_error (metrics s)"
      "sv_brpop sv (keys cfg) (brpop_timeout_secs cfg) (srv s) = (Inl e, srv s')" "\<not> fatal_error e"
  | (sample) us where "latencies s' = latencies s @ [us]" "1 \<le> us" "counts pc' = 1" "counts pc = 0"
      "metrics s' = metrics s"
  | (malformed) v where "pc = Handling v" "payload_marker c v = None" "latencies s' = latencies s"
      "counts pc' = 1" "counts pc = 0" "metrics s' = inc_error (metrics s)"
proof (cases pc)
  case Polling
  obtain r b where rb: "sv_brpop sv (keys cfg) (brpop_timeout_secs cfg) (srv s) = (r, b)"
    by fastforce
  show thesis
  proof (cases "\<exists>e. r = Inl e \<and> \<not> fatal_error e")
    case True
    then obtain e where e: "r = Inl e" "\<not> fatal_error e" by blast
    then show thesis
      using assms(1) rb by (intro error_reply [of e]) (auto simp: Polling fatal_error_def)
  next
    case False
    then show thesis
      using assms(1) rb
      by (intro same) (auto simp: Polling fatal_error_def split: sum.splits option.splits prod.splits if_splits)
  qed
next
  case (Handling v)
  show thesis
  proof (cases "message_sample c t v")
    case (Ok x)
    show thesis
    proof (cases x)
      case None
      with Ok have "payload_marker c v = None"
        by (auto simp: message_sample_marker unix_now_ns_def split: option.splits if_splits)
      with None Ok assms(1) Handling show thesis
        by (intro malformed) (auto simp: record_sample_def)
    next
      case (Some us)
      with Ok message_sample_pos [of c t v us] assms(1) Handling show thesis
        by (intro sample) (auto simp: record_sample_def)
    qed
  qed (use assms(1) Handling message_sample_not_Err in \<open>auto intro: same\<close>)
qed (use assms in \<open>auto intro!: same split: if_splits\<close>)

lemma samples_update:
  assumes "samples_inv p" and "i < length (pcs p)"
    and "length (latencies s') + counts (pcs p ! i) + counted (sh p)
          \<le> length (latencies (sh p)) + counts pc' + counted s'"
    and "\<forall>us \<in> set (latencies s'). us \<in> set (latencies (sh p)) \<or> 1 \<le> us"
  shows "samples_inv (p\<lparr>sh := s', pcs := (pcs p)[i := pc']\<rparr>)"
  using assms(1,3,4) count_by_update [OF assms(2), of counts pc']
  by (auto simp: samples_inv_def)

lemma errors_update:
  assumes "errors_inv p" and "i < length (pcs p)"
    and "unat (errors (metrics s')) + length (latencies s') + counts (pcs p ! i) + counted (sh p)
          = unat (errors (metrics (sh p))) + length (latencies (sh p)) + counts pc' + counted s'"
  shows "errors_inv (p\<lparr>sh := s', pcs := (pcs p)[i := pc']\<rparr>)"
  using assms(1,3) count_by_update [OF assms(2), of counts pc']
  by (simp add: errors_inv_def)

lemma samples_step:
  assumes "balanced cfg sv N p" and "N < 2 ^ 64" and "samples_inv p" and "pool_step cfg c sv p p'"
  shows "samples_inv p'"
  using assms(4)
proof (cases rule: pool_step.cases)
  case (work i t pc' s')
  show ?thesis
  proof (cases "pcs p ! i = Counting")
    case True
    with work(4) have w: "worker_step cfg c sv t Counting (sh p) = (pc', s')" by simp
    from counting_step [OF w balanced_room [OF assms(1,2) work(2) True]] show ?thesis
      unfolding work(1) by (intro samples_update [OF assms(3) work(2)]) (simp_all add: True)
  next
    case False
    show ?thesis
      unfolding work(1)
      by (rule worker_step_samples [OF work(4,3) False]; rule samples_update [OF assms(3) work(2)])
        (simp_all add: worker_step_frame(1) [OF work(4) False])
  qed
next
  case (abort i)
  with samples_update [OF assms(3) abort(2), of "sh p" Aborted] abortable_weights [OF abort(3)]
  show ?thesis by simp
next
  case (abort_in_flight i r b)
  with samples_update [OF assms(3) abort_in_flight(2), of "(sh p)\<lparr>srv := b\<rparr>" Aborted]
  show ?thesis by simp
qed (use assms(3) in \<open>simp_all add: samples_inv_def\<close>)

lemma errors_bounded:
  assumes "errors_inv p" and "balanced cfg sv N p" and "i < length (pcs p)" and "pcs p ! i = Handling v"
  shows "Suc (unat (errors (metrics (sh p)))) \<le> N"
proof -
  have le: "count_by counts xs + (if j < length xs \<and> xs ! j = Handling v then 1 else 0) \<le> count_by holds xs"
    for xs j
  proof (induction xs arbitrary: j)
    case (Cons x xs)
    have "counts x \<le> holds x" by (cases x) auto
    then show ?case using Cons [of "j - 1"] Cons [of "length xs"] by (cases j) auto
  qed simp
  show ?thesis
    using le [of "pcs p" i] assms by (simp add: errors_inv_def balanced_def)
qed

lemma errors_step:
  assumes "balanced cfg sv N p" and "N < 2 ^ 64" and "no_error_replies sv" and "errors_inv p"
    and "pool_step cfg c sv p p'"
  shows "errors_inv p'"
  using assms(5)
proof (cases rule: pool_step.cases)
  case (work i t pc' s')
  show ?thesis
  proof (cases "pcs p ! i = Counting")
    case True
    with work(4) have w: "worker_step cfg c sv t Counting (sh p) = (pc', s')" by simp
    from counting_step [OF w balanced_room [OF assms(1,2) work(2) True]] show ?thesis
      unfolding work(1) by (intro errors_update [OF assms(4) work(2)]) (simp add: True)
  next
    case False
    note frame = worker_step_frame(1) [OF work(4) False]
    show ?thesis
      unfolding work(1)
    proof (rule worker_step_samples [OF work(4,3) False], goal_cases)
      case (2 e)
      with assms(3) show ?case unfolding no_error_replies_def by blast
    next
      case (4 v)
      from errors_bounded [OF assms(4,1) work(2) 4(1)] assms(2)
      have "unat (errors (metrics (sh p)) + 1) = Suc (unat (errors (metrics (sh p))))"
        by (intro unat_Suc_word) simp
      with 4 show ?case
        by (intro errors_update [OF assms(4) work(2)]) (simp add: frame inc_error_def)
    qed (intro errors_update [OF assms(4) work(2)], simp add: frame)+
  qed
next
  case (abort i)
  with errors_update [OF assms(4) abort(2), of "sh p" Aborted] abortable_weights [OF abort(3)]
  show ?thesis by simp
next
  case (abort_in_flight i r b)
  with errors_update [OF assms(4) abort_in_flight(2), of "(sh p)\<lparr>srv := b\<rparr>" Aborted]
  show ?thesis by simp
qed (use assms(4) in \<open>simp_all add: errors_inv_def\<close>)

section \<open>A pool that meets only messages of this tool\<close>

lemma brpop_stored_set:
  assumes "server_ok sv" and "sv_brpop sv ks t s = (r, b)"
  shows "stored_set ks (sv_lists sv b) \<subseteq> stored_set ks (sv_lists sv s)"
    and "r = Inr (Some (k, v)) \<Longrightarrow> v \<in> stored_set ks (sv_lists sv s)"
proof -
  have pop: "stored_set ks m' \<subseteq> stored_set ks m"
    if "brpop_effect ks m = Some (kv, m')" for kv m m'
    using brpop_effect_set(2) that by (cases kv) blast
  show "stored_set ks (sv_lists sv b) \<subseteq> stored_set ks (sv_lists sv s)"
  proof (cases r)
    case (Inl e)
    with server_ok_brpop(4) [OF assms] pop show ?thesis by fastforce
  next
    case (Inr reply)
    with server_ok_brpop(1,2) [OF assms] pop show ?thesis by (cases reply) fastforce+
  qed
  show "v \<in> stored_set ks (sv_lists sv s)" if "r = Inr (Some (k, v))"
    using server_ok_brpop(1) [OF assms that] by (rule brpop_effect_set(1))
qed

lemma worker_step_broker:
  assumes "server_ok sv" and "worker_step cfg c sv t pc s = (pc', s')"
  shows "stored_set (keys cfg) (sv_lists sv (srv s')) \<subseteq> stored_set (keys cfg) (sv_lists sv (srv s))"
    and "pc' = Handling v \<Longrightarrow> pc = Handling v \<or> v \<in> stored_set (keys cfg) (sv_lists sv (srv s))"
proof -
  obtain r b where rb: "sv_brpop sv (keys cfg) (brpop_timeout_secs cfg) (srv s) = (r, b)"
    by fastforce
  have poll: "srv s' = b \<and> (\<forall>v. pc' = Handling v \<longrightarrow> (\<exists>k. r = Inr (Some (k, v))))" if "pc = Polling"
    using assms(2) rb that by (auto split: sum.splits option.splits if_splits)
  have other: "srv s' = srv s \<and> (\<forall>v. pc' = Handling v \<longrightarrow> pc = Handling v)" if "pc \<noteq> Polling"
    using assms(2) that by (cases pc) (auto simp: inc_completed_def split: if_splits outcome.splits)
  show "stored_set (keys cfg) (sv_lists sv (srv s')) \<subseteq> stored_set (keys cfg) (sv_lists sv (srv s))"
    using poll other brpop_stored_set(1) [OF assms(1) rb] by (cases "pc = Polling") simp_all
  show "pc' = Handling v \<Longrightarrow> pc = Handling v \<or> v \<in> stored_set (keys cfg) (sv_lists sv (srv s))"
    using poll other brpop_stored_set(2) [OF assms(1) rb] by (cases "pc = Polling") blast+
qed

lemma tool_payloads_update:
  assumes "tool_payloads cfg c sv p"
    and "stored_set (keys cfg) (sv_lists sv (srv s')) \<subseteq> stored_set (keys cfg) (sv_lists sv (srv (sh p)))"
    and "\<And>v. pc' = Handling v \<Longrightarrow> payload_marker c v \<noteq> None"
  shows "tool_payloads cfg c sv (p\<lparr>sh := s', pcs := (pcs p)[i := pc']\<rparr>)"
  unfolding tool_payloads_def
proof (intro conjI ballI allI impI)
  fix v assume "v \<in> stored_set (keys cfg) (sv_lists sv (srv (sh (p\<lparr>sh := s', pcs := (pcs p)[i := pc']\<rparr>))))"
  with assms(1,2) show "payload_marker c v \<noteq> None" by (auto simp: tool_payloads_def)
next
  fix j v
  assume "j < length (pcs (p\<lparr>sh := s', pcs := (pcs p)[i := pc']\<rparr>))"
    and "pcs (p\<lparr>sh := s', pcs := (pcs p)[i := pc']\<rparr>) ! j = Handling v"
  with assms(1,3) show "payload_marker c v \<noteq> None"
    by (cases "j = i") (auto simp: tool_payloads_def)
qed

lemma tool_payloads_step:
  assumes "server_ok sv" and "tool_payloads cfg c sv p" and "pool_step cfg c sv p p'"
  shows "tool_payloads cfg c sv p'"
  using assms(3)
proof (cases rule: pool_step.cases)
  case (work i t pc' s')
  note wb = worker_step_broker [OF assms(1) work(4)]
  have "payload_marker c v \<noteq> None" if "pc' = Handling v" for v
    using wb(2) [OF that] assms(2) work(2) by (auto simp: tool_payloads_def)
  then show ?thesis
    unfolding work(1) by (rule tool_payloads_update [OF assms(2) wb(1)])
next
  case (abort i)
  with tool_payloads_update [OF assms(2), of "sh p" Aborted i] show ?thesis by simp
next
  case (abort_in_flight i r b)
  with tool_payloads_update [OF assms(2), of "(sh p)\<lparr>srv := b\<rparr>" Aborted i]
    brpop_stored_set(1) [OF assms(1) abort_in_flight(4)] show ?thesis by simp
qed (use assms(2) in \<open>simp_all add: tool_payloads_def\<close>)

text \<open>Such a pool records no error.\<close>

lemma no_errors_step:
  assumes "no_error_replies sv" and "tool_payloads cfg c sv p" and "pool_step cfg c sv p p'"
  shows "errors (metrics (sh p')) = errors (metrics (sh p))"
  using assms(3)
proof (cases rule: pool_step.cases)
  case (work i t pc' s')
  show ?thesis
  proof (cases "pcs p ! i = Counting")
    case True
    with work(4) show ?thesis by (simp add: work(1) inc_completed_def split: prod.splits) auto
  next
    case False
    have "errors (metrics s') = errors (metrics (sh p))"
    proof (rule worker_step_samples [OF work(4,3) False], goal_cases)
      case (2 e)
      with assms(1) show ?case unfolding no_error_replies_def by blast
    next
      case (4 v)
      with assms(2) work(2) show ?case by (auto simp: tool_payloads_def)
    qed simp_all
    then show ?thesis by (simp add: work(1))
  qed
qed simp_all

definition tool_inv :: "worker_cfg \<Rightarrow> text_codec \<Rightarrow> 's server \<Rightarrow> 's pool \<Rightarrow> bool" where
  "tool_inv cfg c sv p \<longleftrightarrow>
     tool_payloads cfg c sv p \<and> errors_inv p \<and> errors (metrics (sh p)) = 0"

lemma samples_run:
  assumes "server_ok sv" and "distinct (keys cfg)" and "stored (keys cfg) (sv_lists sv s0) < 2 ^ 64"
    and "pool_run cfg c sv n s0 p"
  shows "samples_inv p"
proof -
  let ?N = "stored (keys cfg) (sv_lists sv s0)"
  have "balanced cfg sv ?N p \<and> samples_inv p"
    using assms(4)
  proof (rule pool_run_invariant)
    show "balanced cfg sv ?N (pool_init n s0) \<and> samples_inv (pool_init n s0)"
      by (simp add: balanced_init samples_init)
  next
    fix p p' assume "balanced cfg sv ?N p \<and> samples_inv p" "pool_step cfg c sv p p'"
    then show "balanced cfg sv ?N p' \<and> samples_inv p'"
      using balanced_step [OF assms(1-3)] samples_step [OF _ assms(3)] by blast
  qed
  then show ?thesis ..
qed

lemma errors_run:
  assumes "server_ok sv" and "distinct (keys cfg)" and "stored (keys cfg) (sv_lists sv s0) < 2 ^ 64"
    and "no_error_replies sv" and "pool_run cfg c sv n s0 p"
  shows "errors_inv p"
proof -
  let ?N = "stored (keys cfg) (sv_lists sv s0)"
  have "balanced cfg sv ?N p \<and> errors_inv p"
    using assms(5)
  proof (rule pool_run_invariant)
    show "balanced cfg sv ?N (pool_init n s0) \<and> errors_inv (pool_init n s0)"
      by (simp add: balanced_init errors_init)
  next
    fix p p' assume "balanced cfg sv ?N p \<and> errors_inv p" "pool_step cfg c sv p p'"
    then show "balanced cfg sv ?N p' \<and> errors_inv p'"
      using balanced_step [OF assms(1-3)] errors_step [OF _ assms(3,4)] by blast
  qed
  then show ?thesis ..
qed

lemma tool_run:
  assumes "server_ok sv" and "distinct (keys cfg)" and "stored (keys cfg) (sv_lists sv s0) < 2 ^ 64"
    and "no_error_replies sv" and "pool_run cfg c sv n s0 p"
    and "\<And>v. v \<in> stored_set (keys cfg) (sv_lists sv s0) \<Longrightarrow> payload_marker c v \<noteq> None"
  shows "tool_inv cfg c sv p"
proof -
  have "tool_payloads cfg c sv p \<and> errors (metrics (sh p)) = 0"
    using assms(5)
  proof (rule pool_run_invariant)
    show "tool_payloads cfg c sv (pool_init n s0) \<and> errors (metrics (sh (pool_init n s0))) = 0"
      using assms(6) by (auto simp: tool_payloads_def pool_init_def metrics_new_def)
  next
    fix p p' assume "tool_payloads cfg c sv p \<and> errors (metrics (sh p)) = 0" "pool_step cfg c sv p p'"
    then show "tool_payloads cfg c sv p' \<and> errors (metrics (sh p')) = 0"
      using tool_payloads_step [OF assms(1)] no_errors_step [OF assms(4)] by metis
  qed
  with errors_run [OF assms(1-5)] show ?thesis by (simp add: tool_inv_def)
qed

end
