(* ===== verification/Trial.thy ===== *)
theory Trial
  imports Fleet_Samples Options Report Console
begin

text \<open>
  \<open>run_trial\<close> of \<open>src/src/main.rs\<close>: the histogram collector, the per-second monitor, the biased
  \<open>select!\<close> that ends the trial, the drain, and the result. The tasks of a trial interleave
  freely; \<open>trial_step\<close> is one atomic step of one of them.
\<close>

section \<open>The configuration and the histograms\<close>

record trial_config =
  tc_queues :: "string list"
  tc_jobs :: u64
  tc_brpop_timeout_secs :: f64
  tc_timeout_secs :: u64
  tc_quiet :: bool
  percentile_specs :: "percentile_spec list"

definition MIN_HIST_MAX_US :: u64 where
  "MIN_HIST_MAX_US = 60000000"

definition MAX_HIST_MAX_US :: u64 where
  "MAX_HIST_MAX_US = 24 * 3600 * 1000000"

definition empty_histogram :: "'h hist_ops \<Rightarrow> u64 \<Rightarrow> ('e, 'h) outcome" where
  "empty_histogram H us =
     (let bound = (if us < MIN_HIST_MAX_US then MIN_HIST_MAX_US
                   else if MAX_HIST_MAX_US < us then MAX_HIST_MAX_US else us)
      in case h_new H 1 bound 3 of Some h \<Rightarrow> Ok h | None \<Rightarrow> Panicked ''valid histogram bounds'')"

definition hist_max_us :: "trial_config \<Rightarrow> u64" where
  "hist_max_us cfg = saturating_mul (tc_timeout_secs cfg) 1000000"

section \<open>The collector\<close>

record 'h collector =
  trial_hist :: 'h
  per_sec_hist :: 'h

text \<open>\<open>let _ = hist.record(v)\<close>: a value out of range is dropped.\<close>

definition record_ignored :: "'h hist_ops \<Rightarrow> u64 \<Rightarrow> 'h \<Rightarrow> 'h" where
  "record_ignored H v h = (case h_record H v h of Some h' \<Rightarrow> h' | None \<Rightarrow> h)"

definition collect_sample :: "'h hist_ops \<Rightarrow> u64 \<Rightarrow> 'h collector \<Rightarrow> 'h collector" where
  "collect_sample H us col =
     (let v = max us 1
      in col\<lparr>trial_hist := record_ignored H v (trial_hist col),
             per_sec_hist := record_ignored H v (per_sec_hist col)\<rparr>)"

text \<open>A snapshot request: the reply, and the collector with its window reset.\<close>

definition collect_snapshot :: "'h hist_ops \<Rightarrow> 'h collector \<Rightarrow> 'h \<times> 'h collector" where
  "collect_snapshot H col =
     (per_sec_hist col, col\<lparr>per_sec_hist := h_reset H (per_sec_hist col)\<rparr>)"

section \<open>The monitor\<close>

text \<open>
  Where the monitor is in its loop: asleep, or about to read the errors, to ask for the window, or to
  print its mark.
\<close>

datatype monitor_pc = Asleep | ReadingErrors | AskingWindow | Marking

text \<open>The hash map of the per-second latencies is the list of its entries.\<close>

record monitor =
  mpc :: monitor_pc
  prev_completed :: u64
  prev_errors :: u64
  err_delta :: u64
  throughput_samples :: "u64 list"
  errors_samples :: "u64 list"
  latency_sec_samples :: "(string \<times> u64 list) list"

definition monitor_new :: monitor where
  "monitor_new =
     \<lparr>mpc = Asleep, prev_completed = 0, prev_errors = 0, err_delta = 0, throughput_samples = [],
      errors_samples = [], latency_sec_samples = []\<rparr>"

text \<open>\<open>map.entry(key).or_default().push(v)\<close>.\<close>

fun push_entry :: "string \<Rightarrow> u64 \<Rightarrow> (string \<times> u64 list) list \<Rightarrow> (string \<times> u64 list) list" where
  "push_entry k v [] = [(k, [v])]"
| "push_entry k v ((l, vs) # m) = (if k = l then (l, vs @ [v]) # m else (l, vs) # push_entry k v m)"

definition monitor_throughput :: "metrics \<Rightarrow> monitor \<Rightarrow> monitor" where
  "monitor_throughput m mon =
     (let cur = get_completed m
      in mon\<lparr>mpc := ReadingErrors, prev_completed := cur,
             throughput_samples := throughput_samples mon @ [cur - prev_completed mon]\<rparr>)"

definition monitor_errors :: "metrics \<Rightarrow> monitor \<Rightarrow> monitor" where
  "monitor_errors m mon =
     (let cur = get_errors m
      in mon\<lparr>mpc := AskingWindow, prev_errors := cur, err_delta := cur - prev_errors mon,
             errors_samples := errors_samples mon @ [cur - prev_errors mon]\<rparr>)"

definition monitor_window :: "'h hist_ops \<Rightarrow> percentile_spec list \<Rightarrow> 'h \<Rightarrow> monitor \<Rightarrow> monitor" where
  "monitor_window H specs snap mon =
     mon\<lparr>mpc := Marking,
         latency_sec_samples :=
           fold (\<lambda>spec. push_entry (spec_name spec) (spec_value H snap spec)) specs
             (latency_sec_samples mon)\<rparr>"

definition monitor_mark :: "trial_config \<Rightarrow> monitor \<Rightarrow> event list" where
  "monitor_mark cfg mon =
     (if tc_quiet cfg then []
      else [Stdout (if 0 < err_delta mon then ''[e:'' @ dec (unat (err_delta mon)) @ '']'' else ''.'')])"

section \<open>The trial\<close>

text \<open>
  The main task: before it polls the done signal of the \<open>select!\<close>, before it polls the timer (it saw
  no signal), before it polls the workers (the timer has not expired), draining with the verdict
  and the duration, or finished. One poll of a biased \<open>select!\<close> reads its branches one after the
  other while the worker threads run on.
\<close>

datatype phase = Selecting | NotDoneYet | Joining | Draining bool f64 | Finished trial_result

text \<open>\<open>joined\<close>: the workers whose result the third branch has taken off the join set.\<close>

record ('s, 'h) trial =
  t_pool :: "'s pool"
  taken :: nat
  coll :: "'h collector"
  mon :: monitor
  phase :: phase
  joined :: "nat set"
  printed :: "event list"

definition trial_worker_cfg :: "trial_config \<Rightarrow> worker_cfg" where
  "trial_worker_cfg cfg =
     \<lparr>target_jobs = tc_jobs cfg, keys = brpop_keys (tc_queues cfg),
      brpop_timeout_secs = tc_brpop_timeout_secs cfg\<rparr>"

definition jobs_rate :: "u64 \<Rightarrow> f64 \<Rightarrow> f64" where
  "jobs_rate n duration =
     (if f64_less (Fin 0) duration then f64_div (f64_of_nat (unat n)) duration else Fin 0)"

definition make_result ::
  "'h hist_ops \<Rightarrow> usize \<Rightarrow> metrics \<Rightarrow> f64 \<Rightarrow> monitor \<Rightarrow> 'h \<Rightarrow> bool \<Rightarrow> trial_result" where
  "make_result H n m duration mo hist to =
     \<lparr>tr_workers = n,
      total_jobs = get_completed m,
      duration_s = duration,
      jobs_per_sec = jobs_rate (get_completed m) duration,
      throughput_per_sec = throughput_samples mo,
      errors_per_sec = errors_samples mo,
      latency_per_sec = latency_sec_samples mo,
      latency = from_histogram H hist,
      tr_errors = get_errors m,
      timed_out = to\<rparr>"

definition trial_start :: "nat \<Rightarrow> 's \<Rightarrow> 'h \<Rightarrow> 'h \<Rightarrow> ('s, 'h) trial" where
  "trial_start n s0 h1 h2 =
     \<lparr>t_pool = pool_init n s0, taken = 0, coll = \<lparr>trial_hist = h1, per_sec_hist = h2\<rparr>,
      mon = monitor_new, phase = Selecting, joined = {}, printed = []\<rparr>"

definition trial_init :: "'h hist_ops \<Rightarrow> trial_config \<Rightarrow> usize \<Rightarrow> 's \<Rightarrow> ('e, ('s, 'h) trial) outcome" where
  "trial_init H cfg n s0 =
     bind_outcome (empty_histogram H (hist_max_us cfg)) (\<lambda>h1.
     bind_outcome (empty_histogram H (hist_max_us cfg)) (\<lambda>h2.
     Ok (trial_start (unat n) s0 h1 h2)))"

definition all_ended :: "'s pool \<Rightarrow> bool" where
  "all_ended p \<longleftrightarrow> list_all terminal (pcs p)"

fun running :: "phase \<Rightarrow> bool" where
  "running Selecting = True"
| "running NotDoneYet = True"
| "running Joining = True"
| "running ph = False"

fun draining :: "phase \<Rightarrow> bool" where
  "draining (Draining to d) = True"
| "draining ph = False"

definition active :: "phase \<Rightarrow> bool" where
  "active ph \<longleftrightarrow> running ph \<or> draining ph"

text \<open>What the main task prints when the selection ends, and when it joins a worker.\<close>

fun exit_note :: "wpc \<Rightarrow> event list" where
  "exit_note (Returned (Inl (RedisConnection e))) =
     [eprintln (''  [worker exited with error: Redis connection error in worker: '' @ error_text e @ '']'')]"
| "exit_note pc = []"

definition done_lines :: "trial_config \<Rightarrow> event list" where
  "done_lines cfg = (if tc_quiet cfg then [] else [println []])"

definition timeout_lines :: "trial_config \<Rightarrow> event list" where
  "timeout_lines cfg =
     (if tc_quiet cfg then [] else [eprintln []])
     @ [eprintln (''  [timeout after '' @ dec (unat (tc_timeout_secs cfg)) @ ''s]'')]"

definition exited_lines :: "trial_config \<Rightarrow> event list" where
  "exited_lines cfg =
     (if tc_quiet cfg then [] else [eprintln []])
     @ [eprintln (''  [all workers exited before target reached '' @ em_dash @ '' check Redis connection]'')]"

text \<open>
  While the main task selects, nobody stops the workers and nobody aborts them. The monitor is
  aborted at the end of the selection, but a tick that has begun may still complete.
\<close>

inductive trial_step ::
  "'h hist_ops \<Rightarrow> trial_config \<Rightarrow> text_codec \<Rightarrow> 's server \<Rightarrow> ('s, 'h) trial \<Rightarrow> ('s, 'h) trial \<Rightarrow> bool"
  for H cfg c sv where
  pool: "\<lbrakk>pool_step (trial_worker_cfg cfg) c sv (t_pool T) p; running (phase T);
          shutdown (sh p) = shutdown (sh (t_pool T)); Aborted \<notin> set (pcs p)\<rbrakk>
         \<Longrightarrow> trial_step H cfg c sv T (T\<lparr>t_pool := p\<rparr>)"
| pool_drain: "\<lbrakk>pool_step (trial_worker_cfg cfg) c sv (t_pool T) p; draining (phase T)\<rbrakk>
         \<Longrightarrow> trial_step H cfg c sv T (T\<lparr>t_pool := p\<rparr>)"
| collect: "taken T < length (latencies (sh (t_pool T))) \<Longrightarrow>
         trial_step H cfg c sv T
           (T\<lparr>taken := Suc (taken T),
              coll := collect_sample H (latencies (sh (t_pool T)) ! taken T) (coll T)\<rparr>)"
| tick_throughput: "\<lbrakk>active (phase T); mpc (mon T) = Asleep\<rbrakk> \<Longrightarrow>
         trial_step H cfg c sv T
           (T\<lparr>mon := monitor_throughput (metrics (sh (t_pool T))) (mon T)\<rparr>)"
| tick_errors: "\<lbrakk>active (phase T); mpc (mon T) = ReadingErrors\<rbrakk> \<Longrightarrow>
         trial_step H cfg c sv T
           (T\<lparr>mon := monitor_errors (metrics (sh (t_pool T))) (mon T)\<rparr>)"
| tick_window: "\<lbrakk>active (phase T); mpc (mon T) = AskingWindow;
          collect_snapshot H (coll T) = (snap, col)\<rbrakk> \<Longrightarrow>
         trial_step H cfg c sv T
           (T\<lparr>coll := col, mon := monitor_window H (percentile_specs cfg) snap (mon T)\<rparr>)"
| tick_mark: "\<lbrakk>active (phase T); mpc (mon T) = Marking\<rbrakk> \<Longrightarrow>
         trial_step H cfg c sv T
           (T\<lparr>mon := (mon T)\<lparr>mpc := Asleep\<rparr>, printed := printed T @ monitor_mark cfg (mon T)\<rparr>)"
| see_done: "\<lbrakk>phase T = Selecting; done_flag (sh (t_pool T))\<rbrakk> \<Longrightarrow>
         trial_step H cfg c sv T
           (T\<lparr>phase := Draining False d, printed := printed T @ done_lines cfg\<rparr>)"
| see_not_done: "\<lbrakk>phase T = Selecting; \<not> done_flag (sh (t_pool T))\<rbrakk> \<Longrightarrow>
         trial_step H cfg c sv T (T\<lparr>phase := NotDoneYet\<rparr>)"
| time_out: "phase T = NotDoneYet \<Longrightarrow>
         trial_step H cfg c sv T
           (T\<lparr>phase := Draining True d, printed := printed T @ timeout_lines cfg\<rparr>)"
| see_no_timeout: "phase T = NotDoneYet \<Longrightarrow>
         trial_step H cfg c sv T (T\<lparr>phase := Joining\<rparr>)"
| join_worker: "\<lbrakk>phase T = Joining; i < length (pcs (t_pool T)); terminal (pcs (t_pool T) ! i);
          i \<notin> joined T\<rbrakk> \<Longrightarrow>
         trial_step H cfg c sv T
           (T\<lparr>joined := insert i (joined T), printed := printed T @ exit_note (pcs (t_pool T) ! i)\<rparr>)"
| all_exited: "\<lbrakk>phase T = Joining; {0..<length (pcs (t_pool T))} \<subseteq> joined T\<rbrakk> \<Longrightarrow>
         trial_step H cfg c sv T
           (T\<lparr>phase := Draining True d, printed := printed T @ exited_lines cfg\<rparr>)"
| select_again: "phase T = Joining \<Longrightarrow>
         trial_step H cfg c sv T (T\<lparr>phase := Selecting\<rparr>)"
| finish: "\<lbrakk>phase T = Draining to d; all_ended (t_pool T);
          taken T = length (latencies (sh (t_pool T)))\<rbrakk> \<Longrightarrow>
         trial_step H cfg c sv T
           (T\<lparr>phase := Finished (make_result H (of_nat (length (pcs (t_pool T)))) (metrics (sh (t_pool T))) d
                (mon T) (trial_hist (coll T)) to)\<rparr>)"

definition trial_run ::
  "'h hist_ops \<Rightarrow> trial_config \<Rightarrow> text_codec \<Rightarrow> 's server \<Rightarrow> usize \<Rightarrow> 's \<Rightarrow> ('s, 'h) trial \<Rightarrow> bool" where
  "trial_run H cfg c sv n s0 T \<longleftrightarrow>
     (\<exists>T0. trial_init H cfg n s0 = (Ok T0 :: (unit, ('s, 'h) trial) outcome) \<and>
        (trial_step H cfg c sv)\<^sup>*\<^sup>* T0 T)"

end
