(* ===== verification/Wire_Spec.thy ===== *)
theory Wire_Spec
  imports Worker Ref_Codec
begin

text \<open>
  The properties of a message on its way from the producer to a worker: the envelope survives the
  wire, the latency marker is read back, and \<open>handle_message\<close> does on every payload what the
  benchmark reports. The witnesses use the codec of \<open>Ref_Codec\<close>.
\<close>

section \<open>A message to witness the properties\<close>

definition demo_stamp :: stamp where
  "demo_stamp = \<lparr>task_uuid = ''t'', tag_uuid = ''d'', clock_ns = 1000, pid = 7\<rparr>"

definition demo_msg :: celery_envelope where
  "demo_msg =
     (case envelope_new ref_codec demo_stamp ''celery'' 0 0 :: (unit, celery_envelope) outcome
      of Ok e \<Rightarrow> e)"

lemma demo_stamp_ok: "stamp_ok demo_stamp"
  by (simp add: stamp_ok_def demo_stamp_def in_range_def)

lemma demo_queue_ok: "utf8_valid ''celery''"
  by (simp add: in_range_def)

lemma demo_envelope: "envelope_new ref_codec demo_stamp ''celery'' 0 0 = Ok demo_msg"
  by (simp add: demo_msg_def envelope_new_def demo_stamp_def unix_now_ns_Ok)

section \<open>The wire\<close>

text \<open>
  C20: an envelope survives the wire. Printing any envelope whose strings are UTF-8 and whose
  \<open>stamps\<close> is a value as \<open>serde_json\<close> keeps it, and parsing the text again, gives it back: the
  renamed fields (\<open>id\<close>, \<open>group\<close>, \<open>content-type\<close>) match, and every \<open>Option\<close> survives.
\<close>

theorem envelope_wire:
  assumes "codec_ok c" and "plain_json (ser_envelope e)"
    and "to_value (stamps (headers e)) = stamps (headers e)"
  shows "env_from_slice c (env_to_string c e) = Some e"
  unfolding env_from_slice_def env_to_string_def
  using envelope.text_round_trip [OF assms(1,3,2)] .

theorem envelope_wire_witness:
  "env_from_slice ref_codec (env_to_string ref_codec demo_msg) = Some demo_msg"
  by (rule envelope_wire [OF ref_codec_ok envelope_new_plain [OF ref_codec_ok demo_stamp_ok
    demo_queue_ok demo_envelope] envelope_new_stamps [OF demo_envelope]])

text \<open>
  C19: the latency marker survives the wire. From the text of a message the producer built, a
  worker parses the same envelope and reads from its base64 body exactly the clock value at which
  it was built (modulo \<open>2 ^ 64\<close> nanoseconds, as \<open>as u64\<close> makes it).
\<close>

theorem marker_wire:
  assumes "codec_ok c" and "stamp_ok st" and "utf8_valid queue"
    and "envelope_new c st queue prio idx = Ok e"
  shows "payload_marker c (env_to_string c e) = Some (of_int (clock_ns st))"
  using payload_marker_new [OF assms] .

theorem marker_wire_witness:
  "payload_marker ref_codec (env_to_string ref_codec demo_msg) = Some 1000"
  using marker_wire [OF ref_codec_ok demo_stamp_ok demo_queue_ok demo_envelope]
  by (simp add: demo_stamp_def)

section \<open>Handling a message\<close>

text \<open>
  C24: \<open>handle_message\<close> on every payload. A message of this tool adds one latency sample and no
  error, any other payload (not JSON, not an envelope, a body without the marker) adds one error
  and no sample; both are counted, and the done signal follows the new count. A clock before the
  epoch panics before anything is changed. And it is what the atomic steps of the worker loop do
  with a payload when no other worker moves between them.
\<close>

theorem handle_message_spec:
  "(handle_message cfg c t payload s =
    (case payload_marker c payload of
       None \<Rightarrow>
         (Ok (), signal_done cfg (completed (metrics s) + 1)
            (s\<lparr>metrics := \<lparr>completed = completed (metrics s) + 1, errors = errors (metrics s) + 1\<rparr>\<rparr>))
     | Some enqueued \<Rightarrow>
         (if t < 0 then (Panicked ''system clock is before UNIX_EPOCH'', s)
          else (Ok (), signal_done cfg (completed (metrics s) + 1)
            (s\<lparr>metrics := \<lparr>completed = completed (metrics s) + 1, errors = errors (metrics s)\<rparr>,
               latencies := latencies s @ [latency_us (of_int t) enqueued]\<rparr>))))) \<and>
   (handle_message cfg c t payload s = (Ok (), s') \<longleftrightarrow>
      run_alone cfg c sv [t, t1, t2] (Handling payload) s = (Top, s'))"
  unfolding handle_message_steps [of cfg c t payload s s' sv t1 t2]
  by (cases s) (auto simp: handle_message_def message_sample_marker unix_now_ns_def record_sample_def
      inc_completed_def inc_error_def split: option.splits)

lemma unat_of_int_u64: "0 \<le> t \<Longrightarrow> t < 2 ^ 64 \<Longrightarrow> unat (of_int t :: u64) = nat t"
  by (simp add: unsigned_of_int take_bit_int_eq_self)

lemma unat_latency_us:
  assumes "0 \<le> t" and "t < 2 ^ 64" and "0 \<le> e" and "e < 2 ^ 64"
  shows "unat (latency_us (of_int t) (of_int e)) = nat (max 1 ((t - e) div 1000))"
proof -
  note u = unat_of_int_u64 [OF assms(1,2)] unat_of_int_u64 [OF assms(3,4)]
  show ?thesis
  proof (cases "e \<le> t")
    case True
    then have le: "(of_int e :: u64) \<le> of_int t"
      using assms by (simp add: word_le_nat_alt u)
    have "unat ((of_int t - of_int e :: u64) div 1000) = nat ((t - e) div 1000)"
      using True assms by (simp add: unat_div unat_sub [OF le] u nat_div_distrib nat_diff_distrib)
    with le show ?thesis
      by (auto simp: latency_us_def max_def word_le_nat_alt u True nat_le_iff not_le)
  next
    case False
    then have "\<not> (of_int e :: u64) \<le> of_int t"
      using assms by (simp add: word_le_nat_alt u)
    moreover have "(t - e) div 1000 \<le> 1"
      using False by (simp add: div_le_dividend)
    ultimately show ?thesis by (simp add: latency_us_def max_def)
  qed
qed

text \<open>
  C23: the latency a trial reports is the time since the message was built. For clocks between the
  epoch and \<open>2 ^ 64\<close> nanoseconds after it, a worker that reads its clock \<open>t\<close> after taking a message
  the producer built at \<open>clock_ns st\<close> records \<open>(t - clock_ns st) / 1000\<close> microseconds rounded
  down, and 1 when that is less than 1 (also when the worker's clock is behind).
\<close>

theorem reported_latency:
  assumes "codec_ok c" and "stamp_ok st" and "utf8_valid queue"
    and "envelope_new c st queue prio idx = Ok e"
    and "clock_ns st < 2 ^ 64" and "0 \<le> t" and "t < 2 ^ 64"
  shows "\<exists>us. message_sample c t (env_to_string c e) = Ok (Some us) \<and>
    unat us = nat (max 1 ((t - clock_ns st) div 1000))"
  using payload_marker_new [OF assms(1-4)] assms(2,5-7)
  by (simp add: message_sample_marker unix_now_ns_Ok unat_latency_us stamp_ok_def)

theorem reported_latency_witness:
  "\<exists>us. message_sample ref_codec 5000999 (env_to_string ref_codec demo_msg) = Ok (Some us) \<and>
    unat us = 4999"
  using reported_latency [OF ref_codec_ok demo_stamp_ok demo_queue_ok demo_envelope, of 5000999]
  by (simp add: demo_stamp_def)

end
