(* ===== verification/Pool_Spec.thy ===== *)
theory Pool_Spec
  imports Fleet_Samples Wire_Spec
begin

text \<open>
  The properties of the worker pool of a trial, for any number of workers, any interleaving of
  their steps, any broker that satisfies \<open>server_ok\<close>, and a concrete run that witnesses each.
\<close>

section \<open>Stopping, counted in moves\<close>

definition stopping :: "bool \<Rightarrow> worker_cfg \<Rightarrow> 's pool \<Rightarrow> bool" where
  "stopping sd cfg p \<longleftrightarrow>
     (if sd then shutdown (sh p) else unat (target_jobs cfg) \<le> counted (sh p))"

text \<open>Runs from a pool, with the number of steps in which a worker moved.\<close>

inductive pool_moves ::
  "worker_cfg \<Rightarrow> text_codec \<Rightarrow> 's server \<Rightarrow> nat \<Rightarrow> 's pool \<Rightarrow> 's pool \<Rightarrow> bool"
  for cfg c sv where
  none: "pool_moves cfg c sv 0 p p"
| move: "\<lbrakk>pool_moves cfg c sv k p q; pool_step cfg c sv q r; pcs r \<noteq> pcs q\<rbrakk>
         \<Longrightarrow> pool_moves cfg c sv (Suc k) p r"
| env: "\<lbrakk>pool_moves cfg c sv k p q; pool_step cfg c sv q r; pcs r = pcs q\<rbrakk>
         \<Longrightarrow> pool_moves cfg c sv k p r"

lemma stopping_step:
  assumes "balanced cfg sv N p" and "N < 2 ^ 64" and "stopping sd cfg p" and "pool_step cfg c sv p p'"
  shows "stopping sd cfg p'"
  using assms(4)
proof (cases rule: pool_step.cases)
  case (work i t pc' s')
  show ?thesis
  proof (cases "pcs p ! i = Counting")
    case True
    with work(4) have w: "worker_step cfg c sv t Counting (sh p) = (pc', s')" by simp
    from counting_step [OF w balanced_room [OF assms(1,2) work(2) True]] assms(3) show ?thesis
      by (auto simp: work(1) stopping_def split: if_splits)
  next
    case False
    with worker_step_frame [OF work(4) False] assms(3) show ?thesis
      by (auto simp: work(1) stopping_def split: if_splits)
  qed
qed (use assms(3) in \<open>auto simp: stopping_def\<close>)

lemma pool_moves_rank:
  assumes "server_ok sv" and "distinct (keys cfg)" and "N < 2 ^ 64"
    and "pool_moves cfg c sv k p q" and "balanced cfg sv N p" and "stopping sd cfg p"
  shows "k + count_by (rank sd) (pcs q) \<le> count_by (rank sd) (pcs p) \<and>
    balanced cfg sv N q \<and> stopping sd cfg q \<and> length (pcs q) = length (pcs p)"
  using assms(4-6)
proof (induction rule: pool_moves.induct)
  case (move k p q r)
  then have ih: "k + count_by (rank sd) (pcs q) \<le> count_by (rank sd) (pcs p)"
      "balanced cfg sv N q" "stopping sd cfg q" "length (pcs q) = length (pcs p)" by auto
  from pool_step_rank [OF move.hyps(2), of sd] ih(3) move.hyps(3)
  have "count_by (rank sd) (pcs r) < count_by (rank sd) (pcs q)"
    by (simp add: stopping_def)
  with ih balanced_step [OF assms(1-3) ih(2) move.hyps(2)]
    stopping_step [OF ih(2) assms(3) ih(3) move.hyps(2)] pool_step_length [OF move.hyps(2)]
  show ?case by simp
next
  case (env k p q r)
  then have ih: "k + count_by (rank sd) (pcs q) \<le> count_by (rank sd) (pcs p)"
      "balanced cfg sv N q" "stopping sd cfg q" "length (pcs q) = length (pcs p)" by auto
  with env.hyps(3) balanced_step [OF assms(1-3) ih(2) env.hyps(2)]
    stopping_step [OF ih(2) assms(3) ih(3) env.hyps(2)]
  show ?case by simp
qed simp

section \<open>A run to witness the properties\<close>

text \<open>The steps of a worker that runs alone are a run of the pool of one worker.\<close>

lemma run_alone_pool:
  "run_alone cfg c sv ts pc s = (pc', s') \<Longrightarrow>
   (pool_step cfg c sv)\<^sup>*\<^sup>* \<lparr>sh = s, pcs = [pc]\<rparr> \<lparr>sh = s', pcs = [pc']\<rparr>"
proof (induction ts arbitrary: pc s)
  case (Cons t ts)
  obtain pc1 s1 where w: "worker_step cfg c sv t pc s = (pc1, s1)" by fastforce
  with Cons.prems have "run_alone cfg c sv ts pc1 s1 = (pc', s')" by simp
  from Cons.IH [OF this]
  have rest: "(pool_step cfg c sv)\<^sup>*\<^sup>* \<lparr>sh = s1, pcs = [pc1]\<rparr> \<lparr>sh = s', pcs = [pc']\<rparr>" .
  show ?case
  proof (cases "terminal pc")
    case True
    with w have "pc1 = pc" "s1 = s" by (cases pc; simp)+
    with rest show ?thesis by simp
  next
    case False
    with w pool_step.work [of 0 "\<lparr>sh = s, pcs = [pc]\<rparr>" cfg c sv t pc1 s1]
    have "pool_step cfg c sv \<lparr>sh = s, pcs = [pc]\<rparr> \<lparr>sh = s1, pcs = [pc1]\<rparr>" by simp
    from this rest show ?thesis by (rule converse_rtranclp_into_rtranclp)
  qed
qed simp

definition demo_payload :: string where
  "demo_payload = job_payload ref_codec (\<lambda>_. demo_stamp) [''celery''] [0] 0"

definition demo_cfg :: worker_cfg where
  "demo_cfg = \<lparr>target_jobs = 1, keys = [''celery''], brpop_timeout_secs = Fin 1\<rparr>"

definition demo_broker :: keyspace where
  "demo_broker = (\<lambda>k. if k = ''celery'' then [demo_payload] else [])"

definition demo_final :: "keyspace pool" where
  "demo_final =
     \<lparr>sh = \<lparr>srv = (\<lambda>_. []), metrics = \<lparr>completed = 1, errors = 0\<rparr>, latencies = [4],
            done_flag = True, shutdown = False\<rparr>,
      pcs = [Returned (Inr ())]\<rparr>"

lemma demo_marker: "payload_marker ref_codec demo_payload = Some 1000"
  using payload_marker_new [OF ref_codec_ok demo_stamp_ok demo_queue_ok demo_envelope]
  by (simp add: demo_payload_def job_payload_def job_queue_def job_priority_def demo_stamp_def
      demo_envelope [where 'a = redis_error, unfolded demo_stamp_def])

lemma demo_sample: "message_sample ref_codec 5000 demo_payload = Ok (Some 4)"
  by (simp add: message_sample_marker demo_marker unix_now_ns_def latency_us_def)

lemma demo_run: "pool_run demo_cfg ref_codec mem_server 1 demo_broker demo_final"
proof -
  have "run_alone demo_cfg ref_codec mem_server [5000, 5000, 5000, 5000, 5000, 5000, 5000, 5000] Top
      (sh (pool_init 1 demo_broker)) = (Returned (Inr ()), sh demo_final)"
    by (simp add: demo_cfg_def pool_init_def demo_broker_def demo_final_def mem_server_def demo_sample
        metrics_new_def get_completed_def inc_completed_def record_sample_def signal_done_def fun_eq_iff)
  from run_alone_pool [OF this] show ?thesis
    by (simp add: pool_run_def pool_init_def demo_final_def)
qed

lemma demo_facts:
  "server_ok mem_server" "distinct (keys demo_cfg)" "stored (keys demo_cfg) (sv_lists mem_server demo_broker) = 1"
  "no_error_replies mem_server"
  "v \<in> stored_set (keys demo_cfg) (sv_lists mem_server demo_broker) \<Longrightarrow> payload_marker ref_codec v = Some 1000"
  by (simp add: mem_server_ok)
    (auto simp: demo_cfg_def mem_server_def demo_broker_def stored_set_def no_error_replies_def
      demo_marker split: option.splits)

text \<open>When every worker has ended, nobody is left to send the signal.\<close>

lemma ended_signal:
  assumes "signal_inv cfg p" and "list_all terminal (pcs p)" and "target_jobs cfg \<noteq> 0"
  shows "done_flag (sh p) \<longleftrightarrow> unat (target_jobs cfg) \<le> counted (sh p)"
proof -
  have "pcs p ! i \<noteq> Signalling d" if "i < length (pcs p)" for i d
  proof
    assume "pcs p ! i = Signalling d"
    with list_all_length [of terminal "pcs p"] that assms(2) show False by force
  qed
  with assms(1,3) show ?thesis
    by (auto simp: signal_inv_def unat_gt_0)
qed

section \<open>The properties of the pool\<close>

text \<open>
  C6: the workers of a trial never count a message twice and never lose one silently. Whatever the
  interleaving, the broker and the aborts, the messages counted so far, those a worker holds and
  those still queued never exceed the messages that were there, and fall short of them by at most
  one message per worker that ended by an error, a panic or an abort.
\<close>

theorem pool_conservation:
  assumes "server_ok sv" and "distinct (keys cfg)" and "stored (keys cfg) (sv_lists sv s0) < 2 ^ 64"
    and "pool_run cfg c sv n s0 p"
  shows "counted (sh p) + count_by holds (pcs p) + waiting cfg sv (sh p)
           \<le> stored (keys cfg) (sv_lists sv s0) \<and>
         stored (keys cfg) (sv_lists sv s0)
           \<le> counted (sh p) + count_by holds (pcs p) + waiting cfg sv (sh p) + count_by failed (pcs p)"
  using balanced_run [OF assms] by (simp add: balanced_def)

theorem pool_conservation_witness:
  "counted (sh demo_final) + count_by holds (pcs demo_final) + waiting demo_cfg mem_server (sh demo_final)
     \<le> 1 \<and>
   1 \<le> counted (sh demo_final) + count_by holds (pcs demo_final)
      + waiting demo_cfg mem_server (sh demo_final) + count_by failed (pcs demo_final)"
  using pool_conservation [OF demo_facts(1,2) _ demo_run] by (simp only: demo_facts(3)) simp

text \<open>
  The completed counter never runs past the target by more than the other workers in flight:
  with \<open>n\<close> workers at most \<open>target - 1 + n\<close> messages are ever counted, and none when the target is 0.
\<close>

lemma pool_overshoot:
  assumes "server_ok sv" and "distinct (keys cfg)" and "stored (keys cfg) (sv_lists sv s0) < 2 ^ 64"
    and "pool_run cfg c sv n s0 p"
  shows "counted (sh p) + count_by busy (pcs p)
           \<le> (if target_jobs cfg = 0 then 0 else unat (target_jobs cfg) - 1 + n)"
  using overshoot_run [OF assms] unat_gt_0 [of "target_jobs cfg"]
  by (auto simp: overshoot_inv_def pool_run_length [OF assms(4)] split: if_splits)

text \<open>
  C7: the done signal is exact. It is never raised before the target is reached, and once every
  worker has ended it is raised exactly when the target (if positive) was reached: the worker
  whose increment reaches it always lives to send the signal.
\<close>

theorem pool_done_signal:
  assumes "server_ok sv" and "distinct (keys cfg)" and "stored (keys cfg) (sv_lists sv s0) < 2 ^ 64"
    and "pool_run cfg c sv n s0 p"
  shows "(done_flag (sh p) \<longrightarrow> unat (target_jobs cfg) \<le> counted (sh p)) \<and>
    (list_all terminal (pcs p) \<and> target_jobs cfg \<noteq> 0 \<longrightarrow>
       (done_flag (sh p) \<longleftrightarrow> unat (target_jobs cfg) \<le> counted (sh p)))"
  using signal_run [OF assms] ended_signal [OF signal_run [OF assms]]
  by (auto simp: signal_inv_def)

theorem pool_done_signal_witness:
  "done_flag (sh demo_final) \<and> unat (target_jobs demo_cfg) \<le> counted (sh demo_final)"
proof -
  have "done_flag (sh demo_final)" by (simp add: demo_final_def)
  with pool_done_signal [OF demo_facts(1,2) _ demo_run] show ?thesis
    by (simp add: demo_facts(3))
qed

text \<open>
  A clean exit means the job is done. When every worker has returned without an error and no
  shutdown was requested, the target has been reached, and the done signal was sent.
\<close>

lemma pool_clean_exit:
  assumes "server_ok sv" and "distinct (keys cfg)" and "stored (keys cfg) (sv_lists sv s0) < 2 ^ 64"
    and "pool_run cfg c sv n s0 p" and "0 < n" and "\<not> shutdown (sh p)"
    and "list_all (\<lambda>pc. pc = Returned (Inr ())) (pcs p)"
  shows "unat (target_jobs cfg) \<le> counted (sh p) \<and> (target_jobs cfg \<noteq> 0 \<longrightarrow> done_flag (sh p))"
proof -
  note inv = signal_run [OF assms(1-4)]
  have len: "0 < length (pcs p)"
    using assms(5) pool_run_length [OF assms(4)] by simp
  with assms(7) have "pcs p ! 0 = Returned (Inr ())" by (simp add: list_all_length)
  with inv assms(6) len have reached: "unat (target_jobs cfg) \<le> counted (sh p)"
    unfolding signal_inv_def by blast
  have "list_all terminal (pcs p)"
    using assms(7) by (auto simp: list_all_iff)
  with inv reached ended_signal [OF inv] show ?thesis by simp
qed

lemma pool_complete_facts:
  assumes "server_ok sv" and "distinct (keys cfg)" and "no_error_replies sv"
    and "stored (keys cfg) (sv_lists sv s0) = unat (target_jobs cfg)"
    and "\<And>v. v \<in> stored_set (keys cfg) (sv_lists sv s0) \<Longrightarrow> payload_marker c v \<noteq> None"
    and "pool_run cfg c sv n s0 p" and "done_flag (sh p)"
  shows "counted (sh p) = unat (target_jobs cfg) \<and> waiting cfg sv (sh p) = 0 \<and>
    count_by holds (pcs p) = 0 \<and> errors (metrics (sh p)) = 0 \<and>
    length (latencies (sh p)) = unat (target_jobs cfg) \<and> (\<forall>us \<in> set (latencies (sh p)). 1 \<le> us)"
proof -
  have N: "stored (keys cfg) (sv_lists sv s0) < 2 ^ 64"
    using assms(4) unsigned_less [where w = "target_jobs cfg" and 'a = nat] by simp
  have "unat (target_jobs cfg) \<le> counted (sh p)"
    using signal_run [OF assms(1,2) N assms(6)] assms(7) by (simp add: signal_inv_def)
  with balanced_run [OF assms(1,2) N assms(6)] assms(4)
  have bal: "counted (sh p) = unat (target_jobs cfg)" "waiting cfg sv (sh p) = 0"
      "count_by holds (pcs p) = 0"
    unfolding balanced_def by linarith+
  have "counts pc \<le> holds pc" for pc by (cases pc) auto
  then have "count_by counts (pcs p) = 0"
    using count_by_mono [of counts holds "pcs p"] bal(3) by simp
  with bal samples_run [OF assms(1,2) N assms(6)]
    tool_run [OF assms(1,2) N assms(3,6,5)] show ?thesis
    by (auto simp: tool_inv_def errors_inv_def samples_inv_def)
qed



text \<open>
  C11: the pool stops. Once the target is reached (\<open>sd = False\<close>), or once the shutdown flag is set
  (\<open>sd = True\<close>), the \<open>n\<close> workers make at most \<open>7 * n\<close> more moves in total, and until every worker
  has ended one that has not can always move: the loops terminate and cannot get stuck.
\<close>

theorem pool_drains:
  assumes "server_ok sv" and "distinct (keys cfg)" and "stored (keys cfg) (sv_lists sv s0) < 2 ^ 64"
    and "pool_run cfg c sv n s0 p" and "stopping sd cfg p" and "pool_moves cfg c sv k p q"
  shows "k \<le> 7 * n \<and> (list_all terminal (pcs q) \<or> (\<exists>r. pool_moves cfg c sv (Suc k) p r))"
proof -
  from pool_moves_rank [OF assms(1-3,6) balanced_run [OF assms(1-4)] assms(5)]
  have rank: "k + count_by (rank sd) (pcs q) \<le> count_by (rank sd) (pcs p)" "stopping sd cfg q" by auto
  have "count_by (rank sd) (pcs p) \<le> 7 * length (pcs p)"
    by (rule count_by_le_length) (rule rank_le)
  with rank(1) have "k \<le> 7 * n"
    by (simp add: pool_run_length [OF assms(4)])
  moreover have "\<exists>r. pool_moves cfg c sv (Suc k) p r" if "\<not> list_all terminal (pcs q)"
  proof -
    from that obtain i where "i < length (pcs q)" "\<not> terminal (pcs q ! i)"
      by (auto simp: list_all_length)
    from pool_progress [OF this rank(2) [unfolded stopping_def]] obtain r
      where "pool_step cfg c sv q r" "pcs r \<noteq> pcs q" by blast
    with pool_moves.move [OF assms(6)] show ?thesis by blast
  qed
  ultimately show ?thesis by blast
qed

theorem pool_drains_witness:
  "(0::nat) \<le> 7 * 1 \<and> (list_all terminal (pcs demo_final) \<or>
     (\<exists>r. pool_moves demo_cfg ref_codec mem_server (Suc 0) demo_final r))"
  by (rule pool_drains [OF demo_facts(1,2) _ demo_run, where sd = False])
    (simp add: demo_facts(3), simp add: stopping_def demo_final_def demo_cfg_def, rule pool_moves.none)

text \<open>
  The bookkeeping of the samples. In any run the latency samples are positive and there is at
  most one per message counted or about to be; when the broker sends no error replies, the error
  counter and the samples together account for exactly these messages.
\<close>

lemma pool_samples:
  assumes "server_ok sv" and "distinct (keys cfg)" and "stored (keys cfg) (sv_lists sv s0) < 2 ^ 64"
    and "pool_run cfg c sv n s0 p"
  shows "(\<forall>us \<in> set (latencies (sh p)). 1 \<le> us) \<and>
    length (latencies (sh p)) \<le> counted (sh p) + count_by counts (pcs p) \<and>
    (no_error_replies sv \<longrightarrow>
       unat (errors (metrics (sh p))) + length (latencies (sh p))
         = counted (sh p) + count_by counts (pcs p))"
  using samples_run [OF assms] errors_run [OF assms(1-3) _ assms(4)]
  by (simp add: samples_inv_def errors_inv_def)

end
