(* ===== verification/Enqueue_Spec.thy ===== *)
theory Enqueue_Spec
  imports Enqueue Queues Wire_Spec
begin

text \<open>
  The properties of the producer: \<open>bulk_enqueue\<close> refines the list of jobs, stores each exactly once
  under a key a worker polls, in order, readable by a worker, spread evenly over queues and
  priorities; \<open>clear_queue\<close> empties what the workers poll.
\<close>

section \<open>How many messages are stored\<close>

lemma job_queue_mem: "queues \<noteq> [] \<Longrightarrow> job_queue queues i \<in> set queues"
  by (simp add: job_queue_def)

lemma job_key_polled: "queues \<noteq> [] \<Longrightarrow> job_key queues priorities i \<in> set (brpop_keys queues)"
  unfolding job_key_def brpop_keys_def
  by (rule kombu.written_key_polled) (rule job_queue_mem)

lemma stored_append: "stored ks (\<lambda>k. f k @ g k) = stored ks f + stored ks g"
  by (induction ks) auto

lemma sum_count_in: "distinct ks \<Longrightarrow> (\<Sum>k\<leftarrow>ks. if x = k then 1 else 0) = (if x \<in> set ks then 1 else (0::nat))"
  by (induction ks) auto

text \<open>A list sorted into the buckets of different keys keeps its length.\<close>

lemma stored_buckets:
  assumes "distinct ks" and "\<And>i. i \<in> set js \<Longrightarrow> key i \<in> set ks"
  shows "stored ks (\<lambda>k. rev (map val (filter (\<lambda>i. key i = k) js))) = length js"
  using assms(2)
proof (induction js)
  case Nil
  show ?case by (simp add: stored_def)
next
  case (Cons j js)
  have "stored ks (\<lambda>k. rev (map val (filter (\<lambda>i. key i = k) (j # js))))
      = (\<Sum>k\<leftarrow>ks. (if key j = k then 1 else 0) + length (filter (\<lambda>i. key i = k) js))"
    unfolding stored_def by (intro arg_cong [of _ _ sum_list] map_cong) auto
  also have "\<dots> = (\<Sum>k\<leftarrow>ks. if key j = k then 1 else 0)
      + stored ks (\<lambda>k. rev (map val (filter (\<lambda>i. key i = k) js)))"
    by (simp add: sum_list_addf stored_def)
  finally show ?case
    using Cons sum_count_in [OF assms(1), of "key j"] by simp
qed

lemma bulk_enqueue_stored:
  assumes "server_ok sv" and "plan_ok queues priorities st" and "distinct (brpop_keys queues)"
    and "bulk_enqueue c st sv queues priorities n_jobs s = (Ok (), s')"
  shows "stored (brpop_keys queues) (sv_lists sv s')
    = stored (brpop_keys queues) (sv_lists sv s) + unat n_jobs"
proof -
  let ?f = "\<lambda>k. rev (map (job_payload c st queues priorities)
    (filter (\<lambda>i. job_key queues priorities i = k) [0..<unat n_jobs]))"
  have ne: "queues \<noteq> []" using assms(2) by (simp add: plan_ok_def)
  have "sv_lists sv s' = (\<lambda>k. ?f k @ sv_lists sv s k)"
    by (rule ext) (rule bulk_enqueue_lists [OF assms(1,2,4)])
  then have "stored (brpop_keys queues) (sv_lists sv s')
      = stored (brpop_keys queues) ?f + stored (brpop_keys queues) (sv_lists sv s)"
    by (simp only: stored_append)
  also have "stored (brpop_keys queues) ?f = unat n_jobs"
    by (subst stored_buckets [OF assms(3)]) (simp_all add: job_key_polled [OF ne])
  finally show ?thesis by simp
qed

lemma job_payload_marker:
  assumes "codec_ok c" and "plan_ok queues priorities st"
  shows "payload_marker c (job_payload c st queues priorities i) = Some (of_int (clock_ns (st i)))"
proof -
  from assms(2) have st: "stamp_ok (st i)" and ne: "queues \<noteq> []"
    and u: "list_all utf8_valid queues" by (auto simp: plan_ok_def)
  obtain e where e: "envelope_new c (st i) (job_queue queues i) (job_priority queues priorities i)
      (of_nat i) = (Ok e :: (redis_error, celery_envelope) outcome)"
    using envelope_new_exists [OF st] by blast
  have "utf8_valid (job_queue queues i)"
    using u job_queue_mem [OF ne] by (simp add: list_all_iff)
  from payload_marker_new [OF assms(1) st this e] show ?thesis
    by (simp add: job_payload_def e)
qed

lemma bulk_enqueue_markers:
  assumes "codec_ok c" and "server_ok sv" and "plan_ok queues priorities st"
    and "bulk_enqueue c st sv queues priorities n_jobs s = (Ok (), s')"
    and "stored_set ks (sv_lists sv s) = {}" and "v \<in> stored_set ks (sv_lists sv s')"
  shows "\<exists>i < unat n_jobs. payload_marker c v = Some (of_int (clock_ns (st i)))"
proof -
  from assms(6) obtain k where k: "k \<in> set ks" "v \<in> set (sv_lists sv s' k)"
    by (auto simp: stored_set_def)
  have "sv_lists sv s k = []"
    using assms(5) k(1) by (auto simp: stored_set_def)
  with k(2) obtain i where "i < unat n_jobs" "v = job_payload c st queues priorities i"
    by (auto simp: bulk_enqueue_lists [OF assms(2-4)])
  with job_payload_marker [OF assms(1,3)] show ?thesis by blast
qed

section \<open>Clearing\<close>

lemma fold_DEL: "fold cmd_effect (map DEL ks) m = (\<lambda>k. if k \<in> set ks then [] else m k)"
  by (induction ks arbitrary: m) (auto simp: fun_eq_iff)

lemma clear_queue_lists:
  assumes "server_ok sv" and "clear_queue sv queues s = (Ok (), s')"
  shows "sv_lists sv s' = (\<lambda>k. if k \<in> set (brpop_keys queues) then [] else sv_lists sv s k)"
  using assms(2) server_ok_pipe [OF assms(1), of "map DEL (brpop_keys queues)" s s']
  by (auto simp: clear_queue_def fold_DEL split: prod.splits sum.splits)

lemma flushdb_lists:
  assumes "server_ok sv" and "flushdb sv s = (Ok (), s')"
  shows "sv_lists sv s' = (\<lambda>k. [])"
  using assms(2) server_ok_pipe [OF assms(1), of "[FLUSHDB]" s s']
  by (auto simp: flushdb_def split: prod.splits sum.splits)

section \<open>The order of a drain\<close>

text \<open>What successive \<open>BRPOP\<close>s of the same keys return, when nothing else moves.\<close>

fun pop_all :: "nat \<Rightarrow> string list \<Rightarrow> keyspace \<Rightarrow> (string \<times> string) list" where
  "pop_all 0 ks m = []"
| "pop_all (Suc n) ks m =
     (case brpop_effect ks m of None \<Rightarrow> [] | Some (kv, m') \<Rightarrow> kv # pop_all n ks m')"

lemma pop_all_skip: "m k = [] \<Longrightarrow> k \<notin> set ks \<Longrightarrow> pop_all n (k # ks) m = pop_all n ks m"
proof (induction n arbitrary: m)
  case (Suc n)
  show ?case
  proof (cases "brpop_effect ks m")
    case (Some r)
    obtain l v m' where r: "r = ((l, v), m')" by (metis surj_pair)
    from brpop_effect_Some Some r have "l \<in> set ks" "m' = m(l := butlast (m l))" by blast+
    with Suc.prems have "m' k = []" by auto
    with Suc Some r show ?thesis by simp
  qed (simp add: Suc.prems(1))
qed simp

lemma pop_all_first:
  assumes "k \<notin> set ks"
  shows "pop_all (length (m k) + n) (k # ks) m = map (Pair k) (rev (m k)) @ pop_all n ks (m(k := []))"
proof (induction "m k" arbitrary: m rule: rev_induct)
  case Nil
  then have "m k = []" by simp
  then have "m(k := []) = m" by (simp add: fun_eq_iff)
  with \<open>m k = []\<close> assms show ?case by (simp add: pop_all_skip)
next
  case (snoc x xs)
  from snoc.hyps(1) [of "m(k := xs)"] have
    "pop_all (length xs + n) (k # ks) (m(k := xs)) = map (Pair k) (rev xs) @ pop_all n ks (m(k := []))"
    by simp
  then show ?case by (simp add: snoc.hyps(2) [symmetric])
qed

lemma pop_all_stored:
  "distinct ks \<Longrightarrow> pop_all (stored ks m) ks m = concat (map (\<lambda>k. map (Pair k) (rev (m k))) ks)"
proof (induction ks arbitrary: m)
  case (Cons k ks)
  then have k: "k \<notin> set ks" by simp
  then have st: "stored ks (m(k := [])) = stored ks m"
    by (intro stored_cong) auto
  have same: "map (\<lambda>l. map (Pair l) (rev ((m(k := [])) l))) ks = map (\<lambda>l. map (Pair l) (rev (m l))) ks"
    using k by (intro map_cong) auto
  have "pop_all (stored ks m) ks (m(k := [])) = concat (map (\<lambda>l. map (Pair l) (rev (m l))) ks)"
    using Cons.IH [of "m(k := [])"] Cons.prems by (simp only: st same distinct.simps)
  with pop_all_first [OF k, of m "stored ks m"] show ?case by simp
qed simp

section \<open>A plan to witness the properties\<close>

definition demo_queues :: "string list" where
  "demo_queues = [''celery'']"

definition demo_prios :: "u8 list" where
  "demo_prios = [0, 9]"

abbreviation demo_stamps :: "nat \<Rightarrow> stamp" where
  "demo_stamps \<equiv> (\<lambda>_. demo_stamp)"

lemma demo_plan: "plan_ok demo_queues demo_prios demo_stamps"
  using demo_queue_ok demo_stamp_ok by (simp add: plan_ok_def demo_queues_def demo_prios_def)

lemma demo_keys_distinct: "distinct (brpop_keys demo_queues)"
  using make_queue_names_keys_distinct [of "''celery''" 1]
  by (simp add: make_queue_names_def demo_queues_def)

lemma mem_server_pipe: "sv_pipe mem_server cs s = (Inr (), fold cmd_effect cs s)"
  by (simp add: mem_server_def)

lemma bulk_enqueue_Ok:
  assumes "\<And>cs s. \<exists>s'. sv_pipe sv cs s = (Inr (), s')" and "plan_ok queues priorities st"
  shows "\<exists>s'. bulk_enqueue c st sv queues priorities n_jobs s = (Ok (), s')"
proof -
  have n: "unat n_jobs \<le> 2 ^ 64"
    using unsigned_less [where w = n_jobs and 'a = nat] by simp
  show ?thesis
    unfolding bulk_enqueue_def
    by (rule bulk_loop_returns [OF assms(1) batch_cmds_Ok [OF assms(2) n]])
qed

lemma demo_enqueue:
  obtains m where "bulk_enqueue ref_codec demo_stamps mem_server demo_queues demo_prios n (\<lambda>k. [])
    = (Ok (), m)"
  using bulk_enqueue_Ok [OF _ demo_plan, of mem_server ref_codec n "\<lambda>k. []"] mem_server_pipe by blast

section \<open>The properties of the producer\<close>

text \<open>
  C15: bulk enqueue refines the list of jobs. Whatever the batch boundaries, a bulk enqueue that
  reports success has pushed onto each key exactly the messages of the jobs assigned to it, each
  once, in job order from the right end (the end \<open>BRPOP\<close> takes from), in front of what the key
  held, and has touched nothing else.
\<close>

theorem bulk_enqueue_refines:
  assumes "server_ok sv" and "plan_ok queues priorities st"
    and "bulk_enqueue c st sv queues priorities n_jobs s = (Ok (), s')"
  shows "sv_lists sv s' = (\<lambda>k. rev (map (job_payload c st queues priorities)
      (filter (\<lambda>i. job_key queues priorities i = k) [0..<unat n_jobs])) @ sv_lists sv s k)"
  by (rule ext) (rule bulk_enqueue_lists [OF assms])

theorem bulk_enqueue_refines_witness:
  "\<exists>m. bulk_enqueue ref_codec demo_stamps mem_server demo_queues demo_prios 2 (\<lambda>k. []) = (Ok (), m) \<and>
     m ''celery'' = [job_payload ref_codec demo_stamps demo_queues demo_prios 0]"
proof (rule demo_enqueue [of 2])
  fix m assume m: "bulk_enqueue ref_codec demo_stamps mem_server demo_queues demo_prios 2 (\<lambda>k. []) = (Ok (), m)"
  have "job_key demo_queues demo_prios 0 = ''celery''" "job_key demo_queues demo_prios 1 \<noteq> ''celery''"
    by (simp_all add: job_key_def job_queue_def job_priority_def demo_queues_def demo_prios_def
        q_for_pri_def priority_step_unfold PRIORITY_SEP_def)
  moreover have "[0..<unat (2::u64)] = [0, 1]" by (simp add: upt_rec)
  ultimately show ?thesis
    using m bulk_enqueue_refines [OF mem_server_ok demo_plan m]
    by (simp add: mem_server_def)
qed



text \<open>
  C16: the worker can reach every job, exactly once. A successful bulk enqueue raises the number of
  messages under the keys the workers poll by exactly the number of jobs, leaves every other key
  alone, and, when the polled keys were empty, a worker reads from every message stored there the
  clock value at which its job was built.
\<close>

theorem bulk_enqueue_exact:
  assumes "codec_ok c" and "server_ok sv" and "plan_ok queues priorities st"
    and "distinct (brpop_keys queues)"
    and "bulk_enqueue c st sv queues priorities n_jobs s = (Ok (), s')"
  shows "stored (brpop_keys queues) (sv_lists sv s')
      = stored (brpop_keys queues) (sv_lists sv s) + unat n_jobs \<and>
    (\<forall>k. k \<notin> set (brpop_keys queues) \<longrightarrow> sv_lists sv s' k = sv_lists sv s k) \<and>
    (stored_set (brpop_keys queues) (sv_lists sv s) = {} \<longrightarrow>
       (\<forall>v \<in> stored_set (brpop_keys queues) (sv_lists sv s').
          \<exists>i < unat n_jobs. payload_marker c v = Some (of_int (clock_ns (st i)))))"
proof -
  have ne: "queues \<noteq> []" using assms(3) by (simp add: plan_ok_def)
  have "sv_lists sv s' k = sv_lists sv s k" if "k \<notin> set (brpop_keys queues)" for k
  proof -
    have "job_key queues priorities i \<noteq> k" for i
      using that job_key_polled [OF ne] by blast
    then show ?thesis by (simp add: bulk_enqueue_lists [OF assms(2,3,5)])
  qed
  with bulk_enqueue_stored [OF assms(2-5)] bulk_enqueue_markers [OF assms(1-3,5)] show ?thesis
    by blast
qed

theorem bulk_enqueue_exact_witness:
  "\<exists>m. bulk_enqueue ref_codec demo_stamps mem_server demo_queues demo_prios 3 (\<lambda>k. []) = (Ok (), m) \<and>
     stored (brpop_keys demo_queues) m = 3"
proof (rule demo_enqueue [of 3])
  fix m assume m: "bulk_enqueue ref_codec demo_stamps mem_server demo_queues demo_prios 3 (\<lambda>k. []) = (Ok (), m)"
  have "stored ks (\<lambda>k. []) = 0" for ks by (induction ks) auto
  then show ?thesis
    using m bulk_enqueue_exact [OF ref_codec_ok mem_server_ok demo_plan demo_keys_distinct m]
    by (simp add: mem_server_def)
qed

text \<open>
  C18: the order of consumption. A single consumer that drains a freshly filled set of keys with
  \<open>BRPOP\<close> gets the jobs priority step by priority step (0 first), within a step queue by queue, and
  within a key in job order: first in, first out.
\<close>

theorem drain_order:
  assumes "server_ok sv" and "plan_ok queues priorities st" and "distinct (brpop_keys queues)"
    and "bulk_enqueue c st sv queues priorities n_jobs s = (Ok (), s')"
    and "\<And>k. k \<in> set (brpop_keys queues) \<Longrightarrow> sv_lists sv s k = []"
  shows "pop_all (unat n_jobs) (brpop_keys queues) (sv_lists sv s') =
    concat (map (\<lambda>k. map (\<lambda>i. (k, job_payload c st queues priorities i))
      (filter (\<lambda>i. job_key queues priorities i = k) [0..<unat n_jobs])) (brpop_keys queues))"
proof -
  have "stored ks (sv_lists sv s) = 0" if "set ks \<subseteq> set (brpop_keys queues)" for ks
    using that assms(5) by (induction ks) auto
  then have "stored (brpop_keys queues) (sv_lists sv s') = unat n_jobs"
    using bulk_enqueue_stored [OF assms(1-4)] by simp
  then have "pop_all (unat n_jobs) (brpop_keys queues) (sv_lists sv s')
      = concat (map (\<lambda>k. map (Pair k) (rev (sv_lists sv s' k))) (brpop_keys queues))"
    using pop_all_stored [OF assms(3), of "sv_lists sv s'"] by simp
  also have "map (\<lambda>k. map (Pair k) (rev (sv_lists sv s' k))) (brpop_keys queues)
      = map (\<lambda>k. map (\<lambda>i. (k, job_payload c st queues priorities i))
          (filter (\<lambda>i. job_key queues priorities i = k) [0..<unat n_jobs])) (brpop_keys queues)"
    using assms(5) by (intro map_cong) (simp_all add: bulk_enqueue_lists [OF assms(1,2,4)])
  finally show ?thesis .
qed

theorem drain_order_witness:
  "\<exists>m. bulk_enqueue ref_codec demo_stamps mem_server demo_queues demo_prios 3 (\<lambda>k. []) = (Ok (), m) \<and>
     pop_all 3 (brpop_keys demo_queues) m =
       concat (map (\<lambda>k. map (\<lambda>i. (k, job_payload ref_codec demo_stamps demo_queues demo_prios i))
         (filter (\<lambda>i. job_key demo_queues demo_prios i = k) [0, 1, 2])) (brpop_keys demo_queues))"
proof (rule demo_enqueue [of 3])
  fix m assume m: "bulk_enqueue ref_codec demo_stamps mem_server demo_queues demo_prios 3 (\<lambda>k. []) = (Ok (), m)"
  have "[0..<unat (3::u64)] = [0, 1, 2]" by (simp add: upt_rec)
  with m drain_order [OF mem_server_ok demo_plan demo_keys_distinct m] show ?thesis
    by (simp add: mem_server_def)
qed

text \<open>
  C27: the load is spread evenly. Over any number \<open>n\<close> of jobs, every pair of a queue index and a
  priority index is chosen by \<open>round_robin_indices\<close> either \<open>n div (queues * priorities)\<close> times or
  once more, and over whole cycles exactly equally often.
\<close>

theorem round_robin_fair:
  assumes "a \<noteq> 0" and "b \<noteq> 0" and "q < a" and "p < b"
    and "Suc (n div (unat a * unat b)) * (unat a * unat b) \<le> 2 ^ 64"
  defines "chosen \<equiv> card {i \<in> {..<n}. round_robin_indices (of_nat i) a b = (Ok (q, p) :: (unit, u64 \<times> u64) outcome)}"
  shows "n div (unat a * unat b) \<le> chosen \<and> chosen \<le> Suc (n div (unat a * unat b)) \<and>
    (n mod (unat a * unat b) = 0 \<longrightarrow> chosen = n div (unat a * unat b))"
proof -
  let ?c = "n div (unat a * unat b)"
  have v: "rr_valid (a, b)" and slot: "(Ok (q, p) :: (unit, u64 \<times> u64) outcome) \<in> rr_slots (a, b)"
    and pos: "0 < rr_cycle (a, b)"
    using assms(1-4) by (auto simp: rr_valid_def rr_slots_def rr_cycle_def unat_gt_0)
  have cyc: "rr_cycle (a, b) = unat a * unat b" by (simp add: rr_cycle_def)
  have lim: "?c * rr_cycle (a, b) \<le> 2 ^ 64"
    using assms(5) by (simp add: cyc)
  note sp = round_robin.spread [OF v pos, of n, OF _ slot, unfolded cyc, OF assms(5)]
  have "chosen = ?c" if "n mod (unat a * unat b) = 0"
  proof -
    from that have "n = ?c * rr_cycle (a, b)"
      unfolding cyc by (metis add.right_neutral div_mult_mod_eq)
    with round_robin.whole_cycles [OF v lim slot] show ?thesis
      unfolding chosen_def by simp
  qed
  with sp show ?thesis by (simp add: chosen_def)
qed

theorem round_robin_fair_witness:
  "card {i \<in> {..<12::nat}. round_robin_indices (of_nat i) 3 2 = (Ok (2, 1) :: (unit, u64 \<times> u64) outcome)} = 2"
  using round_robin_fair [of 3 2 2 1 12] by simp

text \<open>
  C28: clearing clears what the workers would poll and nothing else. After a successful
  \<open>clear_queue\<close> no message is left under any key the workers poll for these queues, whatever the
  priority it was sent with, and every other key is as before.
\<close>

theorem clearing:
  assumes "server_ok sv" and "clear_queue sv queues s = (Ok (), s')"
  shows "stored (brpop_keys queues) (sv_lists sv s') = 0 \<and>
    (\<forall>q \<in> set queues. \<forall>prio. sv_lists sv s' (q_for_pri q prio) = []) \<and>
    (\<forall>k. k \<notin> set (brpop_keys queues) \<longrightarrow> sv_lists sv s' k = sv_lists sv s k)"
proof -
  have "stored ks (\<lambda>k. if k \<in> set (brpop_keys queues) then [] else m k) = 0"
    if "set ks \<subseteq> set (brpop_keys queues)" for ks m
    using that by (induction ks) auto
  moreover have "q_for_pri q prio \<in> set (brpop_keys queues)" if "q \<in> set queues" for q prio
    unfolding brpop_keys_def using that by (rule kombu.written_key_polled)
  ultimately show ?thesis
    by (simp add: clear_queue_lists [OF assms])
qed

theorem clearing_witness:
  "\<exists>m. clear_queue mem_server demo_queues (\<lambda>k. [''stale'']) = (Ok (), m) \<and>
     stored (brpop_keys demo_queues) m = 0 \<and> m ''other'' = [''stale'']"
proof -
  obtain m where m: "clear_queue mem_server demo_queues (\<lambda>k. [''stale'']) = (Ok (), m)"
    by (simp add: clear_queue_def mem_server_pipe)
  have "''other'' \<notin> set (brpop_keys demo_queues)"
    by (simp add: brpop_keys_def demo_queues_def PRIORITY_STEPS_def q_for_pri_def Let_def)
  with m clearing [OF mem_server_ok m] show ?thesis
    by (simp add: mem_server_def)
qed

end
