(* ===== verification/Ref_Hist.thy ===== *)
theory Ref_Hist
  imports Metrics
begin

text \<open>
  An exact histogram: the bound and the list of the values recorded. It satisfies \<open>hist_ok\<close> and is
  what the witnesses of the properties about statistics are evaluated on.
\<close>

record ref_hist =
  rh_high :: u64
  rh_values :: "u64 list"

definition rh_rank :: "f64 \<Rightarrow> nat \<Rightarrow> nat" where
  "rh_rank q n =
     (case q of
        Fin a \<Rightarrow> min (n - 1) (nat \<lfloor>a * of_nat n\<rfloor>)
      | Inf s \<Rightarrow> if s then 0 else n - 1
      | NaN \<Rightarrow> 0)"

definition rh_quantile :: "f64 \<Rightarrow> ref_hist \<Rightarrow> u64" where
  "rh_quantile q h =
     (let vs = sort (rh_values h) in if vs = [] then 0 else vs ! rh_rank q (length vs))"

definition ref_hist_ops :: "ref_hist hist_ops" where
  "ref_hist_ops =
     \<lparr>h_new = (\<lambda>lo hi d. if 1 \<le> lo \<and> 2 * unat lo \<le> unat hi
                then Some \<lparr>rh_high = hi, rh_values = []\<rparr> else None),
      h_high = rh_high,
      h_record = (\<lambda>v h. if v \<le> rh_high h then Some (h\<lparr>rh_values := v # rh_values h\<rparr>) else None),
      h_reset = (\<lambda>h. h\<lparr>rh_values := []\<rparr>),
      h_is_empty = (\<lambda>h. of_nat (length (rh_values h)) = (0 :: u64)),
      h_len = (\<lambda>h. of_nat (length (rh_values h))),
      h_max = (\<lambda>h. if rh_values h = [] then 0 else last (sort (rh_values h))),
      h_mean = (\<lambda>h. f64_div (fl (sum_list (map (\<lambda>v. of_nat (unat v)) (rh_values h))))
                 (f64_of_nat (length (rh_values h)))),
      h_quantile = rh_quantile\<rparr>"

lemma rh_rank_less: "0 < n \<Longrightarrow> rh_rank q n < n"
  by (auto simp: rh_rank_def split: f64.splits)

lemma rh_rank_mono: "f64_le p q \<Longrightarrow> rh_rank p n \<le> rh_rank q n"
  by (cases p; cases q)
    (auto simp: rh_rank_def f64_le_def f64_eq_def le_max_iff_disj min_le_iff_disj
      intro!: nat_mono floor_mono mult_right_mono)

lemma rh_quantile_mono:
  assumes "f64_le p q"
  shows "rh_quantile p h \<le> rh_quantile q h"
proof (cases "rh_values h = []")
  case False
  then have "sort (rh_values h) \<noteq> []" "0 < length (rh_values h)"
    by (metis length_0_conv length_sort length_greater_0_conv)+
  then show ?thesis
    using rh_rank_mono [OF assms] rh_rank_less [of "length (rh_values h)" q]
    by (simp add: rh_quantile_def Let_def sorted_nth_mono)
qed (simp add: rh_quantile_def)

lemma rh_quantile_max:
  assumes "rh_values h \<noteq> []"
  shows "rh_quantile q h \<le> last (sort (rh_values h))"
proof -
  have ne: "sort (rh_values h) \<noteq> []" "0 < length (rh_values h)"
    using assms by (metis length_0_conv length_sort length_greater_0_conv)+
  then show ?thesis
    using rh_rank_less [OF ne(2), of q]
    by (simp add: rh_quantile_def Let_def last_conv_nth sorted_nth_mono)
qed

lemma ref_hist_ok: "hist_ok ref_hist_ops"
proof -
  have "rh_quantile q h = 0" if "rh_values h = []" for q h
    using that by (simp add: rh_quantile_def)
  with rh_quantile_mono rh_quantile_max show ?thesis
    by (auto simp: hist_ok_def ref_hist_ops_def split: if_splits)
qed

section \<open>The property of the statistics\<close>

text \<open>
  The statistics of a trial are ordered. Of every histogram the percentiles reported grow from
  p50 to p99.99 and stay at or below the maximum, and the count reported is the number of values.
\<close>

lemma latency_stats_ordered:
  assumes "hist_ok H"
  shows "sorted [p50 (from_histogram H h), p75 (from_histogram H h), p90 (from_histogram H h),
      p95 (from_histogram H h), p99 (from_histogram H h), p99_9 (from_histogram H h),
      p99_99 (from_histogram H h), max_us (from_histogram H h)] \<and>
    total_count (from_histogram H h) = h_len H h"
  using from_histogram_ordered [OF assms, of h] by (fastforce intro: order_trans)

end
