(* ===== verification/Trial_Spec.thy ===== *)
theory Trial_Spec
  imports Trial Pool_Spec Enqueue_Spec Ref_Hist
begin

text \<open>
  The properties of a trial: what a finished trial reports about the pool that ran, and when its
  verdict is right.
\<close>

section \<open>What a step of the pool keeps\<close>

lemma worker_step_latencies:
  assumes "worker_step cfg c sv t pc s = (pc', s')"
  shows "\<exists>ys. latencies s' = latencies s @ ys"
proof (cases "terminal pc \<or> pc = Counting")
  case True
  with assms show ?thesis by (cases pc) (auto simp: inc_completed_def)
next
  case False
  then have "\<not> terminal pc" "pc \<noteq> Counting" by auto
  show ?thesis by (rule worker_step_samples [OF assms \<open>\<not> terminal pc\<close> \<open>pc \<noteq> Counting\<close>]) auto
qed

lemma worker_step_done: "worker_step cfg c sv t pc s = (pc', s') \<Longrightarrow> done_flag s \<Longrightarrow> done_flag s'"
  by (cases "pc = Counting") (auto simp: inc_completed_def worker_step_frame(3))

lemma pool_step_grows:
  assumes "pool_step cfg c sv p p'"
  shows "\<exists>ys. latencies (sh p') = latencies (sh p) @ ys"
    and "done_flag (sh p) \<Longrightarrow> done_flag (sh p')"
    and "length (pcs p') = length (pcs p)"
  using assms worker_step_latencies worker_step_done
  by (induction rule: pool_step.induct) fastforce+

lemma pool_step_counted:
  assumes "balanced cfg sv N p" and "N < 2 ^ 64" and "pool_step cfg c sv p p'"
  shows "counted (sh p) \<le> counted (sh p')"
  using assms(3)
proof (cases rule: pool_step.cases)
  case (work i t pc' s')
  show ?thesis
  proof (cases "pcs p ! i = Counting")
    case True
    with work(4) have w: "worker_step cfg c sv t Counting (sh p) = (pc', s')" by simp
    from counting_step(2) [OF w balanced_room [OF assms(1,2) work(2) True]] show ?thesis
      by (simp add: work(1))
  next
    case False
    from worker_step_frame(1) [OF work(4) False] show ?thesis by (simp add: work(1))
  qed
qed simp_all

section \<open>A trial runs a pool\<close>

lemma trial_step_pool:
  assumes "trial_step H cfg c sv T T'"
  shows "t_pool T' = t_pool T \<or> pool_step (trial_worker_cfg cfg) c sv (t_pool T) (t_pool T')"
  using assms by (induction rule: trial_step.induct) auto

lemma trial_run_invariant:
  assumes "trial_run H cfg c sv n s0 T"
    and "\<And>h1 h2. empty_histogram H (hist_max_us cfg) = (Ok h1 :: (unit, _) outcome) \<Longrightarrow>
      I (trial_start (unat n) s0 h1 h1)"
    and "\<And>T T'. I T \<Longrightarrow> pool_run (trial_worker_cfg cfg) c sv (unat n) s0 (t_pool T) \<Longrightarrow>
      trial_step H cfg c sv T T' \<Longrightarrow> I T'"
  shows "I T \<and> pool_run (trial_worker_cfg cfg) c sv (unat n) s0 (t_pool T)"
proof -
  from assms(1) obtain T0 where
    T0: "trial_init H cfg n s0 = (Ok T0 :: (unit, _) outcome)" "(trial_step H cfg c sv)\<^sup>*\<^sup>* T0 T"
    by (auto simp: trial_run_def)
  from T0(1) obtain h where h: "empty_histogram H (hist_max_us cfg) = (Ok h :: (unit, _) outcome)"
    and T: "T0 = trial_start (unat n) s0 h h"
    by (auto simp: trial_init_def outcome_simps)
  from T0(2) show ?thesis
  proof (induction rule: rtranclp_induct)
    case base
    with assms(2) [OF h] show ?case by (simp add: T trial_start_def pool_run_def)
  next
    case (step T1 T2)
    from trial_step_pool [OF step.hyps(2)] step.IH
    have "pool_run (trial_worker_cfg cfg) c sv (unat n) s0 (t_pool T2)"
      by (auto simp: pool_run_def intro: rtranclp.rtrancl_into_rtrancl)
    with assms(3) [OF _ _ step.hyps(2)] step.IH show ?case by blast
  qed
qed

section \<open>Invariants of a trial\<close>

text \<open>
  The collector has recorded the first \<open>taken\<close> samples; the verdict \<open>not timed out\<close> is given only
  after the done signal; a finished trial reports the state it ended in.
\<close>

definition record_all :: "'h hist_ops \<Rightarrow> u64 list \<Rightarrow> 'h \<Rightarrow> 'h" where
  "record_all H vs h = fold (\<lambda>us. record_ignored H (max us 1)) vs h"

fun verdict_ok :: "phase \<Rightarrow> bool \<Rightarrow> bool" where
  "verdict_ok (Draining to d) df = (to \<or> df)"
| "verdict_ok (Finished r) df = (timed_out r \<or> df)"
| "verdict_ok ph df = True"

definition finished_ok :: "'h hist_ops \<Rightarrow> ('s, 'h) trial \<Rightarrow> bool" where
  "finished_ok H T \<longleftrightarrow> (\<forall>r. phase T = Finished r \<longrightarrow>
     all_ended (t_pool T) \<and> taken T = length (latencies (sh (t_pool T))) \<and>
     (\<exists>d to. r = make_result H (of_nat (length (pcs (t_pool T)))) (metrics (sh (t_pool T))) d (mon T)
        (trial_hist (coll T)) to))"

definition trial_inv :: "'h hist_ops \<Rightarrow> 'h \<Rightarrow> ('s, 'h) trial \<Rightarrow> bool" where
  "trial_inv H h0 T \<longleftrightarrow>
     taken T \<le> length (latencies (sh (t_pool T))) \<and>
     trial_hist (coll T) = record_all H (take (taken T) (latencies (sh (t_pool T)))) h0 \<and>
     verdict_ok (phase T) (done_flag (sh (t_pool T))) \<and> finished_ok H T"

lemma record_all_snoc [simp]: "record_all H (vs @ [us]) h = record_ignored H (max us 1) (record_all H vs h)"
  by (simp add: record_all_def)

lemma trial_inv_init:
  "trial_inv H h (trial_start n s0 h h')"
  by (simp add: trial_start_def trial_inv_def finished_ok_def record_all_def)

lemma trial_inv_pool:
  assumes "trial_inv H h0 T" and "pool_step wcfg c sv (t_pool T) p" and "\<And>r. phase T \<noteq> Finished r"
  shows "trial_inv H h0 (T\<lparr>t_pool := p\<rparr>)"
proof -
  obtain ys where "latencies (sh p) = latencies (sh (t_pool T)) @ ys"
    using pool_step_grows(1) [OF assms(2)] by blast
  with assms(1,3) pool_step_grows(2) [OF assms(2)] show ?thesis
    by (cases "phase T") (auto simp: trial_inv_def finished_ok_def)
qed

lemma trial_inv_step:
  assumes "trial_inv H h0 T" and "trial_step H cfg c sv T T'"
  shows "trial_inv H h0 T'"
  using assms(2)
proof (cases rule: trial_step.cases)
  case (pool p)
  have "\<And>r. phase T \<noteq> Finished r" using pool(3) by (cases "phase T") auto
  from trial_inv_pool [OF assms(1) pool(2) this] show ?thesis by (simp only: pool(1))
next
  case (pool_drain p)
  have "\<And>r. phase T \<noteq> Finished r" using pool_drain(3) by (cases "phase T") auto
  from trial_inv_pool [OF assms(1) pool_drain(2) this] show ?thesis by (simp only: pool_drain(1))
next
  case collect
  then have "\<And>r. phase T \<noteq> Finished r"
    using assms(1) by (auto simp: trial_inv_def finished_ok_def)
  with collect assms(1) show ?thesis
    by (auto simp: trial_inv_def finished_ok_def collect_sample_def Let_def take_Suc_conv_app_nth)
next
  case (tick_window snap col)
  then show ?thesis
    using assms(1) by (auto simp: trial_inv_def finished_ok_def active_def collect_snapshot_def)
next
  case (finish to d)
  then show ?thesis using assms(1) by (auto simp: trial_inv_def finished_ok_def make_result_def)
qed (use assms(1) in \<open>auto simp: trial_inv_def finished_ok_def active_def\<close>)

lemma trial_inv_run:
  assumes "trial_run H cfg c sv n s0 T"
  shows "\<exists>h0. empty_histogram H (hist_max_us cfg) = (Ok h0 :: (unit, _) outcome) \<and> trial_inv H h0 T"
    and "pool_run (trial_worker_cfg cfg) c sv (unat n) s0 (t_pool T)"
proof -
  have "(\<exists>h0. empty_histogram H (hist_max_us cfg) = (Ok h0 :: (unit, _) outcome) \<and> trial_inv H h0 T) \<and>
      pool_run (trial_worker_cfg cfg) c sv (unat n) s0 (t_pool T)"
    using assms
  proof (rule trial_run_invariant)
    fix h1 h2 assume "empty_histogram H (hist_max_us cfg) = (Ok h1 :: (unit, _) outcome)"
    then show "\<exists>h0. empty_histogram H (hist_max_us cfg) = (Ok h0 :: (unit, _) outcome) \<and>
        trial_inv H h0 (trial_start (unat n) s0 h1 h1)"
      by (intro exI [of _ h1] conjI trial_inv_init)
  qed (elim exE conjE, intro exI conjI, assumption, rule trial_inv_step)
  then show "\<exists>h0. empty_histogram H (hist_max_us cfg) = (Ok h0 :: (unit, _) outcome) \<and> trial_inv H h0 T"
    and "pool_run (trial_worker_cfg cfg) c sv (unat n) s0 (t_pool T)" by auto
qed

section \<open>The histograms\<close>

definition hist_bound :: "trial_config \<Rightarrow> nat" where
  "hist_bound cfg = max 60000000 (min (unat (tc_timeout_secs cfg) * 1000000) 86400000000)"

lemma empty_histogram_Ok:
  assumes "hist_ok H"
  shows "\<exists>h. empty_histogram H us = Ok h \<and> h_len H h = 0 \<and>
    unat (h_high H h) = max 60000000 (min (unat us) 86400000000)"
proof -
  let ?b = "if us < MIN_HIST_MAX_US then MIN_HIST_MAX_US
    else if MAX_HIST_MAX_US < us then MAX_HIST_MAX_US else us"
  have b: "unat ?b = max 60000000 (min (unat us) 86400000000)"
    by (simp add: MIN_HIST_MAX_US_def MAX_HIST_MAX_US_def word_less_nat_alt)
  have "(2::nat) * 1 \<le> max 60000000 (min (unat us) 86400000000)" by simp
  then have "2 * unat (1::u64) \<le> unat ?b" by (simp only: b) simp
  with hist_okD(1) [OF assms, of 1 ?b] obtain h where
    "h_new H 1 ?b 3 = Some h" "h_len H h = 0" "h_high H h = ?b" by auto
  with b show ?thesis by (simp only: empty_histogram_def Let_def) simp
qed

lemma hist_max_bound: "max 60000000 (min (unat (hist_max_us cfg)) 86400000000) = hist_bound cfg"
  by (simp add: hist_max_us_def hist_bound_def unat_saturating_mul)

lemma record_ignored_len:
  assumes "hist_ok H" and "v \<le> h_high H h"
  shows "h_len H (record_ignored H v h) = h_len H h + 1" and "h_high H (record_ignored H v h) = h_high H h"
  using hist_okD(2) [OF assms] hist_okD(3) [OF assms(1), of v h]
  by (auto simp: record_ignored_def split: option.splits)

lemma record_all_len:
  assumes "hist_ok H" and "\<And>v. v \<in> set vs \<Longrightarrow> max v 1 \<le> h_high H h"
  shows "h_len H (record_all H vs h) = h_len H h + of_nat (length vs) \<and>
    h_high H (record_all H vs h) = h_high H h"
  using assms(2)
proof (induction vs rule: rev_induct)
  case (snoc v vs)
  then have ih: "h_len H (record_all H vs h) = h_len H h + of_nat (length vs)"
      "h_high H (record_all H vs h) = h_high H h" by auto
  have "max v 1 \<le> h_high H (record_all H vs h)" using snoc.prems [of v] ih(2) by simp
  from record_ignored_len [OF assms(1) this] ih show ?case by simp
qed (simp add: record_all_def)

lemma trial_worker_cfg_simps [simp]:
  "target_jobs (trial_worker_cfg cfg) = tc_jobs cfg"
  "keys (trial_worker_cfg cfg) = brpop_keys (tc_queues cfg)"
  by (simp_all add: trial_worker_cfg_def)

lemma finished_result:
  assumes "trial_inv H h0 T" and "phase T = Finished r"
  shows "total_jobs r = completed (metrics (sh (t_pool T)))" and "tr_errors r = errors (metrics (sh (t_pool T)))"
    and "latency r = from_histogram H (record_all H (latencies (sh (t_pool T))) h0)"
    and "all_ended (t_pool T)" and "\<not> timed_out r \<Longrightarrow> done_flag (sh (t_pool T))"
    and "throughput_per_sec r = throughput_samples (mon T)" and "errors_per_sec r = errors_samples (mon T)"
    and "latency_per_sec r = latency_sec_samples (mon T)"
  using assms by (auto simp: trial_inv_def finished_ok_def make_result_def get_completed_def get_errors_def)

section \<open>A trial of one worker to witness the properties\<close>

definition demo_trial_cfg :: trial_config where
  "demo_trial_cfg =
     \<lparr>tc_queues = demo_queues, tc_jobs = 1, tc_brpop_timeout_secs = Fin 1, tc_timeout_secs = 300, tc_quiet = False,
      percentile_specs = [SpecMax]\<rparr>"

text \<open>The steps of a worker that runs alone are steps of the trial while the main task selects.\<close>

lemma worker_step_keeps:
  assumes "worker_step cfg c sv t pc s = (pc', s')" and "\<not> terminal pc"
  shows "shutdown s' = shutdown s" and "pc' \<noteq> Aborted"
proof -
  show "shutdown s' = shutdown s"
    using assms worker_step_frame(2) [OF assms(1)] by (cases "pc = Counting") (auto simp: inc_completed_def)
  show "pc' \<noteq> Aborted"
    using assms by (cases pc) (auto split: if_splits sum.splits option.splits prod.splits outcome.splits)
qed

lemma run_alone_trial:
  "run_alone (trial_worker_cfg cfg) c sv ts pc s = (pc', s') \<Longrightarrow> running (phase T) \<Longrightarrow>
   t_pool T = \<lparr>sh = s, pcs = [pc]\<rparr> \<Longrightarrow>
   (trial_step H cfg c sv)\<^sup>*\<^sup>* T (T\<lparr>t_pool := \<lparr>sh = s', pcs = [pc']\<rparr>\<rparr>)"
proof (induction ts arbitrary: pc s T)
  case Nil
  then have "T\<lparr>t_pool := \<lparr>sh = s', pcs = [pc']\<rparr>\<rparr> = T" by (cases T) simp
  then show ?case by simp
next
  case (Cons t ts)
  obtain pc1 s1 where w: "worker_step (trial_worker_cfg cfg) c sv t pc s = (pc1, s1)" by fastforce
  with Cons.prems(1) have r: "run_alone (trial_worker_cfg cfg) c sv ts pc1 s1 = (pc', s')" by simp
  show ?case
  proof (cases "terminal pc")
    case True
    with w have "pc1 = pc" "s1 = s" by (cases pc; simp)+
    with Cons.IH [OF r Cons.prems(2)] Cons.prems(3) show ?thesis by simp
  next
    case False
    let ?p = "\<lparr>sh = s1, pcs = [pc1]\<rparr>"
    have "pool_step (trial_worker_cfg cfg) c sv (t_pool T) ?p"
      using pool_step.work [of 0 "t_pool T" "trial_worker_cfg cfg" c sv t pc1 s1] False w
      by (simp add: Cons.prems(3))
    moreover have "shutdown (sh ?p) = shutdown (sh (t_pool T))" "Aborted \<notin> set (pcs ?p)"
      using worker_step_keeps [OF w False] by (simp_all add: Cons.prems(3))
    ultimately have "trial_step H cfg c sv T (T\<lparr>t_pool := ?p\<rparr>)"
      using Cons.prems(2) by (intro trial_step.pool)
    moreover have "(trial_step H cfg c sv)\<^sup>*\<^sup>* (T\<lparr>t_pool := ?p\<rparr>) (T\<lparr>t_pool := \<lparr>sh = s', pcs = [pc']\<rparr>\<rparr>)"
      using Cons.IH [OF r, of "T\<lparr>t_pool := ?p\<rparr>"] Cons.prems(2) by simp
    ultimately show ?thesis by (rule converse_rtranclp_into_rtranclp)
  qed
qed

lemma demo_keys: "\<exists>ks. brpop_keys demo_queues = ''celery'' # ks"
  by (simp add: brpop_keys_def PRIORITY_STEPS_def demo_queues_def q_for_pri_def priority_step_unfold)

definition demo_hist :: ref_hist where
  "demo_hist = \<lparr>rh_high = 300000000, rh_values = []\<rparr>"

lemma demo_empty: "empty_histogram ref_hist_ops (hist_max_us demo_trial_cfg) = Ok demo_hist"
  by (simp add: empty_histogram_def hist_max_us_def saturating_mul_def demo_trial_cfg_def
      MIN_HIST_MAX_US_def MAX_HIST_MAX_US_def ref_hist_ops_def demo_hist_def)

text \<open>The state in which the worker has returned, and the one before it sends the done signal.\<close>

definition demo_trial :: "keyspace pool \<Rightarrow> (keyspace, ref_hist) trial" where
  "demo_trial p =
     \<lparr>t_pool = p, taken = 0, coll = \<lparr>trial_hist = demo_hist, per_sec_hist = demo_hist\<rparr>,
      mon = monitor_new, phase = Selecting, joined = {}, printed = []\<rparr>"

definition demo_counted :: "keyspace shared" where
  "demo_counted =
     \<lparr>srv = (\<lambda>_. []), metrics = \<lparr>completed = 1, errors = 0\<rparr>, latencies = [4],
      done_flag = False, shutdown = False\<rparr>"

lemma demo_trial_start:
  "trial_run ref_hist_ops demo_trial_cfg ref_codec mem_server 1 demo_broker
     (demo_trial \<lparr>sh = demo_counted, pcs = [Signalling 1]\<rparr>)"
proof -
  obtain ks where ks: "brpop_keys demo_queues = ''celery'' # ks" using demo_keys by blast
  have "run_alone (trial_worker_cfg demo_trial_cfg) ref_codec mem_server [0, 0, 0, 5000, 0] Top
      (sh (pool_init 1 demo_broker)) = (Signalling 1, demo_counted)"
    by (simp add: trial_worker_cfg_def demo_trial_cfg_def ks pool_init_def demo_broker_def demo_counted_def
        mem_server_def demo_sample metrics_new_def get_completed_def inc_completed_def record_sample_def
        fun_eq_iff)
  from run_alone_trial [OF this, of "demo_trial (pool_init 1 demo_broker)" ref_hist_ops]
  have "(trial_step ref_hist_ops demo_trial_cfg ref_codec mem_server)\<^sup>*\<^sup>*
      (demo_trial (pool_init 1 demo_broker)) (demo_trial \<lparr>sh = demo_counted, pcs = [Signalling 1]\<rparr>)"
    by (simp add: demo_trial_def pool_init_def)
  then show ?thesis
    by (simp add: trial_run_def trial_init_def trial_start_def demo_empty demo_trial_def)
qed

lemma demo_rest:
  "run_alone (trial_worker_cfg demo_trial_cfg) ref_codec mem_server [0, 0, 0] (Signalling 1) demo_counted
     = (Returned (Inr ()), sh demo_final)"
  by (simp add: demo_counted_def demo_final_def trial_worker_cfg_def demo_trial_cfg_def signal_done_def
      get_completed_def)

definition demo_result :: "bool \<Rightarrow> trial_result" where
  "demo_result to =
     make_result ref_hist_ops 1 (metrics (sh demo_final)) (Fin 2) monitor_new
       (record_all ref_hist_ops [4] demo_hist) to"

lemma demo_finish:
  assumes "t_pool T = demo_final" and "taken T = 0" and "trial_hist (coll T) = demo_hist"
    and "mon T = monitor_new" and "phase T = Draining to (Fin 2)"
  shows "\<exists>T'. (trial_step ref_hist_ops cfg c sv)\<^sup>*\<^sup>* T T' \<and> phase T' = Finished (demo_result to)
    \<and> t_pool T' = demo_final \<and> printed T' = printed T"
proof -
  let ?T1 = "T\<lparr>taken := 1, coll := collect_sample ref_hist_ops 4 (coll T)\<rparr>"
  have "trial_step ref_hist_ops cfg c sv T ?T1"
    using trial_step.collect [of T ref_hist_ops cfg c sv] assms(1,2) by (simp add: demo_final_def)
  moreover have "trial_step ref_hist_ops cfg c sv ?T1 (?T1\<lparr>phase := Finished (demo_result to)\<rparr>)"
    using trial_step.finish [of ?T1 to "Fin 2" ref_hist_ops cfg c sv] assms
    by (simp add: demo_final_def all_ended_def demo_result_def record_all_def collect_sample_def Let_def)
  ultimately have "(trial_step ref_hist_ops cfg c sv)\<^sup>*\<^sup>* T (?T1\<lparr>phase := Finished (demo_result to)\<rparr>)"
    by (meson rtranclp.rtrancl_refl rtranclp.rtrancl_into_rtrancl)
  with assms(1) show ?thesis
    by (intro exI [of _ "?T1\<lparr>phase := Finished (demo_result to)\<rparr>"] conjI) simp_all
qed

lemma trial_run_extend:
  "trial_run H cfg c sv n s0 T \<Longrightarrow> (trial_step H cfg c sv)\<^sup>*\<^sup>* T T' \<Longrightarrow> trial_run H cfg c sv n s0 T'"
  unfolding trial_run_def by (meson rtranclp_trans)

text \<open>
  A run in which the signal is seen, and one in which the worker sends it and ends between the
  polls of the first and the last branch of the \<open>select!\<close>.
\<close>

lemma demo_success:
  "\<exists>T. trial_run ref_hist_ops demo_trial_cfg ref_codec mem_server 1 demo_broker T \<and>
     phase T = Finished (demo_result False) \<and> t_pool T = demo_final \<and> printed T = [println []]"
proof -
  let ?T1 = "demo_trial demo_final"
  let ?T2 = "?T1\<lparr>phase := Draining False (Fin 2), printed := printed ?T1 @ done_lines demo_trial_cfg\<rparr>"
  have "(trial_step ref_hist_ops demo_trial_cfg ref_codec mem_server)\<^sup>*\<^sup>*
      (demo_trial \<lparr>sh = demo_counted, pcs = [Signalling 1]\<rparr>) ?T1"
    using run_alone_trial [OF demo_rest, of "demo_trial \<lparr>sh = demo_counted, pcs = [Signalling 1]\<rparr>" ref_hist_ops]
    by (simp add: demo_trial_def demo_final_def)
  moreover have "trial_step ref_hist_ops demo_trial_cfg ref_codec mem_server ?T1
      ?T2"
    by (rule trial_step.see_done) (simp_all add: demo_trial_def demo_final_def)
  ultimately have 1: "trial_run ref_hist_ops demo_trial_cfg ref_codec mem_server 1 demo_broker
      ?T2"
    by (intro trial_run_extend [OF demo_trial_start]) (rule rtranclp.rtrancl_into_rtrancl)
  from demo_finish [of "?T2" False demo_trial_cfg ref_codec mem_server]
    trial_run_extend [OF 1] show ?thesis
    by (auto simp: demo_trial_def done_lines_def demo_trial_cfg_def)
qed

lemma demo_race:
  "\<exists>T. trial_run ref_hist_ops demo_trial_cfg ref_codec mem_server 1 demo_broker T \<and>
     phase T = Finished (demo_result True) \<and> t_pool T = demo_final"
proof -
  let ?T0 = "demo_trial \<lparr>sh = demo_counted, pcs = [Signalling 1]\<rparr>"
  let ?T1 = "?T0\<lparr>phase := NotDoneYet\<rparr>"
  let ?T2 = "?T1\<lparr>t_pool := demo_final\<rparr>"
  let ?J = "?T2\<lparr>phase := Joining, joined := {0}\<rparr>"
  let ?T3 = "?J\<lparr>phase := Draining True (Fin 2), printed := printed ?J @ exited_lines demo_trial_cfg\<rparr>"
  have "trial_step ref_hist_ops demo_trial_cfg ref_codec mem_server ?T0 ?T1"
    by (rule trial_step.see_not_done) (simp_all add: demo_trial_def demo_counted_def)
  moreover have "(trial_step ref_hist_ops demo_trial_cfg ref_codec mem_server)\<^sup>*\<^sup>* ?T1 ?T2"
    using run_alone_trial [OF demo_rest, of ?T1 ref_hist_ops]
    by (simp add: demo_trial_def demo_final_def)
  moreover have "(trial_step ref_hist_ops demo_trial_cfg ref_codec mem_server)\<^sup>*\<^sup>* ?T2 ?T3"
  proof -
    have "trial_step ref_hist_ops demo_trial_cfg ref_codec mem_server ?T2 (?T2\<lparr>phase := Joining\<rparr>)"
      by (rule trial_step.see_no_timeout) simp
    moreover have "trial_step ref_hist_ops demo_trial_cfg ref_codec mem_server
        (?T2\<lparr>phase := Joining\<rparr>) ?J"
      using trial_step.join_worker [of "?T2\<lparr>phase := Joining\<rparr>" 0 ref_hist_ops demo_trial_cfg ref_codec mem_server]
      by (simp add: demo_trial_def demo_final_def)
    moreover have "trial_step ref_hist_ops demo_trial_cfg ref_codec mem_server ?J ?T3"
      by (rule trial_step.all_exited) (simp_all add: demo_trial_def demo_final_def)
    ultimately show ?thesis by (meson rtranclp.rtrancl_refl rtranclp.rtrancl_into_rtrancl)
  qed
  ultimately have 1: "trial_run ref_hist_ops demo_trial_cfg ref_codec mem_server 1 demo_broker ?T3"
    by (intro trial_run_extend [OF demo_trial_start])
      (meson converse_rtranclp_into_rtranclp rtranclp_trans)
  from demo_finish [of ?T3 True demo_trial_cfg ref_codec mem_server]
    trial_run_extend [OF 1] show ?thesis
    by (auto simp: demo_trial_def)
qed

lemma demo_trial_facts:
  "distinct (brpop_keys (tc_queues demo_trial_cfg))"
  "stored (brpop_keys (tc_queues demo_trial_cfg)) (sv_lists mem_server demo_broker) = unat (tc_jobs demo_trial_cfg)"
  "v \<in> stored_set (brpop_keys (tc_queues demo_trial_cfg)) (sv_lists mem_server demo_broker) \<Longrightarrow>
     payload_marker ref_codec v \<noteq> None"
proof -
  show d: "distinct (brpop_keys (tc_queues demo_trial_cfg))"
    using demo_keys_distinct by (simp add: demo_trial_cfg_def)
  obtain ks where ks: "brpop_keys demo_queues = ''celery'' # ks" using demo_keys by blast
  with d have "''celery'' \<notin> set ks" by (simp add: demo_trial_cfg_def)
  then have "stored ks demo_broker = stored ks (\<lambda>_. [])"
    by (intro stored_cong) (auto simp: demo_broker_def)
  moreover have "stored ks (\<lambda>_. []) = 0" for ks by (induction ks) auto
  ultimately show "stored (brpop_keys (tc_queues demo_trial_cfg)) (sv_lists mem_server demo_broker)
      = unat (tc_jobs demo_trial_cfg)"
    by (simp add: demo_trial_cfg_def ks mem_server_def) (simp add: demo_broker_def)
  show "v \<in> stored_set (brpop_keys (tc_queues demo_trial_cfg)) (sv_lists mem_server demo_broker) \<Longrightarrow>
      payload_marker ref_codec v \<noteq> None"
    by (auto simp: stored_set_def mem_server_def demo_broker_def demo_marker split: if_splits)
qed

section \<open>The properties of a trial\<close>



text \<open>
  C10: the verdict and the count of every finished trial. A trial that is not reported as timed out
  has reached its target; no trial reports more jobs than were queued, nor more than its target
  plus the other workers; and the workers have all ended before the numbers are read.
\<close>

theorem trial_verdict:
  assumes "hist_ok H" and "server_ok sv" and "distinct (brpop_keys (tc_queues cfg))"
    and "stored (brpop_keys (tc_queues cfg)) (sv_lists sv s0) < 2 ^ 64"
    and "trial_run H cfg c sv n s0 T" and "phase T = Finished r"
  shows "(\<not> timed_out r \<longrightarrow> unat (tc_jobs cfg) \<le> unat (total_jobs r)) \<and>
    unat (total_jobs r) \<le> stored (brpop_keys (tc_queues cfg)) (sv_lists sv s0) \<and>
    (tc_jobs cfg \<noteq> 0 \<longrightarrow> unat (total_jobs r) \<le> unat (tc_jobs cfg) - 1 + unat n) \<and>
    all_ended (t_pool T)"
proof -
  from trial_inv_run [OF assms(5)] obtain h0 where
    h0: "trial_inv H h0 T" and run: "pool_run (trial_worker_cfg cfg) c sv (unat n) s0 (t_pool T)" by blast
  note res = finished_result [OF h0(1) assms(6)]
  have d: "distinct (keys (trial_worker_cfg cfg))"
    and N: "stored (keys (trial_worker_cfg cfg)) (sv_lists sv s0) < 2 ^ 64"
    using assms(3,4) by simp_all
  from signal_run [OF assms(2) d N run] balanced_run [OF assms(2) d N run]
    overshoot_run [OF assms(2) d N run] pool_run_length [OF run] res(4,5)
  show ?thesis
    by (auto simp: signal_inv_def balanced_def overshoot_inv_def res(1) split: if_splits)
qed

theorem trial_verdict_witness:
  "1 \<le> unat (total_jobs (demo_result False)) \<and> unat (total_jobs (demo_result False)) \<le> 1"
proof -
  from demo_success obtain T where
    T: "trial_run ref_hist_ops demo_trial_cfg ref_codec mem_server 1 demo_broker T"
       "phase T = Finished (demo_result False)" by blast
  have "\<not> timed_out (demo_result False)" by (simp add: demo_result_def make_result_def)
  with trial_verdict [OF ref_hist_ok mem_server_ok demo_trial_facts(1) _ T]
  show ?thesis unfolding demo_trial_facts(2) by (simp add: demo_trial_cfg_def)
qed


end
