(* ===== verification/Trial_Seconds.thy ===== *)
theory Trial_Seconds
  imports Trial_Spec
begin

text \<open>
  The per-second samples of a trial: the throughput samples add up, the three kinds of samples
  describe the same seconds, and the windows of the collector partition the trial's histogram.
\<close>

section \<open>The monitor\<close>

text \<open>The values stored under a key of the hash map.\<close>

definition series :: "string \<Rightarrow> (string \<times> u64 list) list \<Rightarrow> u64 list" where
  "series k m = (case map_of m k of None \<Rightarrow> [] | Some vs \<Rightarrow> vs)"

lemma series_push: "series l (push_entry k v m) = series l m @ (if l = k then [v] else [])"
  by (induction k v m rule: push_entry.induct) (auto simp: series_def)

lemma series_window:
  "length (series l (fold (\<lambda>spec. push_entry (spec_name spec) (val spec)) specs m))
     = length (series l m) + length (filter (\<lambda>spec. spec_name spec = l) specs)"
  by (induction specs arbitrary: m) (auto simp: series_push)

text \<open>
  After \<open>w\<close> complete ticks: the deltas add up to the last readings, the readings are never ahead of
  the counters, and every series has \<open>w\<close> values for each spec of its name.
\<close>

definition monitor_inv :: "trial_config \<Rightarrow> ('s, 'h) trial \<Rightarrow> bool" where
  "monitor_inv cfg T \<longleftrightarrow>
     sum_list (map unat (throughput_samples (mon T))) = unat (prev_completed (mon T)) \<and>
     unat (prev_completed (mon T)) \<le> counted (sh (t_pool T)) \<and>
     sum_list (errors_samples (mon T)) = prev_errors (mon T) \<and>
     (\<exists>w. length (throughput_samples (mon T)) = w + (if mpc (mon T) \<in> {Asleep, Marking} then 0 else 1) \<and>
        length (errors_samples (mon T)) = w + (if mpc (mon T) = AskingWindow then 1 else 0) \<and>
        (\<forall>l. length (series l (latency_sec_samples (mon T)))
           = w * length (filter (\<lambda>spec. spec_name spec = l) (percentile_specs cfg))))"

lemma monitor_inv_init:
  "monitor_inv cfg (trial_start n s0 h1 h2)"
  by (simp add: trial_start_def monitor_inv_def monitor_new_def series_def)

lemma monitor_inv_frame:
  assumes "monitor_inv cfg T" and "counted (sh (t_pool T)) \<le> counted (sh (t_pool T'))" and "mon T' = mon T"
  shows "monitor_inv cfg T'"
  using assms by (auto simp: monitor_inv_def)

lemma monitor_inv_throughput:
  assumes "monitor_inv cfg T" and "mpc (mon T) = Asleep"
  shows "monitor_inv cfg (T\<lparr>mon := monitor_throughput (metrics (sh (t_pool T))) (mon T)\<rparr>)"
proof -
  let ?cur = "completed (metrics (sh (t_pool T)))"
  have le: "prev_completed (mon T) \<le> ?cur"
    using assms(1) by (simp add: monitor_inv_def word_le_nat_alt)
  then have "unat (prev_completed (mon T)) + unat (?cur - prev_completed (mon T)) = unat ?cur"
    by (simp add: unat_sub word_le_nat_alt)
  with assms show ?thesis
    by (simp add: monitor_inv_def monitor_throughput_def get_completed_def Let_def)
qed

lemma monitor_inv_errors:
  assumes "monitor_inv cfg T" and "mpc (mon T) = ReadingErrors"
  shows "monitor_inv cfg (T\<lparr>mon := monitor_errors (metrics (sh (t_pool T))) (mon T)\<rparr>)"
  using assms by (simp add: monitor_inv_def monitor_errors_def get_errors_def Let_def)

lemma monitor_inv_window:
  assumes "monitor_inv cfg T" and "mpc (mon T) = AskingWindow"
  shows "monitor_inv cfg (T\<lparr>coll := col, mon := monitor_window H (percentile_specs cfg) snap (mon T)\<rparr>)"
proof -
  from assms obtain w where w: "length (throughput_samples (mon T)) = w + 1"
      "length (errors_samples (mon T)) = w + 1"
      "\<And>l. length (series l (latency_sec_samples (mon T)))
         = w * length (filter (\<lambda>spec. spec_name spec = l) (percentile_specs cfg))"
    by (auto simp: monitor_inv_def)
  with assms(1) show ?thesis
    by (auto simp: monitor_inv_def monitor_window_def series_window intro!: exI [of _ "Suc w"])
qed

lemma monitor_inv_step:
  assumes "monitor_inv cfg T" and "balanced (trial_worker_cfg cfg) sv N (t_pool T)" and "N < 2 ^ 64"
    and "trial_step H cfg c sv T T'"
  shows "monitor_inv cfg T'"
proof -
  have grows: "counted (sh (t_pool T)) \<le> counted (sh (t_pool T'))"
    using trial_step_pool [OF assms(4)] pool_step_counted [OF assms(2,3)] by auto
  from assms(4) show ?thesis
  proof (cases rule: trial_step.cases)
    case tick_throughput
    with monitor_inv_throughput [OF assms(1)] show ?thesis by simp
  next
    case tick_errors
    with monitor_inv_errors [OF assms(1)] show ?thesis by simp
  next
    case (tick_window snap col)
    with monitor_inv_window [OF assms(1)] show ?thesis by simp
  next
    case tick_mark
    with assms(1) show ?thesis by (simp add: monitor_inv_def)
  qed (use monitor_inv_frame [OF assms(1) grows] in simp_all)
qed

lemma monitor_inv_run:
  assumes "server_ok sv" and "distinct (brpop_keys (tc_queues cfg))"
    and "stored (brpop_keys (tc_queues cfg)) (sv_lists sv s0) < 2 ^ 64"
    and "trial_run H cfg c sv n s0 T"
  shows "monitor_inv cfg T"
proof -
  have d: "distinct (keys (trial_worker_cfg cfg))"
    and N: "stored (keys (trial_worker_cfg cfg)) (sv_lists sv s0) < 2 ^ 64"
    using assms(2,3) by simp_all
  have "monitor_inv cfg T \<and> pool_run (trial_worker_cfg cfg) c sv (unat n) s0 (t_pool T)"
    using assms(4)
  proof (rule trial_run_invariant)
    fix T T' assume "monitor_inv cfg T" "pool_run (trial_worker_cfg cfg) c sv (unat n) s0 (t_pool T)"
      "trial_step H cfg c sv T T'"
    then show "monitor_inv cfg T'"
      using monitor_inv_step [OF _ balanced_run [OF assms(1) d N] N] by blast
  qed (rule monitor_inv_init)
  then show ?thesis ..
qed



section \<open>The collector\<close>

text \<open>
  What the collector does on a sequence of messages: samples (\<open>Some us\<close>) and snapshot requests
  (\<open>None\<close>), with the windows it hands out.
\<close>

fun collector_loop ::
  "'h hist_ops \<Rightarrow> u64 option list \<Rightarrow> 'h collector \<Rightarrow> 'h list \<times> 'h collector" where
  "collector_loop H [] col = ([], col)"
| "collector_loop H (Some us # ms) col = collector_loop H ms (collect_sample H us col)"
| "collector_loop H (None # ms) col =
     (let (snap, col') = collect_snapshot H col; (snaps, col'') = collector_loop H ms col'
      in (snap # snaps, col''))"

lemma collector_loop_len:
  assumes "hist_ok H"
  shows "collector_loop H ms col = (snaps, col') \<Longrightarrow>
    h_high H (trial_hist col) = b \<Longrightarrow> h_high H (per_sec_hist col) = b \<Longrightarrow>
    (\<forall>us. Some us \<in> set ms \<longrightarrow> max us 1 \<le> b) \<Longrightarrow>
    h_len H (per_sec_hist col) + of_nat (length (filter (\<lambda>m. m \<noteq> None) ms))
      = sum_list (map (h_len H) snaps) + h_len H (per_sec_hist col') \<and>
    h_len H (trial_hist col') = h_len H (trial_hist col) + of_nat (length (filter (\<lambda>m. m \<noteq> None) ms))"
proof (induction ms arbitrary: col snaps)
  case (Cons m ms)
  show ?case
  proof (cases m)
    case None
    let ?col = "col\<lparr>per_sec_hist := h_reset H (per_sec_hist col)\<rparr>"
    obtain snaps1 where 1: "collector_loop H ms ?col = (snaps1, col')" "snaps = per_sec_hist col # snaps1"
      using Cons.prems(1) None by (auto simp: collect_snapshot_def split: prod.splits)
    from Cons.IH [OF 1(1)] Cons.prems(2-4) show ?thesis
      by (simp add: None 1(2) hist_okD(4,5) [OF assms])
  next
    case (Some us)
    have le: "max us 1 \<le> h_high H (trial_hist col)" "max us 1 \<le> h_high H (per_sec_hist col)"
      using Cons.prems(2-4) Some by auto
    note r = record_ignored_len [OF assms le(1)] record_ignored_len [OF assms le(2)]
    have "collector_loop H ms (collect_sample H us col) = (snaps, col')"
      using Cons.prems(1) by (simp add: Some)
    from Cons.IH [OF this] Cons.prems(2-4) r show ?thesis
      by (simp add: Some collect_sample_def Let_def algebra_simps)
  qed
qed simp

text \<open>
  No latency is lost between the seconds. Whatever the order in which samples and snapshot
  requests reach the collector, when all samples are within the bound the windows it hands out and
  the one it still holds contain, together, exactly as many values as samples were sent, and so
  does the histogram of the whole trial.
\<close>

lemma collector_partition:
  assumes "hist_ok H" and "empty_histogram H us = (Ok h :: (unit, _) outcome)"
    and "collector_loop H ms \<lparr>trial_hist = h, per_sec_hist = h\<rparr> = (snaps, col)"
    and "\<And>v. Some v \<in> set ms \<Longrightarrow> unat v \<le> max 60000000 (min (unat us) 86400000000)"
  shows "h_len H (trial_hist col) = of_nat (length (filter (\<lambda>m. m \<noteq> None) ms)) \<and>
    sum_list (map (h_len H) snaps) + h_len H (per_sec_hist col) = h_len H (trial_hist col)"
proof -
  have "\<exists>h. empty_histogram H us = (Ok h :: (unit, _) outcome) \<and> h_len H h = 0 \<and>
      unat (h_high H h) = max 60000000 (min (unat us) 86400000000)"
    by (rule empty_histogram_Ok [OF assms(1)])
  with assms(2) have h: "h_len H h = 0" "unat (h_high H h) = max 60000000 (min (unat us) 86400000000)"
    by auto
  have "max v 1 \<le> h_high H h" if "Some v \<in> set ms" for v
  proof -
    have "unat (max v 1) = max (unat v) 1" by (simp add: max_def word_le_nat_alt)
    with assms(4) [OF that] h(2) show ?thesis by (simp add: word_le_nat_alt)
  qed
  then show ?thesis
    using collector_loop_len [OF assms(1,3), of "h_high H h"] h(1) by simp
qed

text \<open>
  C35: every latency the trial can wait for fits the histogram. Creating the histogram never panics,
  and its bound is the timeout in microseconds, but at least a minute and at most a day, for every
  timeout, even one whose conversion to microseconds saturates.
\<close>

theorem histogram_bound:
  assumes "hist_ok H"
  shows "\<exists>h. empty_histogram H (hist_max_us cfg) = (Ok h :: (unit, _) outcome) \<and>
    unat (h_high H h) = max 60000000 (min (unat (tc_timeout_secs cfg) * 1000000) 86400000000) \<and>
    (\<forall>v. 1 \<le> v \<longrightarrow> unat v \<le> hist_bound cfg \<longrightarrow>
       h_len H (record_ignored H v h) = 1)"
proof -
  have "\<exists>h. empty_histogram H (hist_max_us cfg) = (Ok h :: (unit, _) outcome) \<and> h_len H h = 0 \<and>
      unat (h_high H h) = hist_bound cfg"
    unfolding hist_max_bound [symmetric] by (rule empty_histogram_Ok [OF assms])
  then obtain h where h: "empty_histogram H (hist_max_us cfg) = (Ok h :: (unit, _) outcome)"
      "h_len H h = 0" "unat (h_high H h) = hist_bound cfg" by blast
  have "h_len H (record_ignored H v h) = 1" if "unat v \<le> hist_bound cfg" for v
    using record_ignored_len(1) [OF assms, of v h] that h by (simp add: word_le_nat_alt)
  with h show ?thesis by (auto simp: hist_bound_def)
qed

theorem histogram_bound_witness:
  "\<exists>h. empty_histogram ref_hist_ops (hist_max_us demo_trial_cfg) = (Ok h :: (unit, _) outcome) \<and>
     unat (h_high ref_hist_ops h) = 300000000"
  using histogram_bound [OF ref_hist_ok, of demo_trial_cfg] by (auto simp: demo_trial_cfg_def)

end
