(* ===== verification/Report_File.thy ===== *)
theory Report_File
  imports Report Options Console
begin

text \<open>
  What \<open>src/src/report.rs\<close> prints and writes: the line of a trial, the summary, and \<open>write_json\<close>.
  The file system and the two libraries that lay text out are parameters.
\<close>

section \<open>The file system\<close>

text \<open>
  \<open>std::fs::create_dir_all\<close>, \<open>std::fs::write\<close>, and what a reader finds at a path, over an arbitrary
  type of file systems. The program relies on one thing: a write that succeeds leaves the text
  there.
\<close>

datatype io_error = IoError string

record 'f file_ops =
  f_mkdirs :: "path_component list \<Rightarrow> 'f \<Rightarrow> (io_error + unit) \<times> 'f"
  f_write :: "string \<Rightarrow> string \<Rightarrow> 'f \<Rightarrow> (io_error + unit) \<times> 'f"
  f_read :: "string \<Rightarrow> 'f \<Rightarrow> string option"

definition files_ok :: "'f file_ops \<Rightarrow> bool" where
  "files_ok F \<longleftrightarrow> (\<forall>path text f f'. f_write F path text f = (Inr (), f') \<longrightarrow> f_read F path f' = Some text)"

lemma files_okD: "files_ok F \<Longrightarrow> f_write F path text f = (Inr (), f') \<Longrightarrow> f_read F path f' = Some text"
  by (simp add: files_ok_def)

section \<open>Layout\<close>

text \<open>\<open>serde_json::to_string_pretty\<close>, and how \<open>comfy_table\<close> draws rows of cells, the header first.\<close>

record renderers =
  to_string_pretty :: "json \<Rightarrow> string"
  draw_table :: "string list list \<Rightarrow> string"

section \<open>Printing\<close>

definition print_trial_line :: "trial_result \<Rightarrow> event list" where
  "print_trial_line r = [println (trial_line r)]"

definition print_summary :: "renderers \<Rightarrow> trial_result list \<Rightarrow> event list" where
  "print_summary R results =
     [println [], println ''--- Summary ---'', println (draw_table R (summary_table results))]"

section \<open>Writing the report\<close>

text \<open>\<open>Path::parent\<close>, as components; \<open>None\<close> for a root and for the empty path.\<close>

definition parent_path :: "string \<Rightarrow> path_component list option" where
  "parent_path path =
     (let cs = path_components path
      in if cs = [] \<or> last cs = RootDir then None else Some (butlast cs))"

definition create_parent :: "'f file_ops \<Rightarrow> string \<Rightarrow> 'f \<Rightarrow> (io_error + unit) \<times> 'f" where
  "create_parent F path f =
     (case parent_path path of
        None \<Rightarrow> (Inr (), f)
      | Some parent \<Rightarrow> if parent \<noteq> [] then f_mkdirs F parent f else (Inr (), f))"

definition write_json ::
  "'f file_ops \<Rightarrow> renderers \<Rightarrow> json \<Rightarrow> string \<Rightarrow> 'f \<Rightarrow> (io_error, unit) outcome \<times> event list \<times> 'f" where
  "write_json F R doc path f =
     (let text = to_string_pretty R doc in
      if path = ''-'' then (Ok (), [println text], f)
      else case create_parent F path f of
             (Inl e, f1) \<Rightarrow> (Err e, [], f1)
           | (Inr _, f1) \<Rightarrow>
               (case f_write F path text f1 of
                  (Inl e, f2) \<Rightarrow> (Err e, [], f2)
                | (Inr _, f2) \<Rightarrow> (Ok (), [println (''Results saved '' @ right_arrow @ '' '' @ path)], f2)))"

text \<open>Where a report that was written can be found.\<close>

definition reported :: "'f file_ops \<Rightarrow> string \<Rightarrow> string \<Rightarrow> event list \<Rightarrow> 'f \<Rightarrow> bool" where
  "reported F path text evs f \<longleftrightarrow>
     (if path = ''-'' then println text \<in> set evs else f_read F path f = Some text)"

lemma write_json_reported:
  assumes "files_ok F" and "write_json F R doc path f = (Ok (), evs, f')"
  shows "reported F path (to_string_pretty R doc) evs f'"
  using assms files_okD [OF assms(1)]
  by (auto simp: write_json_def reported_def Let_def split: if_splits prod.splits sum.splits)

lemma write_json_not_Panicked: "fst (write_json F R doc path f) \<noteq> Panicked m"
  by (simp add: write_json_def Let_def split: prod.splits sum.splits)

end
