(* ===== verification/Bench.thy ===== *)
theory Bench
  imports Trial_Seconds Cli_Spec Report_File
begin

text \<open>
  \<open>main\<close> of \<open>src/src/main.rs\<close>: what is cleared and filled before a trial, the loop over the worker
  counts with its warmups, every way a run can fail, and the exit status. A trial is the relation
  \<open>trial_run\<close>, so the loop is a relation too.
\<close>

section \<open>Before a trial\<close>

definition pre_trial_clear ::
  "'s server \<Rightarrow> string list \<Rightarrow> bool \<Rightarrow> 's \<Rightarrow> (redis_error, unit) outcome \<times> 's" where
  "pre_trial_clear sv queues allow_flush s =
     (if allow_flush then flushdb sv s else clear_queue sv queues s)"

definition queue_names :: "cli \<Rightarrow> string list" where
  "queue_names cli = make_queue_names (queue cli) (num_queues cli)"

definition bench_config :: "cli \<Rightarrow> percentile_spec list \<Rightarrow> u64 \<Rightarrow> trial_config" where
  "bench_config cli specs n_jobs =
     \<lparr>tc_queues = queue_names cli, tc_jobs = n_jobs,
      tc_brpop_timeout_secs = cli_brpop_timeout_secs cli, tc_timeout_secs = timeout cli,
      tc_quiet = quiet cli, percentile_specs = specs\<rparr>"

section \<open>One trial and the loop\<close>

text \<open>What ends a run early: a command of the fill fails, or a worker cannot connect.\<close>

datatype run_error = FillFailed redis_error | CannotConnect redis_error

text \<open>What is printed between the fill and a trial or a warmup.\<close>

definition trial_mark :: "cli \<Rightarrow> usize \<Rightarrow> event list" where
  "trial_mark cli n =
     (if quiet cli then [] else [Stdout (''  ['' @ align_right 4 (dec (unat n)) @ '' workers] '')])"

definition warmup_mark :: "cli \<Rightarrow> usize \<Rightarrow> event list" where
  "warmup_mark cli n =
     (if quiet cli then []
      else [Stdout (''  ['' @ align_right 4 (dec (unat n)) @ '' workers] warmup '' @ ellipsis @ '' '')])"

text \<open>
  Clear, fill, print the mark, run: the outcome of the trial, the broker it leaves and what it
  printed. The stamps \<open>st\<close> are the UUIDs and clock readings of the messages of this fill. A trial
  fails when the connection of a worker fails: the \<open>i\<close> workers spawned before it have run for a
  while and are dropped. If the histograms cannot be created the collector panics, and so does the
  trial when it is over; what it printed until then is left open.
\<close>

inductive one_trial ::
  "'h hist_ops \<Rightarrow> text_codec \<Rightarrow> 's server \<Rightarrow> cli \<Rightarrow> percentile_spec list \<Rightarrow> event list \<Rightarrow> u64 \<Rightarrow>
   usize \<Rightarrow> 's \<Rightarrow> (run_error, trial_result) outcome \<Rightarrow> 's \<Rightarrow> event list \<Rightarrow> bool"
  for H c sv cli specs mark n_jobs n s where
  clear_failed: "\<lbrakk>pre_trial_clear sv (queue_names cli) (allow_flushdb cli) s = (r, s1);
      stops FillFailed r = Some res\<rbrakk>
     \<Longrightarrow> one_trial H c sv cli specs mark n_jobs n s res s1 []"
| enqueue_failed: "\<lbrakk>pre_trial_clear sv (queue_names cli) (allow_flushdb cli) s = (Ok (), s1);
      \<And>i. stamp_ok (st i);
      bulk_enqueue c st sv (queue_names cli) (priorities cli) n_jobs s1 = (r, s2);
      stops FillFailed r = Some res\<rbrakk>
     \<Longrightarrow> one_trial H c sv cli specs mark n_jobs n s res s2 []"
| connect_failed: "\<lbrakk>pre_trial_clear sv (queue_names cli) (allow_flushdb cli) s = (Ok (), s1);
      \<And>i. stamp_ok (st i);
      bulk_enqueue c st sv (queue_names cli) (priorities cli) n_jobs s1 = (Ok (), s2);
      i < unat n; pool_run (trial_worker_cfg (bench_config cli specs n_jobs)) c sv i s2 p\<rbrakk>
     \<Longrightarrow> one_trial H c sv cli specs mark n_jobs n s (Err (CannotConnect e)) (srv (sh p)) mark"
| no_histogram: "\<lbrakk>pre_trial_clear sv (queue_names cli) (allow_flushdb cli) s = (Ok (), s1);
      \<And>i. stamp_ok (st i);
      bulk_enqueue c st sv (queue_names cli) (priorities cli) n_jobs s1 = (Ok (), s2);
      trial_init H (bench_config cli specs n_jobs) n s2
        = (Panicked m :: (unit, ('s, 'h) trial) outcome);
      pool_run (trial_worker_cfg (bench_config cli specs n_jobs)) c sv (unat n) s2 p\<rbrakk>
     \<Longrightarrow> one_trial H c sv cli specs mark n_jobs n s (Panicked m) (srv (sh p)) (mark @ out)"
| ran: "\<lbrakk>pre_trial_clear sv (queue_names cli) (allow_flushdb cli) s = (Ok (), s1);
      \<And>i. stamp_ok (st i);
      bulk_enqueue c st sv (queue_names cli) (priorities cli) n_jobs s1 = (Ok (), s2);
      trial_run H (bench_config cli specs n_jobs) c sv n s2 T; phase T = Finished r\<rbrakk>
     \<Longrightarrow> one_trial H c sv cli specs mark n_jobs n s (Ok r) (srv (sh (t_pool T))) (mark @ printed T)"

text \<open>The warmup before a trial, when there is one: its result is not used.\<close>

inductive warmup ::
  "'h hist_ops \<Rightarrow> text_codec \<Rightarrow> 's server \<Rightarrow> cli \<Rightarrow> percentile_spec list \<Rightarrow> usize \<Rightarrow> 's \<Rightarrow>
   (run_error, unit) outcome \<Rightarrow> 's \<Rightarrow> event list \<Rightarrow> bool"
  for H c sv cli specs n s where
  no_warmup: "warmup_jobs cli = 0 \<Longrightarrow> warmup H c sv cli specs n s (Ok ()) s []"
| warmed_up: "\<lbrakk>0 < warmup_jobs cli;
      one_trial H c sv cli specs (warmup_mark cli n) (warmup_jobs cli) n s (Ok r) s1 out\<rbrakk>
     \<Longrightarrow> warmup H c sv cli specs n s (Ok ()) s1 out"
| warmup_failed: "\<lbrakk>0 < warmup_jobs cli;
      one_trial H c sv cli specs (warmup_mark cli n) (warmup_jobs cli) n s r s1 out;
      stops (\<lambda>e. e) r = Some res\<rbrakk>
     \<Longrightarrow> warmup H c sv cli specs n s res s1 out"

abbreviation main_trial ::
  "'h hist_ops \<Rightarrow> text_codec \<Rightarrow> 's server \<Rightarrow> cli \<Rightarrow> percentile_spec list \<Rightarrow> usize \<Rightarrow> 's \<Rightarrow>
   (run_error, trial_result) outcome \<Rightarrow> 's \<Rightarrow> event list \<Rightarrow> bool" where
  "main_trial H c sv cli specs n \<equiv> one_trial H c sv cli specs (trial_mark cli n) (jobs cli) n"

inductive bench_loop ::
  "'h hist_ops \<Rightarrow> text_codec \<Rightarrow> 's server \<Rightarrow> cli \<Rightarrow> percentile_spec list \<Rightarrow> usize list \<Rightarrow> 's \<Rightarrow>
   (run_error, trial_result list) outcome \<Rightarrow> 's \<Rightarrow> event list \<Rightarrow> bool"
  for H c sv cli specs where
  no_more: "bench_loop H c sv cli specs [] s (Ok []) s []"
| warmup_stops: "\<lbrakk>warmup H c sv cli specs n s w s1 out1; stops (\<lambda>e. e) w = Some res\<rbrakk>
     \<Longrightarrow> bench_loop H c sv cli specs (n # ns) s res s1 out1"
| trial_stops: "\<lbrakk>warmup H c sv cli specs n s (Ok ()) s1 out1;
      main_trial H c sv cli specs n s1 r s2 out2; stops (\<lambda>e. e) r = Some res\<rbrakk>
     \<Longrightarrow> bench_loop H c sv cli specs (n # ns) s res s2 (out1 @ out2)"
| rest_stops: "\<lbrakk>warmup H c sv cli specs n s (Ok ()) s1 out1;
      main_trial H c sv cli specs n s1 (Ok r) s2 out2;
      bench_loop H c sv cli specs ns s2 rest s3 out3; stops (\<lambda>e. e) rest = Some res\<rbrakk>
     \<Longrightarrow> bench_loop H c sv cli specs (n # ns) s res s3 (out1 @ out2 @ print_trial_line r @ out3)"
| next_done: "\<lbrakk>warmup H c sv cli specs n s (Ok ()) s1 out1;
      main_trial H c sv cli specs n s1 (Ok r) s2 out2;
      bench_loop H c sv cli specs ns s2 (Ok rs) s3 out3\<rbrakk>
     \<Longrightarrow> bench_loop H c sv cli specs (n # ns) s (Ok (r # rs)) s3
           (out1 @ out2 @ print_trial_line r @ out3)"

section \<open>The end of the run\<close>

definition any_timeout :: "trial_result list \<Rightarrow> bool" where
  "any_timeout results \<longleftrightarrow> (\<exists>r \<in> set results. timed_out r)"

end
