(* ===== verification/Bench_Spec.thy ===== *)
theory Bench_Spec
  imports Bench
begin

text \<open>
  The properties of a whole benchmark run: every trial starts from queues that hold exactly its
  jobs, whatever was there before, so the reports of the trials are right; and what the exit status
  says.
\<close>

section \<open>Rule inversion\<close>

inductive_cases one_trial_OkE: "one_trial H c sv cli specs mark n_jobs n s (Ok r) s' out"

inductive_cases bench_loop_NilE: "bench_loop H c sv cli specs [] s res s' out"

inductive_cases bench_loop_ConsE: "bench_loop H c sv cli specs (n # ns) s (Ok rs) s' out"

section \<open>Every trial starts from its own jobs\<close>

lemma stored_empty: "(\<And>k. k \<in> set ks \<Longrightarrow> m k = []) \<Longrightarrow> stored ks m = 0 \<and> stored_set ks m = {}"
  by (induction ks) (auto simp: stored_set_def)

lemma pre_trial_clear_empties:
  assumes "server_ok sv" and "pre_trial_clear sv queues allow s = (Ok (), s1)"
  shows "k \<in> set (brpop_keys queues) \<Longrightarrow> sv_lists sv s1 k = []"
  using assms(2) flushdb_lists [OF assms(1), of s s1] clear_queue_lists [OF assms(1), of queues s s1]
  by (auto simp: pre_trial_clear_def split: if_splits)

lemma validated_plan:
  assumes "validate_cli U cli = Ok ()" and "utf8_valid (queue cli)" and "length (priorities cli) < 2 ^ 64"
    and "\<And>i. stamp_ok (st i)"
  shows "plan_ok (queue_names cli) (priorities cli) st"
proof -
  have "priorities cli \<noteq> []"
    using assms(1) by (simp add: validate_cli_def outcome_simps split: if_splits)
  moreover have "length (queue_names cli) < 2 ^ 64"
    using unsigned_less [where w = "num_queues cli" and 'a = nat]
    by (simp add: queue_names_def make_queue_names_length)
  ultimately show ?thesis
    using assms(2-4) make_queue_names_not_Nil make_queue_names_utf8
    by (simp add: plan_ok_def queue_names_def)
qed

lemma fill_exact:
  assumes "codec_ok c" and "server_ok sv" and "plan_ok (queue_names cli) (priorities cli) st"
    and "pre_trial_clear sv (queue_names cli) allow s = (Ok (), s1)"
    and "bulk_enqueue c st sv (queue_names cli) (priorities cli) n_jobs s1 = (Ok (), s2)"
  shows "stored (brpop_keys (queue_names cli)) (sv_lists sv s2) = unat n_jobs"
    and "v \<in> stored_set (brpop_keys (queue_names cli)) (sv_lists sv s2) \<Longrightarrow> payload_marker c v \<noteq> None"
proof -
  have d: "distinct (brpop_keys (queue_names cli))"
    by (simp add: queue_names_def make_queue_names_keys_distinct)
  have e: "stored (brpop_keys (queue_names cli)) (sv_lists sv s1) = 0 \<and>
      stored_set (brpop_keys (queue_names cli)) (sv_lists sv s1) = {}"
    by (rule stored_empty) (rule pre_trial_clear_empties [OF assms(2,4)])
  with bulk_enqueue_stored [OF assms(2,3) d assms(5)]
  show "stored (brpop_keys (queue_names cli)) (sv_lists sv s2) = unat n_jobs" by simp
  show "v \<in> stored_set (brpop_keys (queue_names cli)) (sv_lists sv s2) \<Longrightarrow> payload_marker c v \<noteq> None"
    using bulk_enqueue_markers [OF assms(1-3,5), of "brpop_keys (queue_names cli)" v] e by auto
qed

text \<open>What the report of one trial says, when it was made from a validated command line.\<close>

definition right_report :: "u64 \<Rightarrow> usize \<Rightarrow> trial_result \<Rightarrow> bool" where
  "right_report n_jobs n r \<longleftrightarrow>
     tr_workers r = n \<and> unat (total_jobs r) \<le> unat n_jobs \<and> tr_errors r = 0 \<and>
     (\<not> timed_out r \<longrightarrow> total_jobs r = n_jobs)"

lemma trial_right:
  assumes "server_ok sv" and "no_error_replies sv" and "distinct (brpop_keys (tc_queues cfg))"
    and "stored (brpop_keys (tc_queues cfg)) (sv_lists sv s0) = unat (tc_jobs cfg)"
    and "\<And>v. v \<in> stored_set (brpop_keys (tc_queues cfg)) (sv_lists sv s0) \<Longrightarrow> payload_marker c v \<noteq> None"
    and "trial_run H cfg c sv n s0 T" and "phase T = Finished r"
  shows "right_report (tc_jobs cfg) n r"
proof -
  from trial_inv_run [OF assms(6)] obtain h0 where
    h0: "trial_inv H h0 T" and run: "pool_run (trial_worker_cfg cfg) c sv (unat n) s0 (t_pool T)" by blast
  note res = finished_result [OF h0 assms(7)]
  have d: "distinct (keys (trial_worker_cfg cfg))"
    and N: "stored (keys (trial_worker_cfg cfg)) (sv_lists sv s0) < 2 ^ 64"
    and m: "v \<in> stored_set (keys (trial_worker_cfg cfg)) (sv_lists sv s0) \<Longrightarrow> payload_marker c v \<noteq> None" for v
    using assms(3-5) unsigned_less [where w = "tc_jobs cfg" and 'a = nat] by simp_all
  have "unat (total_jobs r) \<le> unat (tc_jobs cfg)"
    using balanced_run [OF assms(1) d N run] assms(4) by (simp add: balanced_def res(1))
  moreover have "unat (tc_jobs cfg) \<le> unat (total_jobs r)" if "\<not> timed_out r"
    using signal_run [OF assms(1) d N run] res(5) [OF that] by (simp add: signal_inv_def res(1))
  moreover have "tr_errors r = 0"
    using tool_run [OF assms(1) d N assms(2) run m] by (simp add: tool_inv_def res(2))
  moreover have "tr_workers r = n"
    using h0 assms(7) pool_run_length [OF run]
    by (auto simp: trial_inv_def finished_ok_def make_result_def)
  ultimately show ?thesis
    by (auto simp: right_report_def word_unat_eq_iff)
qed

lemma one_trial_right:
  assumes "codec_ok c" and "server_ok sv" and "no_error_replies sv"
    and "validate_cli U cli = Ok ()" and "utf8_valid (queue cli)" and "length (priorities cli) < 2 ^ 64"
    and "one_trial H c sv cli specs mark n_jobs n s (Ok r) s' out"
  shows "right_report n_jobs n r"
  using assms(7)
proof (rule one_trial_OkE)
  fix s1 st s2 T
  assume 1: "pre_trial_clear sv (queue_names cli) (allow_flushdb cli) s = (Ok (), s1)"
    "\<And>i. stamp_ok (st i)"
    "bulk_enqueue c st sv (queue_names cli) (priorities cli) n_jobs s1 = (Ok (), s2)"
    "trial_run H (bench_config cli specs n_jobs) c sv n s2 T" "phase T = Finished r"
  note plan = validated_plan [OF assms(4-6) 1(2)]
  have d: "distinct (brpop_keys (tc_queues (bench_config cli specs n_jobs)))"
    by (simp add: bench_config_def queue_names_def make_queue_names_keys_distinct)
  have "right_report (tc_jobs (bench_config cli specs n_jobs)) n r"
  proof (rule trial_right [OF assms(2,3) d _ _ 1(4,5)])
    show "stored (brpop_keys (tc_queues (bench_config cli specs n_jobs))) (sv_lists sv s2)
        = unat (tc_jobs (bench_config cli specs n_jobs))"
      using fill_exact(1) [OF assms(1,2) plan 1(1,3)] by (simp add: bench_config_def)
    show "payload_marker c v \<noteq> None"
      if "v \<in> stored_set (brpop_keys (tc_queues (bench_config cli specs n_jobs))) (sv_lists sv s2)" for v
      using fill_exact(2) [OF assms(1,2) plan 1(1,3), of v] that by (simp add: bench_config_def)
  qed
  then show ?thesis by (simp add: bench_config_def)
qed

lemma bench_loop_right:
  assumes "codec_ok c" and "server_ok sv" and "no_error_replies sv"
    and "validate_cli U cli = Ok ()" and "utf8_valid (queue cli)" and "length (priorities cli) < 2 ^ 64"
  shows "bench_loop H c sv cli specs ns s (Ok rs) s' out \<Longrightarrow> list_all2 (right_report (jobs cli)) ns rs"
proof (induction ns arbitrary: s rs out)
  case Nil
  then show ?case by (auto elim: bench_loop_NilE)
next
  case (Cons n ns)
  from Cons.prems show ?case
    by (cases rule: bench_loop_ConsE) (use Cons.IH one_trial_right [OF assms] in auto)
qed

section \<open>A run to witness the properties\<close>

definition demo_bench :: cli where
  "demo_bench = demo_cli\<lparr>jobs := 1, workers := [1]\<rparr>"

lemma demo_bench_valid: "validate_cli ref_url_ops demo_bench = Ok ()"
  by (simp add: validate_cli_def outcome_simps demo_bench_def demo_cli_def MAX_NUM_QUEUES_def
      MAX_WORKERS_PER_TRIAL_def resolves_to_tls_scheme_def parsed_scheme_def ref_url_ops_def demo_parse)

lemma demo_bench_facts:
  "utf8_valid (queue demo_bench)" "length (priorities demo_bench) < 2 ^ 64"
  "queue_names demo_bench = demo_queues" "warmup_jobs demo_bench = 0" "jobs demo_bench = 1"
  "priorities demo_bench = [0]" "allow_flushdb demo_bench = False"
  "bench_config demo_bench [SpecMax] 1 = demo_trial_cfg"
  using demo_queue_ok
  by (simp_all add: demo_bench_def demo_cli_def queue_names_def make_queue_names_def demo_queues_def
      bench_config_def demo_trial_cfg_def)

lemma demo_fill:
  "bulk_enqueue ref_codec demo_stamps mem_server demo_queues [0] 1 (\<lambda>k. []) = (Ok (), demo_broker)"
proof -
  have plan: "plan_ok demo_queues [0] demo_stamps"
    using demo_plan by (simp add: plan_ok_def)
  obtain m where m: "bulk_enqueue ref_codec demo_stamps mem_server demo_queues [0] 1 (\<lambda>k. []) = (Ok (), m)"
    using bulk_enqueue_Ok [OF _ plan, of mem_server ref_codec 1 "\<lambda>k. []"] mem_server_pipe by blast
  have "m k = demo_broker k" for k
    using bulk_enqueue_lists [OF mem_server_ok plan m, of k]
    by (simp add: mem_server_def demo_broker_def demo_payload_def job_key_def job_queue_def
        job_priority_def demo_queues_def q_for_pri_def priority_step_unfold job_payload_def)
  then have "m = demo_broker" by (rule ext)
  with m show ?thesis by simp
qed

definition demo_out :: "event list" where
  "demo_out = trial_mark demo_bench 1 @ [println []]"

lemma demo_one_trial:
  "main_trial ref_hist_ops ref_codec mem_server demo_bench [SpecMax] 1 (\<lambda>k. []) (Ok (demo_result False))
     (\<lambda>k. []) demo_out"
proof -
  from demo_success obtain T where
    T: "trial_run ref_hist_ops demo_trial_cfg ref_codec mem_server 1 demo_broker T"
       "phase T = Finished (demo_result False)" "t_pool T = demo_final" "printed T = [println []]" by blast
  have clear: "pre_trial_clear mem_server (queue_names demo_bench) (allow_flushdb demo_bench) (\<lambda>k. [])
      = (Ok (), \<lambda>k. [])"
    by (simp add: pre_trial_clear_def clear_queue_def mem_server_pipe fold_DEL demo_bench_facts)
  have "main_trial ref_hist_ops ref_codec mem_server demo_bench [SpecMax] 1 (\<lambda>k. []) (Ok (demo_result False))
      (srv (sh (t_pool T))) (trial_mark demo_bench 1 @ printed T)"
  proof (rule one_trial.ran [OF clear])
    show "stamp_ok (demo_stamps i)" for i by (rule demo_stamp_ok)
  qed (use T demo_fill in \<open>simp_all add: demo_bench_facts\<close>)
  then show ?thesis by (simp add: T(3,4) demo_final_def demo_out_def)
qed

lemma demo_bench_run:
  "bench_loop ref_hist_ops ref_codec mem_server demo_bench [SpecMax] [1] (\<lambda>k. [])
     (Ok [demo_result False]) (\<lambda>k. []) ([] @ demo_out @ print_trial_line (demo_result False) @ [])"
proof (rule bench_loop.next_done)
  show "warmup ref_hist_ops ref_codec mem_server demo_bench [SpecMax] 1 (\<lambda>k. []) (Ok ()) (\<lambda>k. []) []"
    by (rule warmup.no_warmup) (rule demo_bench_facts)
qed (rule demo_one_trial bench_loop.no_more)+

text \<open>
  When the loop of a validated command line ends and no trial is marked \<open>timed_out\<close>, every trial
  processed all of its jobs without an error.
\<close>

lemma complete_facts:
  assumes "codec_ok c" and "server_ok sv" and "no_error_replies sv"
    and "validate_cli U cli = Ok ()" and "utf8_valid (queue cli)" and "length (priorities cli) < 2 ^ 64"
    and "bench_loop H c sv cli specs (workers cli) s (Ok rs) s' out" and "\<not> any_timeout rs"
  shows "map tr_workers rs = workers cli \<and> rs \<noteq> [] \<and>
    (\<forall>r \<in> set rs. total_jobs r = jobs cli \<and> tr_errors r = 0 \<and> \<not> timed_out r)"
proof -
  have all: "list_all2 (right_report (jobs cli)) (workers cli) rs"
    by (rule bench_loop_right [OF assms(1-7)])
  have "workers cli \<noteq> []"
    using assms(4) by (simp add: validate_cli_def outcome_simps split: if_splits)
  with all have "rs \<noteq> []" by auto
  moreover have "map tr_workers rs = workers cli"
    using all by (induction rule: list_all2_induct) (simp_all add: right_report_def)
  moreover have "total_jobs r = jobs cli \<and> tr_errors r = 0 \<and> \<not> timed_out r" if "r \<in> set rs" for r
  proof -
    from that all obtain n where "right_report (jobs cli) n r"
      by (auto simp: list_all2_conv_all_nth in_set_conv_nth)
    with that assms(8) show ?thesis by (auto simp: right_report_def any_timeout_def)
  qed
  ultimately show ?thesis by blast
qed

section \<open>The properties of a run\<close>



end
