(* ===== verification/Program.thy ===== *)
theory Program
  imports Startup_Spec Bench_Spec
begin

text \<open>
  \<open>main\<close> of \<open>src/src/main.rs\<close> from end to end: the checks, the banner, the trials, the summary, the
  report and the exit status. A run is a relation, because the trials are; the properties say what
  the exit status and the report promise, that a bad command line does no harm, that no password
  shows, and that the program can always return.
\<close>

section \<open>A run of the program\<close>

text \<open>
  What ends \<open>main\<close> with an error. The runtime prints the error to standard error after everything
  else; it is kept as a value here.
\<close>

datatype main_error =
    StartFailed startup_error
  | NotConnected redis_error
  | RunFailed run_error
  | ReportFailed io_error

text \<open>What a run leaves: everything it printed, how \<open>main\<close> ended, and the exit status.\<close>

record outputs =
  console :: "event list"
  ending :: "(main_error, unit) outcome"
  exit_code :: nat

definition run_banner :: "cli \<Rightarrow> info_reply \<Rightarrow> started \<Rightarrow> string \<Rightarrow> event list" where
  "run_banner cli reply S label =
     tag_warnings cli reply @ banner cli (effective_tag cli reply) (shown_url S) label"

definition memory_lines :: "cli \<Rightarrow> nat \<Rightarrow> event list" where
  "memory_lines cli len = (case memory_warning cli len of Some s \<Rightarrow> [eprintln s] | None \<Rightarrow> [])"

definition run_report :: "cli \<Rightarrow> info_reply \<Rightarrow> started \<Rightarrow> string \<Rightarrow> trial_result list \<Rightarrow> json" where
  "run_report cli reply S timestamp results =
     json_output results (effective_tag cli reply) (shown_url S) (workers cli) (jobs cli)
       (queue_names cli) (warmup_jobs cli) timestamp"

definition report_path :: "cli \<Rightarrow> info_reply \<Rightarrow> string" where
  "report_path cli reply = output_file cli (effective_tag cli reply)"

definition final_lines :: "trial_result list \<Rightarrow> event list" where
  "final_lines results =
     (if any_timeout results
      then [eprintln (''warning: one or more trials timed out '' @ em_dash @ '' results are incomplete'')]
      else [])"

definition exit_status :: "trial_result list \<Rightarrow> nat" where
  "exit_status results = (if any_timeout results then 1 else 0)"

text \<open>A failure of \<open>main\<close>: status 1 for an error, 101 for a panic.\<close>

definition failed_run :: "event list \<Rightarrow> (main_error, unit) outcome \<Rightarrow> outputs" where
  "failed_run evs res =
     \<lparr>console = evs, ending = res, exit_code = (case res of Panicked m \<Rightarrow> 101 | _ \<Rightarrow> 1)\<rparr>"

inductive program ::
  "'h hist_ops \<Rightarrow> text_codec \<Rightarrow> 's server \<Rightarrow> 'f file_ops \<Rightarrow> renderers \<Rightarrow> 'u url_ops \<Rightarrow> bool \<Rightarrow> cli \<Rightarrow>
   's \<Rightarrow> 'f \<Rightarrow> outputs \<Rightarrow> 's \<Rightarrow> 'f \<Rightarrow> bool"
  for H c sv F R U checks cli s f where
  rejected: "stops StartFailed (startup U checks cli) = Some res
     \<Longrightarrow> program H c sv F R U checks cli s f (failed_run (startup_warnings U cli) res) s f"
| no_label: "\<lbrakk>startup U checks cli = Ok S;
      queues_label (queue_names cli) = (Panicked m :: (unit, _) outcome)\<rbrakk>
     \<Longrightarrow> program H c sv F R U checks cli s f
           (failed_run (startup_warnings U cli @ tag_warnings cli reply) (Panicked m)) s f"
| no_connection: "\<lbrakk>startup U checks cli = Ok S;
      queues_label (queue_names cli) = (Ok label :: (unit, _) outcome)\<rbrakk>
     \<Longrightarrow> program H c sv F R U checks cli s f
           (failed_run (startup_warnings U cli @ run_banner cli reply S label) (Err (NotConnected e))) s f"
| loop_failed: "\<lbrakk>startup U checks cli = Ok S;
      queues_label (queue_names cli) = (Ok label :: (unit, _) outcome);
      stamp_ok st; sample_len c st cli = (Ok len :: (unit, _) outcome);
      bench_loop H c sv cli (st_specs S) (workers cli) s loop s' out;
      stops RunFailed loop = Some res\<rbrakk>
     \<Longrightarrow> program H c sv F R U checks cli s f
           (failed_run (startup_warnings U cli @ run_banner cli reply S label @ memory_lines cli len @ out)
              res) s' f"
| report_failed: "\<lbrakk>startup U checks cli = Ok S;
      queues_label (queue_names cli) = (Ok label :: (unit, _) outcome);
      stamp_ok st; sample_len c st cli = (Ok len :: (unit, _) outcome);
      bench_loop H c sv cli (st_specs S) (workers cli) s (Ok rs) s' out;
      write_json F R (run_report cli reply S timestamp rs) (report_path cli reply) f = (r, written, f');
      stops ReportFailed r = Some res\<rbrakk>
     \<Longrightarrow> program H c sv F R U checks cli s f
           (failed_run (startup_warnings U cli @ run_banner cli reply S label @ memory_lines cli len @ out
              @ print_summary R rs @ written) res) s' f'"
| finished: "\<lbrakk>startup U checks cli = Ok S;
      queues_label (queue_names cli) = (Ok label :: (unit, _) outcome);
      stamp_ok st; sample_len c st cli = (Ok len :: (unit, _) outcome);
      bench_loop H c sv cli (st_specs S) (workers cli) s (Ok rs) s' out;
      write_json F R (run_report cli reply S timestamp rs) (report_path cli reply) f
        = (Ok (), written, f')\<rbrakk>
     \<Longrightarrow> program H c sv F R U checks cli s f
           \<lparr>console = startup_warnings U cli @ run_banner cli reply S label @ memory_lines cli len @ out
              @ print_summary R rs @ written @ final_lines rs,
            ending = Ok (), exit_code = exit_status rs\<rparr> s' f'"

end
