(* ===== verification/Trial_Live.thy ===== *)
theory Trial_Live
  imports Trial_Spec
begin

text \<open>
  A trial never gets stuck: from every state it can reach it can be continued to its end. The drain
  is the argument: once the shutdown flag is set, the workers' loops run out of moves, and what they
  sent is collected.
\<close>

section \<open>The pool can be drained\<close>

lemma worker_step_shutdown:
  "worker_step cfg c sv t pc s = (pc', s') \<Longrightarrow> shutdown s' = shutdown s"
  by (cases "pc = Counting") (auto simp: inc_completed_def worker_step_frame(2))

lemma pool_step_shutdown:
  assumes "pool_step cfg c sv p p'" and "shutdown (sh p)"
  shows "shutdown (sh p')"
  using assms(1)
proof (cases rule: pool_step.cases)
  case (work i t pc' s')
  then show ?thesis using assms(2) worker_step_shutdown [OF work(4)] by simp
qed (use assms(2) in simp_all)

lemma pool_can_end:
  "shutdown (sh p) \<Longrightarrow> \<exists>q. (pool_step cfg c sv)\<^sup>*\<^sup>* p q \<and> all_ended q"
proof (induction "count_by (rank True) (pcs p)" arbitrary: p rule: less_induct)
  case less
  show ?case
  proof (cases "all_ended p")
    case False
    then obtain i where "i < length (pcs p)" "\<not> terminal (pcs p ! i)"
      by (auto simp: all_ended_def list_all_length)
    then obtain p' where p': "pool_step cfg c sv p p'" "pcs p' \<noteq> pcs p"
      using pool_progress [where p = p and sd = True and cfg = cfg and c = c and sv = sv] less.prems
      by (metis (full_types))
    have "count_by (rank True) (pcs p') < count_by (rank True) (pcs p)"
      using pool_step_rank [OF p'(1), of True] less.prems p'(2) by simp
    from less.hyps [OF this pool_step_shutdown [OF p'(1) less.prems]] p'(1) show ?thesis
      by (meson converse_rtranclp_into_rtranclp)
  qed blast
qed

section \<open>The trial can be finished\<close>

lemma drain_pool:
  assumes "(pool_step (trial_worker_cfg cfg) c sv)\<^sup>*\<^sup>* (t_pool T) q" and "draining (phase T)"
  shows "(trial_step H cfg c sv)\<^sup>*\<^sup>* T (T\<lparr>t_pool := q\<rparr>)"
  using assms(1)
proof (induction rule: rtranclp_induct)
  case (step q r)
  have "trial_step H cfg c sv (T\<lparr>t_pool := q\<rparr>) ((T\<lparr>t_pool := q\<rparr>)\<lparr>t_pool := r\<rparr>)"
    by (rule trial_step.pool_drain) (use step.hyps(2) assms(2) in simp_all)
  with step.IH show ?case by (simp add: rtranclp.rtrancl_into_rtrancl)
qed simp

lemma collect_all:
  "taken T \<le> length (latencies (sh (t_pool T))) \<Longrightarrow>
   \<exists>T'. (trial_step H cfg c sv)\<^sup>*\<^sup>* T T' \<and> taken T' = length (latencies (sh (t_pool T'))) \<and>
     t_pool T' = t_pool T \<and> phase T' = phase T"
proof (induction "length (latencies (sh (t_pool T))) - taken T" arbitrary: T)
  case (Suc k)
  let ?T = "T\<lparr>taken := Suc (taken T),
    coll := collect_sample H (latencies (sh (t_pool T)) ! taken T) (coll T)\<rparr>"
  have "trial_step H cfg c sv T ?T"
    by (rule trial_step.collect) (use Suc.hyps(2) in simp)
  moreover have "\<exists>T'. (trial_step H cfg c sv)\<^sup>*\<^sup>* ?T T' \<and>
      taken T' = length (latencies (sh (t_pool T'))) \<and> t_pool T' = t_pool ?T \<and> phase T' = phase ?T"
    by (rule Suc.hyps(1)) (use Suc.hyps(2) in simp_all)
  ultimately show ?case
    by (auto intro: converse_rtranclp_into_rtranclp)
qed auto

lemma drain_finishes:
  assumes "trial_inv H h0 T" and "phase T = Draining to d"
  shows "\<exists>T' r. (trial_step H cfg c sv)\<^sup>*\<^sup>* T T' \<and> phase T' = Finished r \<and> timed_out r = to"
proof -
  let ?p = "(t_pool T)\<lparr>sh := (sh (t_pool T))\<lparr>shutdown := True\<rparr>\<rparr>"
  obtain q where q: "(pool_step (trial_worker_cfg cfg) c sv)\<^sup>*\<^sup>* ?p q" "all_ended q"
    using pool_can_end [where p = ?p and cfg = "trial_worker_cfg cfg" and c = c and sv = sv] by auto
  have "(pool_step (trial_worker_cfg cfg) c sv)\<^sup>*\<^sup>* (t_pool T) q"
    using pool_step.stop q(1) by (rule converse_rtranclp_into_rtranclp)
  then have d: "(trial_step H cfg c sv)\<^sup>*\<^sup>* T (T\<lparr>t_pool := q\<rparr>)"
    by (rule drain_pool) (simp add: assms(2))
  moreover have "trial_inv H h0 (T\<lparr>t_pool := q\<rparr>)"
    using d assms(1) by (induction rule: rtranclp_induct) (auto intro: trial_inv_step)
  then have "taken (T\<lparr>t_pool := q\<rparr>) \<le> length (latencies (sh (t_pool (T\<lparr>t_pool := q\<rparr>))))"
    by (simp add: trial_inv_def)
  from collect_all [OF this, of H cfg c sv] obtain T' where T': "(trial_step H cfg c sv)\<^sup>*\<^sup>* (T\<lparr>t_pool := q\<rparr>) T'"
    "taken T' = length (latencies (sh (t_pool T')))" "t_pool T' = q" "phase T' = Draining to d"
    by (auto simp: assms(2))
  moreover define r where "r = make_result H (of_nat (length (pcs (t_pool T')))) (metrics (sh (t_pool T')))
      d (mon T') (trial_hist (coll T')) to"
  have "trial_step H cfg c sv T' (T'\<lparr>phase := Finished r\<rparr>)"
    unfolding r_def by (rule trial_step.finish) (use T' q(2) in simp_all)
  ultimately have "(trial_step H cfg c sv)\<^sup>*\<^sup>* T (T'\<lparr>phase := Finished r\<rparr>)"
    by (meson rtranclp.rtrancl_into_rtrancl rtranclp_trans)
  moreover have "phase (T'\<lparr>phase := Finished r\<rparr>) = Finished r" "timed_out r = to"
    by (simp_all add: r_def make_result_def)
  ultimately show ?thesis by blast
qed

lemma drain_from_selecting:
  assumes "phase T = Selecting"
  shows "\<exists>T1 to d. (trial_step H cfg c sv)\<^sup>*\<^sup>* T T1 \<and> phase T1 = Draining to d \<and>
    (done_flag (sh (t_pool T)) \<longrightarrow> \<not> to)"
proof (cases "done_flag (sh (t_pool T))")
  case True
  let ?T1 = "T\<lparr>phase := Draining False (Fin 0), printed := printed T @ done_lines cfg\<rparr>"
  have "trial_step H cfg c sv T ?T1"
    using assms True by (rule trial_step.see_done)
  then show ?thesis by (intro exI [of _ ?T1]) auto
next
  case False
  let ?T = "T\<lparr>phase := NotDoneYet\<rparr>"
  let ?T1 = "?T\<lparr>phase := Draining True (Fin 0), printed := printed ?T @ timeout_lines cfg\<rparr>"
  have "trial_step H cfg c sv T ?T"
    using assms False by (rule trial_step.see_not_done)
  moreover have "trial_step H cfg c sv ?T ?T1"
    by (rule trial_step.time_out) simp
  ultimately have "(trial_step H cfg c sv)\<^sup>*\<^sup>* T ?T1"
    by (meson r_into_rtranclp rtranclp.rtrancl_into_rtrancl)
  with False show ?thesis by (intro exI [of _ ?T1]) auto
qed

lemma reach_drain:
  assumes "running (phase T)"
  shows "\<exists>T1 to d. (trial_step H cfg c sv)\<^sup>*\<^sup>* T T1 \<and> phase T1 = Draining to d \<and>
    (phase T = Selecting \<and> done_flag (sh (t_pool T)) \<longrightarrow> \<not> to)"
proof (cases "phase T = Selecting")
  case True
  with drain_from_selecting [OF True, of H cfg c sv] show ?thesis by simp
next
  case False
  let ?J = "T\<lparr>phase := Joining\<rparr>"
  let ?S = "?J\<lparr>phase := Selecting\<rparr>"
  have "(trial_step H cfg c sv)\<^sup>*\<^sup>* T ?J"
  proof (cases "phase T = Joining")
    case True
    then have "?J = T" by simp
    then show ?thesis by simp
  next
    case no: False
    with False assms have "phase T = NotDoneYet" by (cases "phase T") simp_all
    then show ?thesis by (intro r_into_rtranclp trial_step.see_no_timeout)
  qed
  moreover have "trial_step H cfg c sv ?J ?S" by (rule trial_step.select_again) simp
  ultimately have "(trial_step H cfg c sv)\<^sup>*\<^sup>* T ?S" by (rule rtranclp.rtrancl_into_rtrancl)
  moreover obtain T1 to d where "(trial_step H cfg c sv)\<^sup>*\<^sup>* ?S T1" "phase T1 = Draining to d"
    using drain_from_selecting [of ?S H cfg c sv] by auto
  ultimately show ?thesis using False by (meson rtranclp_trans)
qed

lemma trial_can_finish_facts:
  assumes "trial_run H cfg c sv n s0 T"
  shows "\<exists>T' r. (trial_step H cfg c sv)\<^sup>*\<^sup>* T T' \<and> phase T' = Finished r \<and>
    (phase T = Selecting \<and> done_flag (sh (t_pool T)) \<longrightarrow> \<not> timed_out r)"
proof -
  obtain h0 where inv: "trial_inv H h0 T"
    using trial_inv_run(1) [OF assms] by blast
  have via: ?thesis if step: "(trial_step H cfg c sv)\<^sup>*\<^sup>* T T1" and ph: "phase T1 = Draining to d"
    and ok: "phase T = Selecting \<and> done_flag (sh (t_pool T)) \<longrightarrow> \<not> to" for T1 to d
  proof -
    have "trial_inv H h0 T1"
      using step inv by (induction rule: rtranclp_induct) (auto intro: trial_inv_step)
    from drain_finishes [OF this ph] step ok show ?thesis by (meson rtranclp_trans)
  qed
  show ?thesis
  proof (cases "running (phase T)")
    case True
    from reach_drain [OF this, of H cfg c sv] via show ?thesis by blast
  next
    case False
    then show ?thesis
    proof (cases "phase T")
      case (Draining to d)
      then show ?thesis by (intro via [of T]) auto
    next
      case (Finished r)
      then show ?thesis by auto
    qed simp_all
  qed
qed



end
