(* ===== verification/Program_Run.thy ===== *)
theory Program_Run
  imports Program Trial_Live
begin

text \<open>
  Lemmas about runs of the program: the trials and the loop do not see the password, every part of
  a run can return, and a concrete run that witnesses the properties.
\<close>

section \<open>Rule inversion\<close>

inductive_simps one_trial_iff: "one_trial H c sv cli specs mark n_jobs n s r s' out"

inductive_simps warmup_iff: "warmup H c sv cli specs n s r s' out"

section \<open>The trials do not see the password\<close>

lemma queue_names_password [simp]: "queue_names (cli\<lparr>password := x\<rparr>) = queue_names cli"
  by (simp add: queue_names_def)

lemma bench_config_password [simp]:
  "bench_config (cli\<lparr>password := x\<rparr>) specs n_jobs = bench_config cli specs n_jobs"
  by (simp add: bench_config_def)

lemma mark_password [simp]:
  "trial_mark (cli\<lparr>password := x\<rparr>) n = trial_mark cli n"
  "warmup_mark (cli\<lparr>password := x\<rparr>) n = warmup_mark cli n"
  by (simp_all add: trial_mark_def warmup_mark_def)

lemma one_trial_password [simp]:
  "one_trial H c sv (cli\<lparr>password := x\<rparr>) specs mark n_jobs n s r s' out
     \<longleftrightarrow> one_trial H c sv cli specs mark n_jobs n s r s' out"
  by (simp add: one_trial_iff)

lemma warmup_password [simp]:
  "warmup H c sv (cli\<lparr>password := x\<rparr>) specs n s r s' out \<longleftrightarrow> warmup H c sv cli specs n s r s' out"
  by (simp add: warmup_iff)

lemma bench_loop_frame:
  assumes "bench_loop H c sv cli specs ns s r s' out"
    and "\<And>n s r s' out. warmup H c sv cli specs n s r s' out = warmup H c sv cli' specs n s r s' out"
    and "\<And>n s r s' out. main_trial H c sv cli specs n s r s' out = main_trial H c sv cli' specs n s r s' out"
  shows "bench_loop H c sv cli' specs ns s r s' out"
  using assms(1)
proof (induction rule: bench_loop.induct)
  case no_more
  show ?case by (rule bench_loop.no_more)
next
  case warmup_stops
  then show ?case using assms(2) bench_loop.warmup_stops by metis
next
  case trial_stops
  then show ?case using assms(2,3) bench_loop.trial_stops by metis
next
  case rest_stops
  then show ?case using assms(2,3) bench_loop.rest_stops by metis
next
  case next_done
  then show ?case using assms(2,3) bench_loop.next_done by metis
qed

lemma bench_loop_password [simp]:
  "bench_loop H c sv (cli\<lparr>password := x\<rparr>) specs ns s r s' out \<longleftrightarrow> bench_loop H c sv cli specs ns s r s' out"
  by (intro iffI; erule bench_loop_frame) simp_all

lemma memory_lines_password [simp]: "memory_lines (cli\<lparr>password := x\<rparr>) len = memory_lines cli len"
  by (simp add: memory_lines_def memory_warning_def Let_def cong: option.case_cong if_cong)

lemma program_parts_password [simp]:
  "effective_tag (cli\<lparr>password := x\<rparr>) reply = effective_tag cli reply"
  "tag_warnings (cli\<lparr>password := x\<rparr>) reply = tag_warnings cli reply"
  "report_path (cli\<lparr>password := x\<rparr>) reply = report_path cli reply"
  "sample_len c st (cli\<lparr>password := x\<rparr>) = sample_len c st cli"
  by (simp_all add: effective_tag_def tag_warnings_def report_path_def output_file_def
      sample_len_def)

lemma same_view_outputs:
  assumes "same_view S S'"
  shows "run_banner (cli\<lparr>password := x\<rparr>) reply S label = run_banner (cli\<lparr>password := y\<rparr>) reply S' label"
    and "run_report (cli\<lparr>password := x\<rparr>) reply S timestamp rs
      = run_report (cli\<lparr>password := y\<rparr>) reply S' timestamp rs"
    and "st_specs S = st_specs S'"
  using assms by (simp_all add: same_view_def run_banner_def banner_def config_line_def run_report_def)

section \<open>Starts that fail\<close>

lemma startup_not_Ok:
  assumes "validate_cli U cli \<noteq> Ok () \<or> (\<forall>s. build_redis_url U cli \<noteq> Ok s) \<or>
     (\<exists>out. output_path cli = Some out \<and> validate_output_path out \<noteq> Ok ()) \<or>
     (\<exists>p \<in> set (latency_percentiles cli). \<forall>spec. parse_percentile_spec checks p \<noteq> Ok spec)"
  shows "startup U checks cli \<noteq> Ok S"
proof
  assume "startup U checks cli = Ok S"
  then obtain ps where ps: "collect_outcome (\<lambda>p. map_error BadOption (parse_percentile_spec checks p))
      (latency_percentiles cli) = Ok ps" and rest: "validate_cli U cli = Ok ()"
      "\<exists>s. build_redis_url U cli = Ok s"
      "\<forall>out. output_path cli = Some out \<longrightarrow> validate_output_path out = Ok ()"
    by (auto simp: startup_Ok)
  have "list_all2 (\<lambda>p spec. parse_percentile_spec checks p = Ok spec) (latency_percentiles cli) ps"
    using ps by (simp add: collect_outcome_Ok_iff outcome_simps)
  then have "\<forall>p \<in> set (latency_percentiles cli). \<exists>spec. parse_percentile_spec checks p = Ok spec"
    by (auto simp: list_all2_conv_all_nth in_set_conv_nth)
  with assms rest show False by blast
qed

text \<open>Nothing is printed to standard output before the checks have passed.\<close>

lemma startup_warnings_stderr: "concat (map on_stdout (startup_warnings U cli)) = []"
  by (auto simp: startup_warnings_def url_warnings_def split: outcome.splits)

section \<open>A run to witness the properties\<close>

text \<open>A file system that stores texts by path, and a plain layout.\<close>

definition mem_files :: "(string \<Rightarrow> string option) file_ops" where
  "mem_files =
     \<lparr>f_mkdirs = (\<lambda>cs f. (Inr (), f)), f_write = (\<lambda>path text f. (Inr (), f(path \<mapsto> text))),
      f_read = (\<lambda>path f. f path)\<rparr>"

lemma mem_files_ok: "files_ok mem_files"
  by (auto simp: files_ok_def mem_files_def)

definition ref_renderers :: renderers where
  "ref_renderers = \<lparr>to_string_pretty = json_to_string ref_codec, draw_table = (\<lambda>rows. concat (concat rows))\<rparr>"

definition demo_view :: started where
  "demo_view =
     \<lparr>conn_url = print_url \<lparr>r_scheme = ''rediss'', r_password = Some ''s3cret'', r_host = ''h'',
        r_port = None, r_path = ''13'', r_fragment = Some ''insecure''\<rparr>,
      shown_url = print_url \<lparr>r_scheme = ''rediss'', r_password = Some ''****'', r_host = ''h'',
        r_port = None, r_path = ''13'', r_fragment = Some ''insecure''\<rparr>,
      st_specs = [SpecMax]\<rparr>"

lemma demo_bench_url: "build_redis_url ref_url_ops demo_bench = Ok (conn_url demo_view)"
proof -
  have "build_redis_url ref_url_ops demo_bench = build_redis_url ref_url_ops demo_cli"
    by (simp add: build_redis_url_def demo_bench_def resolves_to_tls_scheme_def
        cong: option.case_cong if_cong)
  then show ?thesis by (simp add: demo_build_self demo_view_def)
qed

lemma demo_startup: "startup ref_url_ops True demo_bench = Ok demo_view"
proof -
  have p: "parse_percentile_spec True ''max'' = Ok SpecMax"
    by (simp add: parse_percentile_spec_def)
  have "u_parse ref_url_ops (conn_url demo_view) = Some \<lparr>r_scheme = ''rediss'', r_password = Some ''s3cret'',
      r_host = ''h'', r_port = None, r_path = ''13'', r_fragment = Some ''insecure''\<rparr>"
    by (simp add: demo_view_def ref_url_ops_def parse_print_url)
  then have v: "redact_url ref_url_ops (conn_url demo_view) = shown_url demo_view"
    by (simp add: redact_url_def) (simp add: ref_url_ops_def demo_view_def)
  show ?thesis
    by (simp add: startup_Ok demo_bench_url demo_bench_valid v)
      (simp add: demo_view_def demo_bench_def demo_cli_def p)
qed

definition demo_outputs :: outputs where
  "demo_outputs =
     \<lparr>console = startup_warnings ref_url_ops demo_bench
        @ run_banner demo_bench (Info ''redis_version:8.0'') demo_view ''celery''
        @ memory_lines demo_bench (length (env_to_string ref_codec demo_msg))
        @ ([] @ demo_out @ print_trial_line (demo_result False) @ [])
        @ print_summary ref_renderers [demo_result False]
        @ [println (''Results saved '' @ right_arrow @ '' '' @ report_path demo_bench (Info ''redis_version:8.0''))]
        @ final_lines [demo_result False],
      ending = Ok (), exit_code = exit_status [demo_result False]\<rparr>"

definition demo_doc :: json where
  "demo_doc = run_report demo_bench (Info ''redis_version:8.0'') demo_view ''now'' [demo_result False]"

definition demo_fs :: "string \<Rightarrow> string option" where
  "demo_fs = (\<lambda>p. None)(''celery_bench_redis-8.0.json'' \<mapsto> json_to_string ref_codec demo_doc)"

lemma demo_path: "report_path demo_bench (Info ''redis_version:8.0'') = ''celery_bench_redis-8.0.json''"
  by code_simp

lemma demo_program_run:
  "program ref_hist_ops ref_codec mem_server mem_files ref_renderers ref_url_ops True demo_bench
     (\<lambda>k. []) (\<lambda>p. None) demo_outputs (\<lambda>k. [])
     demo_fs"
  unfolding demo_outputs_def demo_fs_def
proof (rule program.finished [OF demo_startup])
  show "queues_label (queue_names demo_bench) = (Ok ''celery'' :: (unit, _) outcome)"
    using demo_bench_facts(3) by (simp add: demo_queues_def queues_label_def)
  show "stamp_ok demo_stamp" by (rule demo_stamp_ok)
  have "queue demo_bench = ''celery''" by (simp add: demo_bench_def demo_cli_def)
  then show "sample_len ref_codec demo_stamp demo_bench
      = (Ok (length (env_to_string ref_codec demo_msg)) :: (unit, _) outcome)"
    by (simp add: sample_len_def demo_envelope)
  have "workers demo_bench = [1]" "st_specs demo_view = [SpecMax]"
    by (simp_all add: demo_bench_def demo_view_def)
  with demo_bench_run show "bench_loop ref_hist_ops ref_codec mem_server demo_bench (st_specs demo_view)
      (workers demo_bench) (\<lambda>k. []) (Ok [demo_result False]) (\<lambda>k. [])
      ([] @ demo_out @ print_trial_line (demo_result False) @ [])"
    by simp
  show "write_json mem_files ref_renderers
      (run_report demo_bench (Info ''redis_version:8.0'') demo_view ''now'' [demo_result False])
      (report_path demo_bench (Info ''redis_version:8.0'')) (\<lambda>p. None)
    = (Ok (), [println (''Results saved '' @ right_arrow @ '' ''
         @ report_path demo_bench (Info ''redis_version:8.0''))],
       (\<lambda>p. None)(''celery_bench_redis-8.0.json'' \<mapsto> json_to_string ref_codec demo_doc))"
    unfolding demo_path
    by (simp add: write_json_def create_parent_def mem_files_def ref_renderers_def demo_doc_def
        split: option.splits)
qed

end
