(* ===== verification/Program_Spec.thy ===== *)
theory Program_Spec
  imports Program_Run
begin

text \<open>The properties of a whole run of the program.\<close>



text \<open>
  C14: a bad command line does no harm. When the command line fails its validation, when no Redis
  URL can be built from it, when the output path has a \<open>..\<close> segment or when one of the percentiles
  is not accepted, the program fails before it touches the broker or the file system, and prints
  nothing to standard output.
\<close>

theorem program_fails_fast:
  assumes "program H c sv F R U checks cli s f out s' f'"
    and "validate_cli U cli \<noteq> Ok () \<or> (\<forall>url. build_redis_url U cli \<noteq> Ok url) \<or>
      (\<exists>path. output_path cli = Some path \<and> validate_output_path path \<noteq> Ok ()) \<or>
      (\<exists>p \<in> set (latency_percentiles cli). \<forall>spec. parse_percentile_spec checks p \<noteq> Ok spec)"
  shows "s' = s \<and> f' = f \<and> concat (map on_stdout (console out)) = [] \<and> ending out \<noteq> Ok () \<and>
    exit_code out \<noteq> 0"
  using assms(1)
proof cases
  case (rejected res)
  then show ?thesis
    by (auto simp: failed_run_def startup_warnings_stderr split: outcome.splits)
qed (simp_all add: startup_not_Ok [OF assms(2)])

theorem program_fails_fast_witness:
  "\<exists>out. program ref_hist_ops ref_codec mem_server mem_files ref_renderers ref_url_ops True
     (demo_bench\<lparr>jobs := 0\<rparr>) (\<lambda>k. []) (\<lambda>p. None) out (\<lambda>k. []) (\<lambda>p. None) \<and> exit_code out \<noteq> 0"
proof -
  let ?cli = "demo_bench\<lparr>jobs := 0\<rparr>"
  have v: "validate_cli ref_url_ops ?cli = Err JobsZero"
    by (simp add: validate_cli_def ensure_def)
  then have "stops StartFailed (startup ref_url_ops True ?cli) = Some (Err (StartFailed (BadCli JobsZero)))"
    by (simp add: startup_def startup_url_def)
  then have run: "program ref_hist_ops ref_codec mem_server mem_files ref_renderers ref_url_ops True ?cli
      (\<lambda>k. []) (\<lambda>p. None) (failed_run (startup_warnings ref_url_ops ?cli) (Err (StartFailed (BadCli JobsZero))))
      (\<lambda>k. []) (\<lambda>p. None)"
    by (rule program.rejected)
  have "validate_cli ref_url_ops ?cli \<noteq> Ok ()" using v by simp
  with program_fails_fast [OF run] run show ?thesis by blast
qed



end
