(* ===== verification/Trial_Success.thy ===== *)
theory Trial_Success
  imports Trial_Live
begin

text \<open>
  A trial can succeed: with a broker that answers every command, one worker alone can take every
  job, count it and send the done signal, and the trial can then end in time. So the reports of
  complete trials that the other properties speak of do exist, for every number of jobs and workers.
\<close>

section \<open>A broker that does not fail\<close>

definition reliable :: "'s server \<Rightarrow> bool" where
  "reliable sv \<longleftrightarrow>
     (\<forall>cs s. \<exists>s'. sv_pipe sv cs s = (Inr (), s')) \<and>
     (\<forall>ks t s. stored ks (sv_lists sv s) \<noteq> 0 \<longrightarrow> (\<exists>kv s'. sv_brpop sv ks t s = (Inr (Some kv), s')))"

lemma mem_server_reliable: "reliable mem_server"
proof -
  have "\<exists>kv s'. sv_brpop mem_server ks t s = (Inr (Some kv), s')" if "stored ks s \<noteq> 0" for ks t s
    using that brpop_effect_None_iff [of ks s]
    by (cases "brpop_effect ks s") (auto simp: mem_server_def)
  then show ?thesis
    by (simp add: reliable_def mem_server_pipe) (simp add: mem_server_def)
qed

section \<open>One worker takes every job\<close>

text \<open>One round of the loop, from the top to the top.\<close>

lemma worker_round:
  assumes "server_ok sv" and "reliable sv" and "distinct (keys cfg)" and "waiting cfg sv s = Suc w"
    and "\<not> shutdown s" and "counted s < unat (target_jobs cfg)"
  shows "\<exists>s'. run_alone cfg c sv [0, 0, 0, 0, 0, 0] Top s = (Top, s') \<and> waiting cfg sv s' = w \<and>
    \<not> shutdown s' \<and> counted s' = Suc (counted s) \<and>
    (done_flag s' \<longleftrightarrow> done_flag s \<or> unat (target_jobs cfg) \<le> Suc (counted s))"
proof -
  have "stored (keys cfg) (sv_lists sv (srv s)) \<noteq> 0" using assms(4) by (simp add: waiting_def)
  with assms(2) obtain k v b where b: "sv_brpop sv (keys cfg) (brpop_timeout_secs cfg) (srv s) = (Inr (Some (k, v)), b)"
    unfolding reliable_def by (metis surj_pair)
  have w: "waiting cfg sv (s\<lparr>srv := b\<rparr>) = w"
    using waiting_taken(1) [OF assms(3), of sv s "(k, v)" "s\<lparr>srv := b\<rparr>"]
      server_ok_brpop(1) [OF assms(1) b] assms(4) by simp
  obtain sample where m: "message_sample c 0 v = Ok sample"
    using message_sample_not_Err [of c 0 v]
    by (auto simp: message_sample_def unix_now_ns_def split: option.splits)
  let ?s1 = "record_sample sample (s\<lparr>srv := b\<rparr>)"
  let ?m2 = "(metrics ?s1)\<lparr>completed := completed (metrics s) + 1\<rparr>"
  let ?s2 = "?s1\<lparr>metrics := ?m2\<rparr>"
  let ?s' = "signal_done cfg (completed (metrics s) + 1) ?s2"
  have c: "unat (completed (metrics s) + 1) = Suc (counted s)"
    using assms(6) unsigned_less [where w = "target_jobs cfg" and 'a = nat]
    by (intro unat_Suc_word) simp
  have "\<not> target_jobs cfg \<le> get_completed (metrics s)"
    using assms(6) by (simp add: get_completed_def word_le_nat_alt)
  then have "run_alone cfg c sv [0, 0, 0, 0, 0, 0] Top s = (Top, ?s')"
    using assms(5) by (simp add: b m inc_completed_def)
  with assms(5) w c show ?thesis
    by (intro exI [of _ ?s']) (simp add: word_le_nat_alt)
qed

lemma run_alone_append:
  "run_alone cfg c sv ts pc s = (pc', s') \<Longrightarrow>
   run_alone cfg c sv (ts @ ts') pc s = run_alone cfg c sv ts' pc' s'"
  by (induction ts arbitrary: pc s) (auto split: prod.splits)

lemma worker_rounds:
  assumes "server_ok sv" and "reliable sv" and "distinct (keys cfg)"
  shows "waiting cfg sv s = n \<Longrightarrow> \<not> shutdown s \<Longrightarrow> counted s + n = unat (target_jobs cfg) \<Longrightarrow> 0 < n \<Longrightarrow>
    \<exists>ts s'. run_alone cfg c sv ts Top s = (Top, s') \<and> done_flag s'"
proof (induction n arbitrary: s)
  case (Suc w)
  from Suc.prems(3) have "counted s < unat (target_jobs cfg)" by linarith
  from worker_round [OF assms Suc.prems(1,2) this, of c] obtain s1 where
    s1: "run_alone cfg c sv [0, 0, 0, 0, 0, 0] Top s = (Top, s1)" "waiting cfg sv s1 = w"
      "\<not> shutdown s1" "counted s1 = Suc (counted s)"
      "done_flag s1 \<longleftrightarrow> done_flag s \<or> unat (target_jobs cfg) \<le> Suc (counted s)" by blast
  show ?case
  proof (cases "w = 0")
    case True
    with s1 Suc.prems(3) show ?thesis by (intro exI conjI) (assumption, simp)
  next
    case False
    from Suc.IH [OF s1(2,3)] s1(4) Suc.prems(3) False obtain ts s'
      where "run_alone cfg c sv ts Top s1 = (Top, s')" "done_flag s'" by auto
    with run_alone_append [OF s1(1), of ts] show ?thesis by (metis (no_types))
  qed
qed simp

section \<open>In a trial\<close>

lemma worker_step_not_Aborted:
  "worker_step cfg c sv t pc s = (pc', s') \<Longrightarrow> pc \<noteq> Aborted \<Longrightarrow> pc' \<noteq> Aborted"
  by (cases pc) (auto simp: inc_completed_def split: if_splits prod.splits sum.splits option.splits
      outcome.splits)

lemma worker_step_terminal:
  "worker_step cfg c sv t pc s = (pc', s') \<Longrightarrow> terminal pc \<Longrightarrow> pc' = pc \<and> s' = s"
  by (cases pc) auto

text \<open>What worker \<open>i\<close> does alone, the trial can do.\<close>

lemma trial_alone:
  "run_alone (trial_worker_cfg cfg) c sv ts (pcs (t_pool T) ! i) (sh (t_pool T)) = (pc', s') \<Longrightarrow>
   i < length (pcs (t_pool T)) \<Longrightarrow> Aborted \<notin> set (pcs (t_pool T)) \<Longrightarrow> running (phase T) \<Longrightarrow>
   (trial_step H cfg c sv)\<^sup>*\<^sup>* T (T\<lparr>t_pool := \<lparr>sh = s', pcs = (pcs (t_pool T))[i := pc']\<rparr>\<rparr>)"
proof (induction ts arbitrary: T)
  case Nil
  then have p: "\<lparr>sh = s', pcs = (pcs (t_pool T))[i := pc']\<rparr> = t_pool T" by (cases "t_pool T") auto
  show ?case unfolding p by simp
next
  case (Cons t ts)
  let ?p = "t_pool T"
  obtain pc1 s1 where w: "worker_step (trial_worker_cfg cfg) c sv t (pcs ?p ! i) (sh ?p) = (pc1, s1)"
    by fastforce
  let ?p1 = "?p\<lparr>sh := s1, pcs := (pcs ?p)[i := pc1]\<rparr>"
  let ?T1 = "T\<lparr>t_pool := ?p1\<rparr>"
  have "pcs ?p ! i \<noteq> Aborted" using Cons.prems(2,3) nth_mem by metis
  then have na: "Aborted \<notin> set (pcs ?p1)"
    using worker_step_not_Aborted [OF w] Cons.prems(3) set_update_subset_insert [of "pcs ?p" i pc1] by auto
  have "(trial_step H cfg c sv)\<^sup>*\<^sup>* T ?T1"
  proof (cases "terminal (pcs ?p ! i)")
    case True
    with worker_step_terminal [OF w] have "?p1 = ?p" by simp
    then show ?thesis by simp
  next
    case False
    have "shutdown (sh ?p1) = shutdown (sh ?p)"
      using worker_step_shutdown [OF w] by simp
    then show ?thesis
      by (intro r_into_rtranclp trial_step.pool pool_step.work [OF Cons.prems(2) False w] na Cons.prems(4))
  qed
  also have "(trial_step H cfg c sv)\<^sup>*\<^sup>* ?T1 (?T1\<lparr>t_pool := \<lparr>sh = s', pcs = (pcs (t_pool ?T1))[i := pc']\<rparr>\<rparr>)"
    by (rule Cons.IH) (use Cons.prems w na in simp_all)
  finally show ?case by simp
qed

text \<open>So a trial of exactly its jobs can end without a timeout.\<close>

lemma trial_can_succeed_facts:
  assumes "hist_ok H" and "server_ok sv" and "reliable sv" and "distinct (brpop_keys (tc_queues cfg))"
    and "stored (brpop_keys (tc_queues cfg)) (sv_lists sv s0) = unat (tc_jobs cfg)"
    and "0 < tc_jobs cfg" and "0 < n"
  shows "\<exists>T r. trial_run H cfg c sv n s0 T \<and> phase T = Finished r \<and> \<not> timed_out r"
proof -
  obtain h where h: "empty_histogram H (hist_max_us cfg) = (Ok h :: (unit, _) outcome)"
    using empty_histogram_Ok [OF assms(1), of "hist_max_us cfg"] by blast
  define T0 where "T0 = trial_start (unat n) s0 h h"
  have init: "trial_init H cfg n s0 = (Ok T0 :: (unit, _) outcome)"
    by (simp add: trial_init_def h T0_def)
  have T0: "phase T0 = Selecting" "t_pool T0 = pool_init (unat n) s0"
    by (simp_all add: T0_def trial_start_def)
  have pool: "pcs (t_pool T0) ! 0 = Top" "0 < length (pcs (t_pool T0))" "Aborted \<notin> set (pcs (t_pool T0))"
    using assms(7) by (simp_all add: T0 pool_init_def word_less_nat_alt)
  let ?cfg = "trial_worker_cfg cfg" and ?s = "sh (t_pool T0)"
  have s: "waiting ?cfg sv ?s = unat (tc_jobs cfg)" "\<not> shutdown ?s"
      "counted ?s + unat (tc_jobs cfg) = unat (target_jobs ?cfg)" "distinct (keys ?cfg)"
      "0 < unat (tc_jobs cfg)"
    using assms(4-6) by (simp_all add: T0 pool_init_def waiting_def metrics_new_def
        trial_worker_cfg_def word_less_nat_alt)
  obtain ts s' where run: "run_alone ?cfg c sv ts Top ?s = (Top, s')" "done_flag s'"
    using worker_rounds [OF assms(2,3) s(4,1,2,3,5), of c] by blast
  define T1 where "T1 = T0\<lparr>t_pool := \<lparr>sh = s', pcs = (pcs (t_pool T0))[0 := Top]\<rparr>\<rparr>"
  have "(trial_step H cfg c sv)\<^sup>*\<^sup>* T0 T1"
    unfolding T1_def
    by (rule trial_alone [where ts = ts, OF _ pool(2,3)]) (simp_all add: pool(1) run(1) T0(1))
  with init have r1: "trial_run H cfg c sv n s0 T1" by (auto simp: trial_run_def)
  have "phase T1 = Selecting" "done_flag (sh (t_pool T1))" by (simp_all add: T1_def T0(1) run(2))
  with trial_can_finish_facts [OF r1] obtain T r where
    "(trial_step H cfg c sv)\<^sup>*\<^sup>* T1 T" "phase T = Finished r" "\<not> timed_out r" by blast
  with trial_run_extend [OF r1] show ?thesis by blast
qed

end
