(* ===== verification/Program_Live.thy ===== *)
theory Program_Live
  imports Program_Run Trial_Success
begin

text \<open>
  The program gets to its end. Once the connections are made no part of \<open>main\<close> is left without a way
  on, whatever the broker and the file system do; and with a broker and a file system that do not
  fail, every command line that passes the checks has a run that ends with exit status 0.
\<close>

section \<open>Every part of a run can return\<close>

text \<open>An outcome that is not a failed connection of a worker.\<close>

definition linked :: "(run_error, 'a) outcome \<Rightarrow> bool" where
  "linked r \<longleftrightarrow> (\<forall>e. r \<noteq> Err (CannotConnect e))"

lemma linked_simps [simp]:
  "linked (Ok x)" "linked (Panicked m)" "linked (Err (FillFailed e))"
  "\<not> linked (Err (CannotConnect e))"
  by (simp_all add: linked_def)

lemma stops_None: "stops f r = None \<longleftrightarrow> (\<exists>x. r = Ok x)"
  by (cases r) auto

lemma stops_linked:
  "stops FillFailed r = Some res \<Longrightarrow> linked res"
  "stops (\<lambda>e. e) r' = Some res' \<Longrightarrow> linked r' \<Longrightarrow> linked res'"
  by (cases r; cases r'; auto simp: linked_def)+

lemma filled_trial_total:
  assumes clear: "pre_trial_clear sv (queue_names cli) (allow_flushdb cli) s = (Ok (), s1)"
    and fill: "bulk_enqueue c demo_stamps sv (queue_names cli) (priorities cli) n_jobs s1 = (Ok (), s2)"
  shows "\<exists>r s' out. one_trial H c sv cli specs mark n_jobs n s r s' out \<and> linked r"
proof (cases "trial_init H (bench_config cli specs n_jobs) n s2 :: (unit, _) outcome")
  case (Ok T0)
  then have run: "trial_run H (bench_config cli specs n_jobs) c sv n s2 T0"
    by (auto simp: trial_run_def)
  from trial_can_finish_facts [OF this] obtain T r where
    T: "(trial_step H (bench_config cli specs n_jobs) c sv)\<^sup>*\<^sup>* T0 T" "phase T = Finished r" by blast
  show ?thesis
    by (intro exI conjI, rule one_trial.ran [OF clear demo_stamp_ok fill trial_run_extend [OF run T(1)] T(2)])
      simp
next
  case (Panicked m)
  have run: "pool_run (trial_worker_cfg (bench_config cli specs n_jobs)) c sv (unat n) s2
      (pool_init (unat n) s2)"
    by (simp add: pool_run_def)
  show ?thesis
    by (intro exI conjI, rule one_trial.no_histogram [OF clear demo_stamp_ok fill Panicked run]) simp
qed (auto simp: trial_init_def outcome_fails empty_histogram_def Let_def split: option.splits)

lemma one_trial_total:
  "\<exists>r s' out. one_trial H c sv cli specs mark n_jobs n s r s' out \<and> linked r"
proof -
  obtain r1 s1 where clear: "pre_trial_clear sv (queue_names cli) (allow_flushdb cli) s = (r1, s1)"
    by fastforce
  obtain r2 s2 where fill:
    "bulk_enqueue c demo_stamps sv (queue_names cli) (priorities cli) n_jobs s1 = (r2, s2)" by fastforce
  show ?thesis
  proof (cases "stops FillFailed r1 :: (run_error, trial_result) outcome option")
    case (Some res)
    show ?thesis
      by (intro exI conjI, rule one_trial.clear_failed [OF clear Some]) (rule stops_linked(1) [OF Some])
  next
    case None
    with clear have c1: "pre_trial_clear sv (queue_names cli) (allow_flushdb cli) s = (Ok (), s1)"
      by (simp add: stops_None)
    show ?thesis
    proof (cases "stops FillFailed r2 :: (run_error, trial_result) outcome option")
      case (Some res)
      show ?thesis
        by (intro exI conjI, rule one_trial.enqueue_failed [OF c1 demo_stamp_ok fill Some])
          (rule stops_linked(1) [OF Some])
    next
      case None
      with fill have c2: "bulk_enqueue c demo_stamps sv (queue_names cli) (priorities cli) n_jobs s1
          = (Ok (), s2)" by (simp add: stops_None)
      show ?thesis by (rule filled_trial_total [OF c1 c2])
    qed
  qed
qed

lemma warmup_total: "\<exists>r s' out. warmup H c sv cli specs n s r s' out \<and> linked r"
proof (cases "warmup_jobs cli = 0")
  case True
  show ?thesis by (intro exI conjI, rule warmup.no_warmup [OF True]) simp
next
  case False
  then have pos: "0 < warmup_jobs cli" by (simp add: word_gt_0)
  obtain r s1 out where r:
    "one_trial H c sv cli specs (warmup_mark cli n) (warmup_jobs cli) n s r s1 out" "linked r"
    using one_trial_total [of H c sv cli specs "warmup_mark cli n" "warmup_jobs cli" n s] by blast
  show ?thesis
  proof (cases "stops (\<lambda>e. e) r :: (run_error, unit) outcome option")
    case None
    then obtain x where "r = Ok x" by (auto simp: stops_None)
    show ?thesis
      by (intro exI conjI, rule warmup.warmed_up [OF pos r(1) [unfolded \<open>r = Ok x\<close>]]) simp
  next
    case (Some res)
    show ?thesis
      by (intro exI conjI, rule warmup.warmup_failed [OF pos r(1) Some]) (rule stops_linked(2) [OF Some r(2)])
  qed
qed

lemma bench_loop_total: "\<exists>r s' out. bench_loop H c sv cli specs ns s r s' out \<and> linked r"
proof (induction ns arbitrary: s)
  case Nil
  show ?case by (intro exI conjI, rule bench_loop.no_more) simp
next
  case (Cons n ns)
  obtain w s1 out1 where w: "warmup H c sv cli specs n s w s1 out1" "linked w"
    using warmup_total [of H c sv cli specs n s] by blast
  obtain r s2 out2 where r: "main_trial H c sv cli specs n s1 r s2 out2" "linked r"
    using one_trial_total [of H c sv cli specs "trial_mark cli n" "jobs cli" n s1] by blast
  obtain rest s3 out3 where rest: "bench_loop H c sv cli specs ns s2 rest s3 out3" "linked rest"
    using Cons.IH [of s2] by blast
  consider res where "stops (\<lambda>e. e) w = Some (res :: (run_error, trial_result list) outcome)"
    | res where "w = Ok ()" "stops (\<lambda>e. e) r = Some (res :: (run_error, trial_result list) outcome)"
    | x res where "w = Ok ()" "r = Ok x" "stops (\<lambda>e. e) rest = Some (res :: (run_error, trial_result list) outcome)"
    | x xs where "w = Ok ()" "r = Ok x" "rest = Ok xs"
    by (cases w; cases r; cases rest; simp)
  then show ?case
  proof cases
    case 1
    show ?thesis
      by (intro exI conjI, rule bench_loop.warmup_stops [OF w(1) 1]) (rule stops_linked(2) [OF 1 w(2)])
  next
    case 2
    show ?thesis
      by (intro exI conjI, rule bench_loop.trial_stops [OF w(1) [unfolded 2(1)] r(1) 2(2)])
        (rule stops_linked(2) [OF 2(2) r(2)])
  next
    case 3
    show ?thesis
      by (intro exI conjI,
          rule bench_loop.rest_stops [OF w(1) [unfolded 3(1)] r(1) [unfolded 3(2)] rest(1) 3(3)])
        (rule stops_linked(2) [OF 3(3) rest(2)])
  next
    case 4
    show ?thesis
      by (intro exI conjI,
          rule bench_loop.next_done [OF w(1) [unfolded 4(1)] r(1) [unfolded 4(2)] rest(1) [unfolded 4(3)]])
        simp
  qed
qed

lemma sample_len_Ok: "stamp_ok st \<Longrightarrow> \<exists>len. sample_len c st cli = Ok len"
  by (auto simp: sample_len_def envelope_new_def unix_now_ns_Ok stamp_ok_def outcome_simps)

lemma queues_label_Ok: "names \<noteq> [] \<Longrightarrow> \<exists>label. queues_label names = Ok label"
  by (cases names rule: remdups_adj.cases) (auto simp: queues_label_def)

text \<open>An ending that is not a failed connection.\<close>

definition not_cut_off :: "outputs \<Rightarrow> bool" where
  "not_cut_off out \<longleftrightarrow>
     (\<forall>e. ending out \<noteq> Err (NotConnected e) \<and> ending out \<noteq> Err (RunFailed (CannotConnect e)))"

lemma started_total:
  assumes "startup U checks cli = Ok S" and "queues_label (queue_names cli) = (Ok label :: (unit, _) outcome)"
    and "bench_loop H c sv cli (st_specs S) (workers cli) s loop s1 out" and "linked loop"
  shows "\<exists>out s' f'. program H c sv F R U checks cli s f out s' f' \<and> not_cut_off out"
proof -
  obtain len where len: "sample_len c demo_stamp cli = (Ok len :: (unit, _) outcome)"
    using sample_len_Ok [OF demo_stamp_ok] by blast
  show ?thesis
  proof (cases "stops RunFailed loop :: (main_error, unit) outcome option")
    case (Some res)
    with assms(4) have c: "not_cut_off (failed_run evs res)" for evs
      by (cases loop) (auto simp: not_cut_off_def failed_run_def)
    show ?thesis
      by (intro exI conjI, rule program.loop_failed [OF assms(1,2) demo_stamp_ok len assms(3) Some]) (rule c)
  next
    case None
    then obtain rs where rs: "loop = Ok rs" by (auto simp: stops_None)
    fix reply timestamp
    obtain r written f' where w: "write_json F R (run_report cli reply S timestamp rs) (report_path cli reply) f
        = (r, written, f')" by (metis prod_cases3)
    show ?thesis
    proof (cases "stops ReportFailed r :: (main_error, unit) outcome option")
      case (Some res)
      then have c: "not_cut_off (failed_run evs res)" for evs
        by (cases r) (auto simp: not_cut_off_def failed_run_def)
      show ?thesis
        by (intro exI conjI,
            rule program.report_failed [OF assms(1,2) demo_stamp_ok len assms(3) [unfolded rs] w Some])
          (rule c)
    next
      case None
      then have r: "r = Ok ()" by (auto simp: stops_None)
      show ?thesis
        by (intro exI conjI,
            rule program.finished [OF assms(1,2) demo_stamp_ok len assms(3) [unfolded rs] w [unfolded r]])
          (simp add: not_cut_off_def)
    qed
  qed
qed

text \<open>
  The program can always return, and not only because a connection may fail: whatever the command
  line, the broker, the file system and the libraries do, there is a run to an exit status in which
  every connection is made.
\<close>

lemma program_returns:
  "\<exists>out s' f'. program H c sv F R U checks cli s f out s' f' \<and> not_cut_off out"
proof (cases "stops StartFailed (startup U checks cli) :: (main_error, unit) outcome option")
  case (Some res)
  then have c: "not_cut_off (failed_run evs res)" for evs
    by (cases "startup U checks cli") (auto simp: not_cut_off_def failed_run_def)
  show ?thesis by (intro exI conjI, rule program.rejected [OF Some]) (rule c)
next
  case None
  then obtain S where S: "startup U checks cli = Ok S" by (auto simp: stops_None)
  show ?thesis
  proof (cases "queue_names cli")
    case Nil
    then have label: "queues_label (queue_names cli) = (Panicked ''index out of bounds'' :: (unit, _) outcome)"
      by (simp add: queues_label_def)
    show ?thesis
      by (intro exI conjI, rule program.no_label [OF S label]) (simp add: not_cut_off_def failed_run_def)
  next
    case (Cons q qs)
    then obtain label where label: "queues_label (queue_names cli) = (Ok label :: (unit, _) outcome)"
      using queues_label_Ok [of "queue_names cli"] by auto
    obtain loop s1 out1 where "bench_loop H c sv cli (st_specs S) (workers cli) s loop s1 out1" "linked loop"
      using bench_loop_total [of H c sv cli "st_specs S" "workers cli" s] by blast
    then show ?thesis by (rule started_total [OF S label])
  qed
qed

section \<open>When nothing fails the program succeeds\<close>

definition reliable_files :: "'f file_ops \<Rightarrow> bool" where
  "reliable_files F \<longleftrightarrow>
     (\<forall>cs f. \<exists>f'. f_mkdirs F cs f = (Inr (), f')) \<and>
     (\<forall>path text f. \<exists>f'. f_write F path text f = (Inr (), f'))"

lemma mem_files_reliable: "reliable_files mem_files"
  by (simp add: reliable_files_def mem_files_def)

lemma write_json_succeeds:
  assumes "reliable_files F"
  obtains written f' where "write_json F R doc path f = (Ok (), written, f')"
proof -
  obtain f1 where f1: "create_parent F path f = (Inr (), f1)"
    using assms by (fastforce simp: create_parent_def reliable_files_def split: option.splits)
  obtain f2 where f2: "f_write F path (to_string_pretty R doc) f1 = (Inr (), f2)"
    using assms unfolding reliable_files_def by blast
  show thesis
    by (cases "path = ''-''") (auto simp: write_json_def f1 f2 intro: that)
qed

lemma clear_succeeds:
  assumes "reliable sv"
  obtains s1 where "pre_trial_clear sv queues allow s = (Ok (), s1)"
proof -
  have p: "\<exists>s'. sv_pipe sv cs s = (Inr (), s')" for cs using assms by (simp add: reliable_def)
  obtain s' s'' where "sv_pipe sv [FLUSHDB] s = (Inr (), s')"
    "sv_pipe sv (map DEL (brpop_keys queues)) s = (Inr (), s'')" using p by metis
  then show thesis
    by (cases allow) (auto simp: pre_trial_clear_def flushdb_def clear_queue_def intro: that)
qed

text \<open>What a command line that passed the checks gives the loop.\<close>

definition ready :: "'u url_ops \<Rightarrow> cli \<Rightarrow> bool" where
  "ready U cli \<longleftrightarrow> validate_cli U cli = Ok () \<and> utf8_valid (queue cli) \<and> length (priorities cli) < 2 ^ 64"

lemma one_trial_succeeds:
  assumes "codec_ok c" and "server_ok sv" and "reliable sv" and "hist_ok H" and "ready U cli"
    and "0 < n" and "0 < n_jobs"
  shows "\<exists>r s' out. one_trial H c sv cli specs mark n_jobs n s (Ok r) s' out \<and> \<not> timed_out r"
proof -
  obtain s1 where clear: "pre_trial_clear sv (queue_names cli) (allow_flushdb cli) s = (Ok (), s1)"
    by (rule clear_succeeds [OF assms(3)])
  have plan: "plan_ok (queue_names cli) (priorities cli) demo_stamps"
    using assms(5) unfolding ready_def by (elim conjE) (rule validated_plan [OF _ _ _ demo_stamp_ok])
  obtain s2 where fill: "bulk_enqueue c demo_stamps sv (queue_names cli) (priorities cli) n_jobs s1 = (Ok (), s2)"
    using bulk_enqueue_Ok [OF _ plan, of sv c n_jobs s1] assms(3) by (auto simp: reliable_def)
  let ?cfg = "bench_config cli specs n_jobs"
  have "distinct (brpop_keys (tc_queues ?cfg))" "tc_jobs ?cfg = n_jobs"
    "stored (brpop_keys (tc_queues ?cfg)) (sv_lists sv s2) = unat (tc_jobs ?cfg)"
    using fill_exact(1) [OF assms(1,2) plan clear fill]
    by (simp_all add: bench_config_def queue_names_def make_queue_names_keys_distinct)
  then obtain T r where T: "trial_run H ?cfg c sv n s2 T" "phase T = Finished r" "\<not> timed_out r"
    using trial_can_succeed_facts [OF assms(4,2,3), of ?cfg s2 n c] assms(6,7) by auto
  show ?thesis
    by (intro exI conjI, rule one_trial.ran [OF clear demo_stamp_ok fill T(1,2)]) (rule T(3))
qed

lemma warmup_succeeds:
  assumes "codec_ok c" and "server_ok sv" and "reliable sv" and "hist_ok H" and "ready U cli" and "0 < n"
  shows "\<exists>s' out. warmup H c sv cli specs n s (Ok ()) s' out"
proof (cases "warmup_jobs cli = 0")
  case True
  show ?thesis by (intro exI) (rule warmup.no_warmup [OF True])
next
  case False
  then have pos: "0 < warmup_jobs cli" by (simp add: word_gt_0)
  from one_trial_succeeds [OF assms pos, of specs "warmup_mark cli n" s] obtain r s1 out where
    "one_trial H c sv cli specs (warmup_mark cli n) (warmup_jobs cli) n s (Ok r) s1 out" by (elim exE conjE)
  then show ?thesis by (intro exI) (rule warmup.warmed_up [OF pos])
qed

lemma bench_loop_succeeds:
  assumes "codec_ok c" and "server_ok sv" and "reliable sv" and "hist_ok H" and "ready U cli"
    and "0 < jobs cli"
  shows "\<forall>n \<in> set ns. 0 < n \<Longrightarrow>
    \<exists>rs s' out. bench_loop H c sv cli specs ns s (Ok rs) s' out \<and> \<not> any_timeout rs"
proof (induction ns arbitrary: s)
  case Nil
  show ?case by (intro exI conjI, rule bench_loop.no_more) (simp add: any_timeout_def)
next
  case (Cons n ns)
  then have n: "0 < n" by simp
  obtain s1 out1 where w: "warmup H c sv cli specs n s (Ok ()) s1 out1"
    using warmup_succeeds [OF assms(1-5) n, of specs s] by (elim exE)
  obtain r s2 out2 where r: "main_trial H c sv cli specs n s1 (Ok r) s2 out2" "\<not> timed_out r"
    using one_trial_succeeds [OF assms(1-5) n assms(6), of specs "trial_mark cli n" s1] by (elim exE conjE)
  obtain rs s3 out3 where rest: "bench_loop H c sv cli specs ns s2 (Ok rs) s3 out3" "\<not> any_timeout rs"
    using Cons.IH [of s2] Cons.prems by auto
  show ?case
    by (intro exI conjI, rule bench_loop.next_done [OF w r(1) rest(1)])
      (use r(2) rest(2) in \<open>simp add: any_timeout_def\<close>)
qed

text \<open>The run exists, from any state of the broker and of the file system.\<close>

lemma program_succeeds:
  assumes "codec_ok c" and "server_ok sv" and "reliable sv" and "hist_ok H" and "reliable_files F"
    and "startup U checks cli = Ok S" and "utf8_valid (queue cli)" and "length (priorities cli) < 2 ^ 64"
  shows "\<exists>out s' f'. program H c sv F R U checks cli s f out s' f' \<and> ending out = Ok () \<and> exit_code out = 0"
proof -
  have v: "validate_cli U cli = Ok ()" using assms(6) by (simp add: startup_Ok)
  then have j: "0 < jobs cli" and w: "\<forall>n \<in> set (workers cli). 0 < n"
    by (auto simp: validate_cli_def outcome_simps check_all_Ok split: if_splits)
  have "ready U cli" using v assms(7,8) by (simp add: ready_def)
  from bench_loop_succeeds [OF assms(1-4) this j w, of "st_specs S" s] obtain rs s' out where
    loop: "bench_loop H c sv cli (st_specs S) (workers cli) s (Ok rs) s' out" and ok: "\<not> any_timeout rs"
    by (elim exE conjE)
  obtain len where len: "sample_len c demo_stamp cli = (Ok len :: (unit, _) outcome)"
    using sample_len_Ok [OF demo_stamp_ok] by blast
  obtain label where label: "queues_label (queue_names cli) = (Ok label :: (unit, _) outcome)"
    using queues_label_Ok [of "queue_names cli"] make_queue_names_not_Nil by (auto simp: queue_names_def)
  fix reply timestamp
  obtain written f' where wr: "write_json F R (run_report cli reply S timestamp rs) (report_path cli reply) f
      = (Ok (), written, f')" by (rule write_json_succeeds [OF assms(5)])
  show ?thesis
    by (intro exI conjI, rule program.finished [OF assms(6) label demo_stamp_ok len loop wr])
      (simp_all add: exit_status_def ok)
qed

text \<open>
  C2: the benchmark can succeed. With a broker that answers every command and a file system that
  takes every write, every command line that passes the checks has a run that ends with exit
  status 0 (and so, by \<open>program_report\<close>, with a complete report), whatever the broker held before,
  for every number of jobs, queues, priorities and workers.
\<close>

theorem program_can_succeed:
  assumes "codec_ok c" and "server_ok sv" and "reliable sv" and "hist_ok H" and "reliable_files F"
    and "startup U checks cli = Ok S" and "utf8_valid (queue cli)" and "length (priorities cli) < 2 ^ 64"
  shows "\<exists>out s' f'. program H c sv F R U checks cli s f out s' f' \<and> ending out = Ok () \<and> exit_code out = 0"
  by (rule program_succeeds [OF assms])

theorem program_can_succeed_witness:
  "\<exists>out s' f'. program ref_hist_ops ref_codec mem_server mem_files ref_renderers ref_url_ops True demo_bench
     (\<lambda>k. [''stale'']) (\<lambda>p. None) out s' f' \<and> exit_code out = 0"
  using program_can_succeed [OF ref_codec_ok mem_server_ok mem_server_reliable ref_hist_ok mem_files_reliable
    demo_startup demo_bench_facts(1,2), of ref_renderers "\<lambda>k. [''stale'']" "\<lambda>p. None"]
  by (elim exE conjE) (intro exI conjI)

end
