(* ===== verification/Other_Keys.thy ===== *)
theory Other_Keys
  imports Program_Live
begin

text \<open>
  The benchmark on a broker that it shares: without \<open>--allow-flushdb\<close> a run changes no key but those
  its queues expand to, whatever it was doing when it ended.
\<close>

section \<open>What a command can touch\<close>

text \<open>
  A pipeline changes only the lists its commands name, also when it fails in the middle; that is the
  one fact about failed pipelines the program relies on.
\<close>

fun touches :: "redis_cmd \<Rightarrow> string \<Rightarrow> bool" where
  "touches (DEL k) l = (k = l)"
| "touches FLUSHDB l = True"
| "touches (LPUSH k v) l = (k = l)"

definition pipe_frame :: "'s server \<Rightarrow> bool" where
  "pipe_frame sv \<longleftrightarrow> (\<forall>cs s r s' k. sv_pipe sv cs s = (r, s') \<longrightarrow> (\<forall>cmd \<in> set cs. \<not> touches cmd k) \<longrightarrow>
     sv_lists sv s' k = sv_lists sv s k)"

lemma pipe_frameD:
  "pipe_frame sv \<Longrightarrow> sv_pipe sv cs s = (r, s') \<Longrightarrow> (\<And>cmd. cmd \<in> set cs \<Longrightarrow> \<not> touches cmd k) \<Longrightarrow>
   sv_lists sv s' k = sv_lists sv s k"
  unfolding pipe_frame_def by blast

lemma mem_server_frame: "pipe_frame mem_server"
proof -
  have "fold cmd_effect cs m k = m k" if "\<forall>cmd \<in> set cs. \<not> touches cmd k" for cs m k
    using that
  proof (induction cs arbitrary: m)
    case (Cons cmd cs)
    then show ?case by (cases cmd) auto
  qed simp
  then show ?thesis by (auto simp: pipe_frame_def mem_server_def)
qed

section \<open>The producer\<close>

lemma clear_queue_frame:
  assumes "pipe_frame sv" and "k \<notin> set (brpop_keys queues)" and "clear_queue sv queues s = (r, s')"
  shows "sv_lists sv s' k = sv_lists sv s k"
proof -
  obtain r' where "sv_pipe sv (map DEL (brpop_keys queues)) s = (r', s')"
    using assms(3) by (auto simp: clear_queue_def split: prod.splits sum.splits)
  from this show ?thesis
    by (rule pipe_frameD [OF assms(1)]) (use assms(2) in auto)
qed

lemma batch_cmds_touch:
  assumes "batch_cmds c st qs ps idx n = Ok cs" and "cmd \<in> set cs" and "touches cmd k"
  shows "k \<in> set (brpop_keys qs)"
proof -
  obtain j where "job_cmd c st qs ps (idx + of_nat j) = Ok cmd"
    using assms(1,2) by (auto simp: batch_cmds_def collect_outcome_Ok_iff list_all2_conv_all_nth in_set_conv_nth)
  then obtain a p e where "a < length qs" "cmd = LPUSH (q_for_pri (qs ! a) p) e"
    by (auto simp: job_cmd_def outcome_simps index_vec_def split: if_splits)
  then obtain q where "q \<in> set qs" "cmd = LPUSH (q_for_pri q p) e" using nth_mem by blast
  with assms(3) kombu.written_key_polled show ?thesis
    by (auto simp: brpop_keys_def)
qed

lemma bulk_loop_frame:
  assumes "pipe_frame sv" and "k \<notin> set (brpop_keys qs)"
  shows "bulk_loop c st sv qs ps idx remaining s = (r, s') \<Longrightarrow> sv_lists sv s' k = sv_lists sv s k"
proof (induction "unat remaining" arbitrary: idx remaining s rule: less_induct)
  case less
  show ?case
  proof (cases "remaining = 0")
    case True
    with less.prems show ?thesis by (simp add: bulk_loop_0)
  next
    case False
    let ?b = "min remaining BATCH_SIZE"
    note unfolded = less.prems [unfolded bulk_loop.simps [of c st sv qs ps idx remaining s]]
    show ?thesis
    proof (cases "batch_cmds c st qs ps idx (unat ?b)")
      case (Ok pipe)
      obtain x s1 where x: "sv_pipe sv pipe s = (x, s1)" by fastforce
      have s1: "sv_lists sv s1 k = sv_lists sv s k"
        using pipe_frameD [OF assms(1) x] batch_cmds_touch [OF Ok] assms(2) by blast
      show ?thesis
      proof (cases x)
        case (Inr u)
        have "unat (remaining - ?b) < unat remaining"
          using batch_bounds [OF False] by simp
        moreover have "bulk_loop c st sv qs ps (idx + ?b) (remaining - ?b) s1 = (r, s')"
          using unfolded False Ok x Inr by (simp add: Let_def)
        ultimately show ?thesis using less.hyps s1 by metis
      qed (use unfolded False Ok x s1 in \<open>auto simp: Let_def\<close>)
    qed (use unfolded False in \<open>simp_all add: Let_def\<close>)
  qed
qed

lemma fill_frame:
  assumes "pipe_frame sv" and "k \<notin> set (brpop_keys qs)"
  shows "pre_trial_clear sv qs False s = (r, s') \<Longrightarrow> sv_lists sv s' k = sv_lists sv s k"
    and "bulk_enqueue c st sv qs ps n s = (x, s') \<Longrightarrow> sv_lists sv s' k = sv_lists sv s k"
  using clear_queue_frame [OF assms] bulk_loop_frame [OF assms]
  by (simp_all add: pre_trial_clear_def bulk_enqueue_def)

section \<open>The workers\<close>

lemma brpop_frame:
  assumes "server_ok sv" and "k \<notin> set ks" and "sv_brpop sv ks t s = (r, s')"
  shows "sv_lists sv s' k = sv_lists sv s k"
proof -
  have "sv_lists sv s' k = sv_lists sv s k"
    if "brpop_effect ks (sv_lists sv s) = Some (kv, sv_lists sv s')" for kv
  proof -
    obtain l v where "kv = (l, v)" by fastforce
    with brpop_effect_Some [of ks "sv_lists sv s" l v "sv_lists sv s'"] that
    have "l \<in> set ks" "sv_lists sv s' = (sv_lists sv s)(l := butlast (sv_lists sv s l))" by auto
    moreover from this(1) assms(2) have "l \<noteq> k" by auto
    ultimately show ?thesis by simp
  qed
  then show ?thesis
    using server_ok_brpop [OF assms(1,3)] by (cases r) (metis option.exhaust)+
qed

lemma worker_step_keys:
  assumes "server_ok sv" and "k \<notin> set (keys cfg)" and "worker_step cfg c sv t pc s = (pc', s')"
  shows "sv_lists sv (srv s') k = sv_lists sv (srv s) k"
proof (cases pc)
  case Polling
  obtain r b where rb: "sv_brpop sv (keys cfg) (brpop_timeout_secs cfg) (srv s) = (r, b)" by fastforce
  then have "srv s' = b"
    using assms(3) by (auto simp: Polling split: sum.splits option.splits if_splits)
  with brpop_frame [OF assms(1,2) rb] show ?thesis by simp
qed (use assms(3) in \<open>auto simp: inc_completed_def split: if_splits outcome.splits\<close>)

lemma pool_run_keys:
  assumes "server_ok sv" and "k \<notin> set (keys cfg)" and "pool_run cfg c sv n s0 p"
  shows "sv_lists sv (srv (sh p)) k = sv_lists sv s0 k"
  using assms(3)
proof (rule pool_run_invariant)
  fix p p' assume p: "sv_lists sv (srv (sh p)) k = sv_lists sv s0 k" and "pool_step cfg c sv p p'"
  from this(2) show "sv_lists sv (srv (sh p')) k = sv_lists sv s0 k"
  proof (cases rule: pool_step.cases)
    case (work i t pc' s')
    with worker_step_keys [OF assms(1,2) work(4)] p show ?thesis by simp
  next
    case (abort_in_flight i r b)
    with brpop_frame [OF assms(1,2) abort_in_flight(4)] p show ?thesis by simp
  qed (use p in simp_all)
qed (simp add: pool_init_def)

section \<open>The trials\<close>

lemma one_trial_keys:
  assumes "server_ok sv" and "pipe_frame sv" and "\<not> allow_flushdb cli"
    and "k \<notin> set (brpop_keys (queue_names cli))"
    and "one_trial H c sv cli specs mark n_jobs n s r s' out"
  shows "sv_lists sv s' k = sv_lists sv s k"
proof -
  note fill = fill_frame [OF assms(2,4)]
  have k: "k \<notin> set (keys (trial_worker_cfg (bench_config cli specs n_jobs)))"
    using assms(4) by (simp add: trial_worker_cfg_def bench_config_def)
  note pool = pool_run_keys [OF assms(1) k]
  from assms(5) show ?thesis
  proof cases
    case (ran s1 st s2 T x)
    with assms(3) fill pool [OF trial_inv_run(2) [OF ran(7)]] show ?thesis by simp
  qed (use assms(3) fill pool in auto)
qed

lemma warmup_keys:
  assumes "server_ok sv" and "pipe_frame sv" and "\<not> allow_flushdb cli"
    and "k \<notin> set (brpop_keys (queue_names cli))" and "warmup H c sv cli specs n s r s' out"
  shows "sv_lists sv s' k = sv_lists sv s k"
  using assms(5) one_trial_keys [OF assms(1-4)] by cases auto

lemma bench_loop_keys:
  assumes "server_ok sv" and "pipe_frame sv" and "\<not> allow_flushdb cli"
    and "k \<notin> set (brpop_keys (queue_names cli))" and "bench_loop H c sv cli specs ns s r s' out"
  shows "sv_lists sv s' k = sv_lists sv s k"
  using assms(5)
proof (induction rule: bench_loop.induct)
  case (warmup_stops n s w s1 out1 res ns)
  then show ?case using warmup_keys [OF assms(1-4)] by blast
next
  case (trial_stops n s s1 out1 r s2 out2 res ns)
  then show ?case using warmup_keys [OF assms(1-4)] one_trial_keys [OF assms(1-4)] by metis
next
  case (rest_stops n s s1 out1 r s2 out2 ns rest s3 out3 res)
  then show ?case using warmup_keys [OF assms(1-4)] one_trial_keys [OF assms(1-4)] by metis
next
  case (next_done n s s1 out1 r s2 out2 ns rs s3 out3)
  then show ?case using warmup_keys [OF assms(1-4)] one_trial_keys [OF assms(1-4)] by metis
qed simp

section \<open>The property\<close>

text \<open>
  C4: the default is safe on a shared broker. Without \<open>--allow-flushdb\<close>, whatever a run does and
  however it ends (a complete report, a failed command, a lost connection, a panic), every key that
  is not one of the keys its queues expand to holds what it held before.
\<close>

theorem program_spares_other_keys:
  assumes "server_ok sv" and "pipe_frame sv" and "\<not> allow_flushdb cli"
    and "k \<notin> set (brpop_keys (queue_names cli))" and "program H c sv F R U checks cli s f out s' f'"
  shows "sv_lists sv s' k = sv_lists sv s k"
  using assms(5) bench_loop_keys [OF assms(1-4)] by cases auto

theorem program_spares_other_keys_witness:
  "\<exists>out s' f'. program ref_hist_ops ref_codec mem_server mem_files ref_renderers ref_url_ops True demo_bench
     (\<lambda>k. [''old'']) (\<lambda>p. None) out s' f' \<and> exit_code out = 0 \<and> s' ''session'' = [''old'']"
proof -
  have k: "''session'' \<notin> set (brpop_keys (queue_names demo_bench))"
    unfolding demo_bench_facts(3) demo_queues_def by code_simp
  obtain out s' f' where run: "program ref_hist_ops ref_codec mem_server mem_files ref_renderers ref_url_ops
      True demo_bench (\<lambda>k. [''old'']) (\<lambda>p. None) out s' f'" "exit_code out = 0"
    using program_succeeds [OF ref_codec_ok mem_server_ok mem_server_reliable ref_hist_ok
      mem_files_reliable demo_startup demo_bench_facts(1,2)] by metis
  have "sv_lists mem_server s' ''session'' = [''old'']"
    using program_spares_other_keys [OF mem_server_ok mem_server_frame _ k run(1)]
    by (simp add: demo_bench_facts) (simp add: mem_server_def)
  then have "s' ''session'' = [''old'']" by (simp add: mem_server_def)
  with run show ?thesis by blast
qed

end
