(* ===== verification/Trial_Windows.thy ===== *)
theory Trial_Windows
  imports Trial_Seconds
begin

text \<open>
  What the per-second latencies of a report mean: the collector and the monitor together refine a
  simple picture, the list of latencies cut into consecutive windows, one histogram per window.
\<close>

section \<open>Windows of a list of samples\<close>

text \<open>The histograms of consecutive windows, each recorded into the one before it after a reset.\<close>

fun window_hists :: "'h hist_ops \<Rightarrow> 'h \<Rightarrow> u64 list list \<Rightarrow> 'h list" where
  "window_hists H h [] = []"
| "window_hists H h (vs # vss) =
     (let s = record_all H vs h in s # window_hists H (h_reset H s) vss)"

fun after_windows :: "'h hist_ops \<Rightarrow> 'h \<Rightarrow> u64 list list \<Rightarrow> 'h" where
  "after_windows H h [] = h"
| "after_windows H h (vs # vss) = after_windows H (h_reset H (record_all H vs h)) vss"

text \<open>The hash map the monitor builds from the windows it is handed.\<close>

definition window_table :: "'h hist_ops \<Rightarrow> percentile_spec list \<Rightarrow> 'h list \<Rightarrow> (string \<times> u64 list) list" where
  "window_table H specs snaps =
     fold (\<lambda>snap. fold (\<lambda>spec. push_entry (spec_name spec) (spec_value H snap spec)) specs) snaps []"

lemma window_hists_snoc:
  "window_hists H h (vss @ [vs]) = window_hists H h vss @ [record_all H vs (after_windows H h vss)]"
  "after_windows H h (vss @ [vs]) = h_reset H (record_all H vs (after_windows H h vss))"
  by (induction vss arbitrary: h) (simp_all add: Let_def)

lemma length_window_hists [simp]: "length (window_hists H h vss) = length vss"
  by (induction vss arbitrary: h) (simp_all add: Let_def)

lemma series_specs:
  "series l (fold (\<lambda>spec. push_entry (spec_name spec) (val spec)) specs m)
     = series l m @ map val (filter (\<lambda>spec. spec_name spec = l) specs)"
  by (induction specs arbitrary: m) (auto simp: series_push)

lemma series_table:
  "series l (window_table H specs snaps)
     = concat (map (\<lambda>snap. map (spec_value H snap) (filter (\<lambda>spec. spec_name spec = l) specs)) snaps)"
proof -
  have "series l (fold (\<lambda>snap. fold (\<lambda>spec. push_entry (spec_name spec) (spec_value H snap spec)) specs) snaps m)
      = series l m
        @ concat (map (\<lambda>snap. map (spec_value H snap) (filter (\<lambda>spec. spec_name spec = l) specs)) snaps)" for m
    by (induction snaps arbitrary: m) (simp_all add: series_specs)
  from this [of "[]"] show ?thesis by (simp add: window_table_def series_def)
qed

lemma window_hists_len:
  assumes "hist_ok H"
  shows "h_len H h = 0 \<Longrightarrow> (\<And>v. v \<in> set (concat vss) \<Longrightarrow> max v 1 \<le> h_high H h) \<Longrightarrow>
    i < length vss \<Longrightarrow> h_len H (window_hists H h vss ! i) = of_nat (length (vss ! i))"
proof (induction vss arbitrary: h i)
  case (Cons vs vss)
  have "max v 1 \<le> h_high H h" if "v \<in> set vs" for v
    using that Cons.prems(2) [of v] by simp
  from record_all_len [OF assms this] Cons.prems(1)
  have s: "h_len H (record_all H vs h) = of_nat (length vs)"
    "h_high H (record_all H vs h) = h_high H h" by simp_all
  show ?case
  proof (cases i)
    case 0
    with s show ?thesis by (simp add: Let_def)
  next
    case (Suc j)
    have "max v 1 \<le> h_high H (h_reset H (record_all H vs h))" if "v \<in> set (concat vss)" for v
      using that Cons.prems(2) [of v] by (simp add: s(2) hist_okD(5) [OF assms])
    from Cons.IH [OF hist_okD(4) [OF assms] this] Cons.prems(3) Suc
    have "h_len H (window_hists H (h_reset H (record_all H vs h)) vss ! j) = of_nat (length (vss ! j))"
      by simp
    with Suc show ?thesis by (simp add: Let_def)
  qed
qed simp

section \<open>The invariant\<close>

definition windows_inv :: "'h hist_ops \<Rightarrow> trial_config \<Rightarrow> 'h \<Rightarrow> ('s, 'h) trial \<Rightarrow> bool" where
  "windows_inv H cfg h0 T \<longleftrightarrow>
     (\<exists>vss vs. concat vss @ vs = take (taken T) (latencies (sh (t_pool T))) \<and>
        per_sec_hist (coll T) = record_all H vs (after_windows H h0 vss) \<and>
        latency_sec_samples (mon T) = window_table H (percentile_specs cfg) (window_hists H h0 vss))"

lemma windows_inv_init: "windows_inv H cfg h0 (trial_start n s0 h1 h0)"
  unfolding windows_inv_def
  by (intro exI [of _ "[]"])
    (simp add: trial_start_def record_all_def monitor_new_def window_table_def)

lemma windows_inv_frame:
  assumes "windows_inv H cfg h0 T" and "taken T \<le> length (latencies (sh (t_pool T)))"
    and "latencies (sh (t_pool T')) = latencies (sh (t_pool T)) @ ys" and "taken T' = taken T"
    and "per_sec_hist (coll T') = per_sec_hist (coll T)"
    and "latency_sec_samples (mon T') = latency_sec_samples (mon T)"
  shows "windows_inv H cfg h0 T'"
  using assms by (simp add: windows_inv_def)

lemma windows_inv_collect:
  assumes "windows_inv H cfg h0 T" and "taken T < length (latencies (sh (t_pool T)))"
  shows "windows_inv H cfg h0 (T\<lparr>taken := Suc (taken T),
    coll := collect_sample H (latencies (sh (t_pool T)) ! taken T) (coll T)\<rparr>)"
proof -
  from assms(1) obtain vss vs where w: "concat vss @ vs = take (taken T) (latencies (sh (t_pool T)))"
    "per_sec_hist (coll T) = record_all H vs (after_windows H h0 vss)"
    "latency_sec_samples (mon T) = window_table H (percentile_specs cfg) (window_hists H h0 vss)"
    by (auto simp: windows_inv_def)
  then have "concat vss @ (vs @ [latencies (sh (t_pool T)) ! taken T])
      = take (Suc (taken T)) (latencies (sh (t_pool T)))"
    using assms(2) by (simp add: take_Suc_conv_app_nth flip: append_assoc)
  with w show ?thesis
    unfolding windows_inv_def
    by (intro exI [of _ vss] exI [of _ "vs @ [latencies (sh (t_pool T)) ! taken T]"])
      (simp add: collect_sample_def Let_def)
qed

lemma windows_inv_tick:
  assumes "windows_inv H cfg h0 T" and "collect_snapshot H (coll T) = (snap, col)"
  shows "windows_inv H cfg h0
    (T\<lparr>coll := col, mon := monitor_window H (percentile_specs cfg) snap (mon T)\<rparr>)"
proof -
  from assms(1) obtain vss vs where w: "concat vss @ vs = take (taken T) (latencies (sh (t_pool T)))"
    "per_sec_hist (coll T) = record_all H vs (after_windows H h0 vss)"
    "latency_sec_samples (mon T) = window_table H (percentile_specs cfg) (window_hists H h0 vss)"
    by (auto simp: windows_inv_def)
  with assms(2) show ?thesis
    unfolding windows_inv_def
    by (intro exI [of _ "vss @ [vs]"] exI [of _ "[]"])
      (auto simp: collect_snapshot_def monitor_window_def window_hists_snoc window_table_def record_all_def)
qed

lemma windows_inv_step:
  assumes "windows_inv H cfg h0 T" and "trial_inv H h1 T" and "trial_step H cfg c sv T T'"
  shows "windows_inv H cfg h0 T'"
proof -
  have le: "taken T \<le> length (latencies (sh (t_pool T)))"
    using assms(2) by (simp add: trial_inv_def)
  obtain ys where ys: "latencies (sh (t_pool T')) = latencies (sh (t_pool T)) @ ys"
    using trial_step_pool [OF assms(3)] pool_step_grows(1) by fastforce
  note frame = windows_inv_frame [OF assms(1) le ys]
  from assms(3) show ?thesis
  proof (cases rule: trial_step.cases)
    case collect
    with windows_inv_collect [OF assms(1)] show ?thesis by simp
  next
    case (tick_window snap col)
    with windows_inv_tick [OF assms(1)] show ?thesis by simp
  qed (rule frame; simp add: monitor_throughput_def monitor_errors_def Let_def)+
qed

lemma windows_inv_run:
  assumes "trial_run H cfg c sv n s0 T"
  shows "\<exists>h0. empty_histogram H (hist_max_us cfg) = (Ok h0 :: (unit, _) outcome) \<and>
    trial_inv H h0 T \<and> windows_inv H cfg h0 T"
proof -
  have "(\<exists>h0. empty_histogram H (hist_max_us cfg) = (Ok h0 :: (unit, _) outcome) \<and>
      trial_inv H h0 T \<and> windows_inv H cfg h0 T) \<and>
      pool_run (trial_worker_cfg cfg) c sv (unat n) s0 (t_pool T)"
    using assms
  proof (rule trial_run_invariant)
    fix h1 assume "empty_histogram H (hist_max_us cfg) = (Ok h1 :: (unit, _) outcome)"
    then show "\<exists>h0. empty_histogram H (hist_max_us cfg) = (Ok h0 :: (unit, _) outcome) \<and>
        trial_inv H h0 (trial_start (unat n) s0 h1 h1) \<and> windows_inv H cfg h0 (trial_start (unat n) s0 h1 h1)"
      by (intro exI [of _ h1] conjI trial_inv_init windows_inv_init)
  next
    fix T T' assume "\<exists>h0. empty_histogram H (hist_max_us cfg) = (Ok h0 :: (unit, _) outcome) \<and>
        trial_inv H h0 T \<and> windows_inv H cfg h0 T" and "trial_step H cfg c sv T T'"
    then show "\<exists>h0. empty_histogram H (hist_max_us cfg) = (Ok h0 :: (unit, _) outcome) \<and>
        trial_inv H h0 T' \<and> windows_inv H cfg h0 T'"
      by (blast intro: trial_inv_step windows_inv_step)
  qed
  then show ?thesis ..
qed

section \<open>The property\<close>

text \<open>
  C34: the second \<open>i\<close> of a latency series is about the samples of second \<open>i\<close>. In every finished trial
  the list of all latencies is cut into consecutive windows and a rest: the values stored under a
  name are, window by window, the values of the specs of that name (so of one spec, when it was
  given once) in the histogram of exactly that window, when no latency exceeds the bound; no
  sample is in two windows, none is lost between them.
\<close>

theorem trial_windows:
  assumes "hist_ok H" and "trial_run H cfg c sv n s0 T" and "phase T = Finished r"
    and "\<And>us. us \<in> set (latencies (sh (t_pool T))) \<Longrightarrow> unat us \<le> hist_bound cfg"
  shows "\<exists>h0 vss vs. concat vss @ vs = latencies (sh (t_pool T)) \<and>
    (\<forall>l. series l (latency_per_sec r) = concat (map (\<lambda>h. map (spec_value H h)
       (filter (\<lambda>spec. spec_name spec = l) (percentile_specs cfg))) (window_hists H h0 vss))) \<and>
    (\<forall>i < length vss. h_len H (window_hists H h0 vss ! i) = of_nat (length (vss ! i)))"
proof -
  from windows_inv_run [OF assms(2)] obtain h0 where
    h0: "empty_histogram H (hist_max_us cfg) = (Ok h0 :: (unit, _) outcome)"
    and inv: "trial_inv H h0 T" "windows_inv H cfg h0 T" by blast
  have all: "take (taken T) (latencies (sh (t_pool T))) = latencies (sh (t_pool T))"
    using inv(1) assms(3) by (auto simp: trial_inv_def finished_ok_def)
  with inv(2) obtain vss vs where w: "concat vss @ vs = latencies (sh (t_pool T))"
    "latency_sec_samples (mon T) = window_table H (percentile_specs cfg) (window_hists H h0 vss)"
    by (auto simp: windows_inv_def)
  have "\<exists>h. empty_histogram H (hist_max_us cfg) = (Ok h :: (unit, _) outcome) \<and> h_len H h = 0 \<and>
      unat (h_high H h) = hist_bound cfg"
    unfolding hist_max_bound [symmetric] by (rule empty_histogram_Ok [OF assms(1)])
  with h0 have h: "h_len H h0 = 0" "unat (h_high H h0) = hist_bound cfg" by auto
  have "max v 1 \<le> h_high H h0" if "v \<in> set (concat vss)" for v
  proof -
    have "v \<in> set (latencies (sh (t_pool T)))" using that w(1) by (metis UnI1 set_append)
    with assms(4) h(2) show ?thesis by (auto simp: max_def word_le_nat_alt hist_bound_def)
  qed
  then have "\<forall>i < length vss. h_len H (window_hists H h0 vss ! i) = of_nat (length (vss ! i))"
    using window_hists_len [OF assms(1) h(1)] by blast
  with w show ?thesis
    by (intro exI [of _ h0] exI [of _ vss] exI [of _ vs])
      (simp add: finished_result(8) [OF inv(1) assms(3)] series_table)
qed

theorem trial_windows_witness:
  "\<exists>h0 vss vs. concat vss @ vs = [4] \<and>
    series ''max'' (latency_per_sec (demo_result False)) = map (\<lambda>h. spec_value ref_hist_ops h SpecMax)
      (window_hists ref_hist_ops h0 vss)"
proof -
  from demo_success obtain T where
    T: "trial_run ref_hist_ops demo_trial_cfg ref_codec mem_server 1 demo_broker T"
       "phase T = Finished (demo_result False)" "t_pool T = demo_final" by blast
  have l: "latencies (sh (t_pool T)) = [4]" by (simp add: T(3) demo_final_def)
  have "unat us \<le> hist_bound demo_trial_cfg" if "us \<in> set (latencies (sh (t_pool T)))" for us
    using that by (simp add: l hist_bound_def demo_trial_cfg_def)
  from trial_windows [OF ref_hist_ok T(1,2) this] obtain h0 vss vs where
    w: "concat vss @ vs = [4]" "\<forall>l. series l (latency_per_sec (demo_result False))
      = concat (map (\<lambda>h. map (spec_value ref_hist_ops h)
         (filter (\<lambda>spec. spec_name spec = l) (percentile_specs demo_trial_cfg)))
         (window_hists ref_hist_ops h0 vss))" unfolding l by blast
  have one: "concat (map (\<lambda>h. [f h]) hs) = map f hs" for f :: "ref_hist \<Rightarrow> u64" and hs
    by (induction hs) auto
  from w(2) [rule_format, of "''max''"] w(1) show ?thesis
    by (intro exI conjI) (assumption, simp add: demo_trial_cfg_def one)
qed

end
