(* ===== verification/Ledger.thy ===== *)
theory Ledger
  imports Pool_Spec
begin

text \<open>
  The contract of the worker pool as a small abstract machine, the ledger of its messages, and the
  forward simulation that shows that the interleaved workers implement it.
\<close>

section \<open>The ledger\<close>

text \<open>Where the messages of a trial are, how many workers have failed, and the done signal.\<close>

record ledger =
  l_queued :: nat
  l_held :: nat
  l_counted :: nat
  l_lost :: nat
  l_failed :: nat
  l_signal :: bool

inductive ledger_step :: "nat \<Rightarrow> ledger \<Rightarrow> ledger \<Rightarrow> bool" for target where
  take_one: "l_queued L = Suc q
     \<Longrightarrow> ledger_step target L (L\<lparr>l_queued := q, l_held := Suc (l_held L)\<rparr>)"
| count_one: "l_held L = Suc h
     \<Longrightarrow> ledger_step target L (L\<lparr>l_held := h, l_counted := Suc (l_counted L)\<rparr>)"
| announce: "target \<le> l_counted L
     \<Longrightarrow> ledger_step target L (L\<lparr>l_signal := True\<rparr>)"
| fail_empty: "ledger_step target L (L\<lparr>l_failed := Suc (l_failed L)\<rparr>)"
| fail_taking: "l_queued L = Suc q
     \<Longrightarrow> ledger_step target L (L\<lparr>l_queued := q, l_lost := Suc (l_lost L), l_failed := Suc (l_failed L)\<rparr>)"
| fail_holding: "l_held L = Suc h
     \<Longrightarrow> ledger_step target L (L\<lparr>l_held := h, l_lost := Suc (l_lost L), l_failed := Suc (l_failed L)\<rparr>)"

definition ledger_init :: "nat \<Rightarrow> ledger" where
  "ledger_init N =
     \<lparr>l_queued = N, l_held = 0, l_counted = 0, l_lost = 0, l_failed = 0, l_signal = False\<rparr>"

definition ledger_run :: "nat \<Rightarrow> nat \<Rightarrow> ledger \<Rightarrow> bool" where
  "ledger_run target N L \<longleftrightarrow> (ledger_step target)\<^sup>*\<^sup>* (ledger_init N) L"

text \<open>What the contract promises.\<close>

lemma ledger_promises:
  assumes "ledger_run target N L"
  shows "l_queued L + l_held L + l_counted L + l_lost L = N" and "l_lost L \<le> l_failed L"
    and "l_signal L \<Longrightarrow> target \<le> l_counted L"
proof -
  have "l_queued L + l_held L + l_counted L + l_lost L = N \<and> l_lost L \<le> l_failed L \<and>
      (l_signal L \<longrightarrow> target \<le> l_counted L)"
    using assms unfolding ledger_run_def
  proof (induction rule: rtranclp_induct)
    case (step L L')
    from step.hyps(2) step.IH show ?case by cases auto
  qed (simp add: ledger_init_def)
  then show "l_queued L + l_held L + l_counted L + l_lost L = N" and "l_lost L \<le> l_failed L"
    and "l_signal L \<Longrightarrow> target \<le> l_counted L" by auto
qed

section \<open>The simulation\<close>

definition ledger_of :: "worker_cfg \<Rightarrow> 's server \<Rightarrow> nat \<Rightarrow> 's pool \<Rightarrow> ledger" where
  "ledger_of cfg sv N p =
     \<lparr>l_queued = waiting cfg sv (sh p), l_held = count_by holds (pcs p), l_counted = counted (sh p),
      l_lost = N - (waiting cfg sv (sh p) + count_by holds (pcs p) + counted (sh p)),
      l_failed = count_by failed (pcs p), l_signal = done_flag (sh p)\<rparr>"

text \<open>How the ledger of a pool changes when one worker moves.\<close>

lemma ledger_of_move:
  assumes "i < length (pcs p)" and "balanced cfg sv N p"
    and "counted s' = counted (sh p)" and "done_flag s' = done_flag (sh p)"
    and "(waiting cfg sv s' = waiting cfg sv (sh p) \<and> holds pc' = holds (pcs p ! i) \<and>
            failed pc' = failed (pcs p ! i)) \<or>
         (Suc (waiting cfg sv s') = waiting cfg sv (sh p) \<and> holds pc' = Suc (holds (pcs p ! i)) \<and>
            failed pc' = failed (pcs p ! i)) \<or>
         (waiting cfg sv s' = waiting cfg sv (sh p) \<and> holds pc' = holds (pcs p ! i) \<and>
            failed pc' = Suc (failed (pcs p ! i))) \<or>
         (Suc (waiting cfg sv s') = waiting cfg sv (sh p) \<and> holds pc' = holds (pcs p ! i) \<and>
            failed pc' = Suc (failed (pcs p ! i))) \<or>
         (waiting cfg sv s' = waiting cfg sv (sh p) \<and> Suc (holds pc') = holds (pcs p ! i) \<and>
            failed pc' = Suc (failed (pcs p ! i)))"
  defines "L \<equiv> ledger_of cfg sv N p" and "L' \<equiv> ledger_of cfg sv N (p\<lparr>sh := s', pcs := (pcs p)[i := pc']\<rparr>)"
  shows "L' = L \<or> ledger_step target L L'"
proof -
  note h = count_by_update [OF assms(1), of holds pc'] count_by_nth_le [OF assms(1), of holds]
  note f = count_by_update [OF assms(1), of failed pc'] count_by_nth_le [OF assms(1), of failed]
  have N: "waiting cfg sv (sh p) + count_by holds (pcs p) + counted (sh p) \<le> N"
    using assms(2) by (simp add: balanced_def)
  from assms(5) show ?thesis
  proof (elim disjE conjE)
    assume "waiting cfg sv s' = waiting cfg sv (sh p)" "holds pc' = holds (pcs p ! i)"
      "failed pc' = failed (pcs p ! i)"
    with h f have "L' = L" by (simp add: L_def L'_def ledger_of_def assms(3,4))
    then show ?thesis ..
  next
    assume c: "Suc (waiting cfg sv s') = waiting cfg sv (sh p)" "holds pc' = Suc (holds (pcs p ! i))"
      "failed pc' = failed (pcs p ! i)"
    with h f have "L' = L\<lparr>l_queued := waiting cfg sv s', l_held := Suc (l_held L)\<rparr>"
      by (auto simp: L_def L'_def ledger_of_def assms(3,4))
    moreover have "l_queued L = Suc (waiting cfg sv s')" using c(1) by (simp add: L_def ledger_of_def)
    ultimately show ?thesis by (auto intro: ledger_step.take_one)
  next
    assume c: "waiting cfg sv s' = waiting cfg sv (sh p)" "holds pc' = holds (pcs p ! i)"
      "failed pc' = Suc (failed (pcs p ! i))"
    with h f have "L' = L\<lparr>l_failed := Suc (l_failed L)\<rparr>"
      by (auto simp: L_def L'_def ledger_of_def assms(3,4))
    then show ?thesis by (auto intro: ledger_step.fail_empty)
  next
    assume c: "Suc (waiting cfg sv s') = waiting cfg sv (sh p)" "holds pc' = holds (pcs p ! i)"
      "failed pc' = Suc (failed (pcs p ! i))"
    with h f N have "L' = L\<lparr>l_queued := waiting cfg sv s', l_lost := Suc (l_lost L),
        l_failed := Suc (l_failed L)\<rparr>"
      by (auto simp: L_def L'_def ledger_of_def assms(3,4))
    moreover have "l_queued L = Suc (waiting cfg sv s')" using c(1) by (simp add: L_def ledger_of_def)
    ultimately show ?thesis by (auto intro: ledger_step.fail_taking)
  next
    assume c: "waiting cfg sv s' = waiting cfg sv (sh p)" "Suc (holds pc') = holds (pcs p ! i)"
      "failed pc' = Suc (failed (pcs p ! i))"
    with h f N have "L' = L\<lparr>l_held := count_by holds ((pcs p)[i := pc']), l_lost := Suc (l_lost L),
        l_failed := Suc (l_failed L)\<rparr>"
      by (auto simp: L_def L'_def ledger_of_def assms(3,4))
    moreover have "l_held L = Suc (count_by holds ((pcs p)[i := pc']))"
      using c(2) h by (simp add: L_def ledger_of_def)
    ultimately show ?thesis by (auto intro: ledger_step.fail_holding)
  qed
qed

text \<open>The increment moves a message from held to counted, the signal only raises the flag.\<close>

lemma ledger_of_count:
  assumes "i < length (pcs p)" and "pcs p ! i = Counting" and "balanced cfg sv N p"
    and "counted s' = Suc (counted (sh p))" and "done_flag s' = done_flag (sh p)"
    and "waiting cfg sv s' = waiting cfg sv (sh p)"
  shows "ledger_step target (ledger_of cfg sv N p)
           (ledger_of cfg sv N (p\<lparr>sh := s', pcs := (pcs p)[i := Signalling d]\<rparr>))"
    (is "ledger_step target ?L ?L'")
proof -
  note h = count_by_update [OF assms(1), of holds "Signalling d"]
    count_by_update [OF assms(1), of failed "Signalling d"] count_by_nth_le [OF assms(1), of holds]
  have "?L' = ?L\<lparr>l_held := count_by holds ((pcs p)[i := Signalling d]), l_counted := Suc (l_counted ?L)\<rparr>"
    using h assms(3) by (auto simp: ledger_of_def balanced_def assms(2,4-6))
  moreover have "l_held ?L = Suc (count_by holds ((pcs p)[i := Signalling d]))"
    using h by (simp add: ledger_of_def assms(2))
  ultimately show ?thesis by (auto intro: ledger_step.count_one)
qed

lemma ledger_of_signal:
  assumes "i < length (pcs p)" and "pcs p ! i = Signalling d" and "signal_inv cfg p"
  shows "ledger_of cfg sv N (p\<lparr>sh := signal_done cfg d (sh p), pcs := (pcs p)[i := Top]\<rparr>)
           = ledger_of cfg sv N p \<or>
         ledger_step (unat (target_jobs cfg)) (ledger_of cfg sv N p)
           (ledger_of cfg sv N (p\<lparr>sh := signal_done cfg d (sh p), pcs := (pcs p)[i := Top]\<rparr>))"
    (is "?L' = ?L \<or> _")
proof (cases "target_jobs cfg \<le> d")
  case True
  note h = count_by_update [OF assms(1), of holds Top] count_by_update [OF assms(1), of failed Top]
  have "unat (target_jobs cfg) \<le> counted (sh p)"
    using True assms by (force simp: signal_inv_def word_le_nat_alt intro: order_trans)
  moreover have "?L' = ?L\<lparr>l_signal := True\<rparr>"
    using True h by (auto simp: ledger_of_def assms(2))
  ultimately show ?thesis
    using ledger_step.announce [of "unat (target_jobs cfg)" ?L] by (simp add: ledger_of_def)
next
  case False
  note h = count_by_update [OF assms(1), of holds Top] count_by_update [OF assms(1), of failed Top]
  from False h show ?thesis by (auto simp: ledger_of_def assms(2))
qed

text \<open>The move of one worker.\<close>

lemma ledger_of_work:
  assumes "server_ok sv" and "distinct (keys cfg)" and "N < 2 ^ 64"
    and "balanced cfg sv N p" and "signal_inv cfg p" and "i < length (pcs p)"
    and "\<not> terminal (pcs p ! i)" and "worker_step cfg c sv t (pcs p ! i) (sh p) = (pc', s')"
  defines "p' \<equiv> p\<lparr>sh := s', pcs := (pcs p)[i := pc']\<rparr>"
  shows "ledger_of cfg sv N p' = ledger_of cfg sv N p \<or>
    ledger_step (unat (target_jobs cfg)) (ledger_of cfg sv N p) (ledger_of cfg sv N p')"
proof (cases "pcs p ! i")
  case Polling
  with assms(8) have w: "worker_step cfg c sv t Polling (sh p) = (pc', s')" by simp
  have "done_flag s' = done_flag (sh p)"
    using worker_step_frame(3) [OF w] by simp
  then show ?thesis
    unfolding p'_def
    by (intro ledger_of_move [OF assms(6,4)]; cases rule: poll_cases [OF assms(1,2) w])
      (auto simp: Polling inc_error_def)
next
  case (Handling payload)
  with assms(8) show ?thesis
    unfolding p'_def
    by (intro ledger_of_move [OF assms(6,4)]) (auto split: outcome.splits)
next
  case Counting
  with assms(8) have w: "worker_step cfg c sv t Counting (sh p) = (pc', s')" by simp
  note count = counting_step [OF w balanced_room [OF assms(4,3,6) Counting]]
  then show ?thesis
    unfolding p'_def count(1)
    by (intro disjI2 ledger_of_count [OF assms(6) Counting assms(4)]) (simp_all add: waiting_def)
next
  case (Signalling d)
  with assms(8) have "pc' = Top" "s' = signal_done cfg d (sh p)" by simp_all
  then show ?thesis
    unfolding p'_def using ledger_of_signal [OF assms(6) Signalling assms(5)] by simp
qed (insert assms(7,8), unfold p'_def, (rule ledger_of_move [OF assms(6,4)]; auto split: if_splits)+)

lemma pool_step_refines:
  assumes "server_ok sv" and "distinct (keys cfg)" and "N < 2 ^ 64"
    and "balanced cfg sv N p" and "signal_inv cfg p" and "pool_step cfg c sv p p'"
  shows "ledger_of cfg sv N p' = ledger_of cfg sv N p \<or>
    ledger_step (unat (target_jobs cfg)) (ledger_of cfg sv N p) (ledger_of cfg sv N p')"
  using assms(6)
proof (cases rule: pool_step.cases)
  case (work i t pc' s')
  from ledger_of_work [OF assms(1-5) work(2-4)] show ?thesis by (simp add: work(1))
next
  case (abort i)
  with ledger_of_move [OF abort(2) assms(4), of "sh p" Aborted "unat (target_jobs cfg)"]
    abortable_weights [OF abort(3)]
  show ?thesis by simp
next
  case (abort_in_flight i r b)
  note w = brpop_waiting [OF assms(1,2) abort_in_flight(4)]
  from w have "waiting cfg sv ((sh p)\<lparr>srv := b\<rparr>) = waiting cfg sv (sh p) \<or>
      Suc (waiting cfg sv ((sh p)\<lparr>srv := b\<rparr>)) = waiting cfg sv (sh p)" by linarith
  with ledger_of_move [OF abort_in_flight(2) assms(4), of "(sh p)\<lparr>srv := b\<rparr>" Aborted
      "unat (target_jobs cfg)"]
  show ?thesis by (simp add: abort_in_flight(1,3))
next
  case (broker b)
  then have "waiting cfg sv ((sh p)\<lparr>srv := b\<rparr>) = waiting cfg sv (sh p)" by (simp add: waiting_def)
  with broker show ?thesis by (simp add: ledger_of_def)
qed (simp add: ledger_of_def)

lemma ledger_of_init:
  "ledger_of cfg sv (stored (keys cfg) (sv_lists sv s0)) (pool_init n s0)
     = ledger_init (stored (keys cfg) (sv_lists sv s0))"
  by (simp add: ledger_of_def ledger_init_def pool_init_def waiting_def metrics_new_def)

lemma pool_refines_facts:
  assumes "server_ok sv" and "distinct (keys cfg)" and "stored (keys cfg) (sv_lists sv s0) < 2 ^ 64"
    and "pool_run cfg c sv n s0 p"
  shows "ledger_run (unat (target_jobs cfg)) (stored (keys cfg) (sv_lists sv s0))
    (ledger_of cfg sv (stored (keys cfg) (sv_lists sv s0)) p)"
proof -
  let ?N = "stored (keys cfg) (sv_lists sv s0)" and ?t = "unat (target_jobs cfg)"
  have "balanced cfg sv ?N p \<and> signal_inv cfg p \<and> ledger_run ?t ?N (ledger_of cfg sv ?N p)"
    using assms(4)
  proof (rule pool_run_invariant)
    show "balanced cfg sv ?N (pool_init n s0) \<and> signal_inv cfg (pool_init n s0) \<and>
        ledger_run ?t ?N (ledger_of cfg sv ?N (pool_init n s0))"
      by (simp add: balanced_init signal_init ledger_of_init ledger_run_def)
  next
    fix p p' assume inv: "balanced cfg sv ?N p \<and> signal_inv cfg p \<and>
        ledger_run ?t ?N (ledger_of cfg sv ?N p)" and step: "pool_step cfg c sv p p'"
    from inv step have "ledger_run ?t ?N (ledger_of cfg sv ?N p')"
      using pool_step_refines [OF assms(1-3) _ _ step]
      by (auto simp: ledger_run_def intro: rtranclp.rtrancl_into_rtrancl)
    with inv step balanced_step [OF assms(1-3) _ step] signal_step [OF _ assms(3) _ step]
    show "balanced cfg sv ?N p' \<and> signal_inv cfg p' \<and> ledger_run ?t ?N (ledger_of cfg sv ?N p')"
      by blast
  qed
  then show ?thesis by blast
qed

section \<open>The property\<close>



end
