(* ===== verification/Schema.thy ===== *)
theory Schema
  imports Wire_Spec Report
begin

text \<open>
  The types of the documents: the struct declarations of \<open>src/src/job.rs\<close>, \<open>src/src/report.rs\<close> and
  \<open>src/src/metrics.rs\<close> as schemas, with two checkers. \<open>conforms\<close> is the shape the derived
  \<open>Serialize\<close> promises: every declared member, in order, and no other. \<open>accepts\<close> is what the derived
  \<open>Deserialize\<close> takes. The conversions written out struct by struct are checked against them.
\<close>

section \<open>Schemas\<close>

text \<open>
  The field types the program declares: strings, booleans, unsigned integers of a width, doubles
  (\<open>null\<close> when not finite), \<open>Option\<close>, \<open>Vec\<close>, a pair, a hash map with string keys, a
  \<open>serde_json::Value\<close>, and structs.
\<close>

datatype schema =
    SString
  | SBool
  | SUnsigned nat
  | SFloat
  | SOption schema
  | SVec schema
  | SPair schema schema
  | SMap schema
  | SValue
  | SStruct "(string \<times> schema) list"

fun is_unsigned :: "nat \<Rightarrow> json \<Rightarrow> bool" where
  "is_unsigned w (JNum (PosInt n)) = (unat n < 2 ^ w)"
| "is_unsigned w j = False"

fun is_float :: "json \<Rightarrow> bool" where
  "is_float (JNum (JFloat x)) = f64_is_finite x"
| "is_float j = (j = JNull)"

fun is_string :: "json \<Rightarrow> bool" where
  "is_string (JStr s) = True"
| "is_string j = False"

fun is_bool :: "json \<Rightarrow> bool" where
  "is_bool (JBool b) = True"
| "is_bool j = False"

fun optional_member :: "schema \<Rightarrow> bool" where
  "optional_member (SOption s) = True"
| "optional_member s = False"

section \<open>What is written\<close>

fun conforms :: "schema \<Rightarrow> json \<Rightarrow> bool" and conforms_members :: "(string \<times> schema) list \<Rightarrow> (string \<times> json) list \<Rightarrow> bool"
  where
  "conforms SString j = is_string j"
| "conforms SBool j = is_bool j"
| "conforms (SUnsigned w) j = is_unsigned w j"
| "conforms SFloat j = is_float j"
| "conforms (SOption s) j = (j = JNull \<or> conforms s j)"
| "conforms (SVec s) j = (case j of JArr js \<Rightarrow> list_all (conforms s) js | _ \<Rightarrow> False)"
| "conforms (SPair s t) j = (case j of JArr [a, b] \<Rightarrow> conforms s a \<and> conforms t b | _ \<Rightarrow> False)"
| "conforms (SMap s) j = (case j of JObj kvs \<Rightarrow> list_all (\<lambda>kv. conforms s (snd kv)) kvs | _ \<Rightarrow> False)"
| "conforms SValue j = True"
| "conforms (SStruct fs) j = (case j of JObj kvs \<Rightarrow> conforms_members fs kvs | _ \<Rightarrow> False)"
| "conforms_members [] kvs = (kvs = [])"
| "conforms_members ((k, s) # fs) kvs =
     (case kvs of [] \<Rightarrow> False | (l, j) # m \<Rightarrow> k = l \<and> conforms s j \<and> conforms_members fs m)"

section \<open>What is read\<close>

fun accepts :: "schema \<Rightarrow> json \<Rightarrow> bool" and accepts_members :: "(string \<times> schema) list \<Rightarrow> (string \<Rightarrow> json option) \<Rightarrow> bool"
  where
  "accepts SString j = is_string j"
| "accepts SBool j = is_bool j"
| "accepts (SUnsigned w) j = is_unsigned w j"
| "accepts SFloat j = is_float j"
| "accepts (SOption s) j = (j = JNull \<or> accepts s j)"
| "accepts (SVec s) j = (case j of JArr js \<Rightarrow> list_all (accepts s) js | _ \<Rightarrow> False)"
| "accepts (SPair s t) j = (case j of JArr [a, b] \<Rightarrow> accepts s a \<and> accepts t b | _ \<Rightarrow> False)"
| "accepts (SMap s) j = (case j of JObj kvs \<Rightarrow> list_all (\<lambda>kv. accepts s (snd kv)) kvs | _ \<Rightarrow> False)"
| "accepts SValue j = True"
| "accepts (SStruct fs) j =
     (case de_struct (map fst fs) j of None \<Rightarrow> False | Some member \<Rightarrow> accepts_members fs member)"
| "accepts_members [] member = True"
| "accepts_members ((k, s) # fs) member =
     ((case member k of None \<Rightarrow> optional_member s | Some j \<Rightarrow> accepts s j) \<and> accepts_members fs member)"

section \<open>The declared structs\<close>

definition delivery_schema :: schema where
  "delivery_schema = SStruct [(''exchange'', SString), (''routing_key'', SString)]"

definition properties_schema :: schema where
  "properties_schema = SStruct
     [(''correlation_id'', SString), (''reply_to'', SString), (''body_encoding'', SString),
      (''delivery_tag'', SString), (''delivery_info'', delivery_schema), (''priority'', SUnsigned 8)]"

definition headers_schema :: schema where
  "headers_schema = SStruct
     [(''lang'', SString), (''task'', SString), (''id'', SString),
      (''shadow'', SOption SString), (''eta'', SOption SString), (''expires'', SOption SString),
      (''group'', SOption SString), (''group_index'', SOption (SUnsigned 32)),
      (''retries'', SUnsigned 32),
      (''timelimit'', SPair (SOption (SUnsigned 64)) (SOption (SUnsigned 64))),
      (''root_id'', SString), (''parent_id'', SOption SString), (''argsrepr'', SString),
      (''kwargsrepr'', SString), (''origin'', SString), (''ignore_result'', SBool),
      (''replaced_task_nesting'', SUnsigned 32), (''stamped_headers'', SOption (SVec SString)),
      (''stamps'', SValue)]"

definition envelope_schema :: schema where
  "envelope_schema = SStruct
     [(''body'', SString), (''content-encoding'', SString), (''content-type'', SString),
      (''headers'', headers_schema), (''properties'', properties_schema)]"

definition latency_stats_schema :: schema where
  "latency_stats_schema = SStruct
     [(''p50'', SUnsigned 64), (''p75'', SUnsigned 64), (''p90'', SUnsigned 64), (''p95'', SUnsigned 64),
      (''p99'', SUnsigned 64), (''p99_9'', SUnsigned 64), (''p99_99'', SUnsigned 64),
      (''max'', SUnsigned 64), (''mean'', SFloat), (''total_count'', SUnsigned 64)]"

definition result_schema :: schema where
  "result_schema = SStruct
     [(''workers'', SUnsigned 64), (''total_jobs'', SUnsigned 64), (''duration_s'', SFloat),
      (''jobs_per_sec'', SFloat), (''timed_out'', SBool), (''throughput_per_sec'', SVec (SUnsigned 64)),
      (''errors_per_sec'', SVec (SUnsigned 64)), (''latency_per_sec_us'', SMap (SVec (SUnsigned 64))),
      (''latency_us'', latency_stats_schema), (''errors'', SUnsigned 64)]"

definition config_schema :: schema where
  "config_schema = SStruct
     [(''url'', SString), (''workers'', SVec (SUnsigned 64)), (''jobs_per_trial'', SUnsigned 64),
      (''queues'', SVec SString), (''warmup_jobs'', SUnsigned 64)]"

definition output_schema :: schema where
  "output_schema = SStruct
     [(''tag'', SString), (''timestamp'', SString), (''config'', config_schema),
      (''results'', SVec result_schema)]"

section \<open>Readers follow their schema\<close>

definition reads :: "(json \<Rightarrow> 'a option) \<Rightarrow> schema \<Rightarrow> bool" where
  "reads de s \<longleftrightarrow> (\<forall>j. de j \<noteq> None \<longleftrightarrow> accepts s j)"

definition member_ok :: "schema \<Rightarrow> json option \<Rightarrow> bool" where
  "member_ok s m = (case m of None \<Rightarrow> optional_member s | Some j \<Rightarrow> accepts s j)"

named_theorems schema_reads "readers of field types"

lemma readsD: "reads de s \<Longrightarrow> de j = None \<longleftrightarrow> \<not> accepts s j"
  unfolding reads_def by blast

lemma readsI: "(\<And>j. de j = None \<longleftrightarrow> \<not> accepts s j) \<Longrightarrow> reads de s"
  by (simp add: reads_def)

lemma reads_plain [schema_reads]: "reads de_string SString" "reads de_bool SBool" "reads de_value SValue"
proof -
  have "de_string j = None \<longleftrightarrow> \<not> accepts SString j" "de_bool j = None \<longleftrightarrow> \<not> accepts SBool j" for j
    by (cases j; simp)+
  then show "reads de_string SString" "reads de_bool SBool" by (auto intro: readsI)
qed (simp add: reads_def de_value_def)

lemma reads_unsigned [schema_reads]:
  "reads de_u64 (SUnsigned 64)" "reads de_u32 (SUnsigned 32)" "reads de_u8 (SUnsigned 8)"
proof -
  have u: "is_unsigned w j \<longleftrightarrow> (case as_u64 j of None \<Rightarrow> False | Some n \<Rightarrow> unat n < 2 ^ w)" for w j
    by (cases "(w, j)" rule: is_unsigned.cases) simp_all
  have "unat (n :: u64) < 18446744073709551616" for n
    using unsigned_less [where w = n and 'a = nat] by simp
  then show "reads de_u64 (SUnsigned 64)" "reads de_u32 (SUnsigned 32)" "reads de_u8 (SUnsigned 8)"
    by (auto intro!: readsI simp: u de_u64_def de_u32_def de_u8_def split: option.splits)
qed

lemma reads_option [schema_reads]: "reads de s \<Longrightarrow> reads (de_option de) (SOption s)"
  using readsD [of de s] by (intro readsI) (case_tac j; simp)

lemma reads_vec [schema_reads]: "reads de s \<Longrightarrow> reads (de_vec de) (SVec s)"
proof -
  assume "reads de s"
  then have "de_all de js = None \<longleftrightarrow> \<not> list_all (accepts s) js" for js
    by (induction js) (auto simp: readsD bind_eq_None_conv)
  then show ?thesis by (intro readsI) (case_tac j; simp)
qed

lemma reads_pair [schema_reads]:
  assumes "reads de s" and "reads de' t"
  shows "reads (de_pair de de') (SPair s t)"
proof (rule readsI)
  fix j show "de_pair de de' j = None \<longleftrightarrow> \<not> accepts (SPair s t) j"
    by (cases "(de, de', j)" rule: de_pair.cases)
      (simp_all add: bind_eq_None_conv readsD [OF assms(1)] readsD [OF assms(2)])
qed

text \<open>The members of a struct: \<open>required\<close> for every type but \<open>Option\<close>, \<open>optional\<close> for that.\<close>

lemma required_None: "reads de s \<Longrightarrow> \<not> optional_member s \<Longrightarrow> required de m = None \<longleftrightarrow> \<not> member_ok s m"
  by (cases m) (simp_all add: member_ok_def readsD)

lemma optional_None: "reads de s \<Longrightarrow> optional de m = None \<longleftrightarrow> \<not> member_ok (SOption s) m"
  using readsD [OF reads_option, of de s] by (cases m) (simp_all add: member_ok_def)

lemma accepts_members_ok:
  "accepts_members ((k, s) # fs) member \<longleftrightarrow> member_ok s (member k) \<and> accepts_members fs member"
  by (simp add: member_ok_def)

lemma not_optional:
  "\<not> optional_member SString" "\<not> optional_member SBool" "\<not> optional_member (SUnsigned w)"
  "\<not> optional_member (SPair s t)" "\<not> optional_member SValue"
  by simp_all

lemmas field_reads =
  required_None [OF reads_plain(1) not_optional(1)]
  required_None [OF reads_plain(2) not_optional(2)]
  required_None [OF reads_plain(3) not_optional(5)]
  required_None [OF reads_unsigned(2) not_optional(3)]
  required_None [OF reads_unsigned(3) not_optional(3)]
  required_None [OF reads_pair [OF reads_option reads_option, OF reads_unsigned(1) reads_unsigned(1)]
    not_optional(4)]
  optional_None [OF reads_plain(1)] optional_None [OF reads_unsigned(2)]
  optional_None [OF reads_vec, OF reads_plain(1)]

lemmas struct_reads = bind_eq_None_conv field_reads accepts_members_ok accepts_members.simps(1)

lemma reads_struct:
  assumes "\<And>j. de j = Option.bind (de_struct (map fst fs) j) k"
    and "\<And>member. k member = None \<longleftrightarrow> \<not> accepts_members fs member"
  shows "reads de (SStruct fs)"
  by (rule readsI) (simp add: assms split: option.split)

lemma reads_delivery: "reads de_delivery_info delivery_schema" "\<not> optional_member delivery_schema"
  unfolding delivery_schema_def
  by (rule reads_struct, subst de_delivery_info_def, simp)
    (simp_all add: struct_reads del: accepts_members.simps(2))

lemma reads_properties: "reads de_properties properties_schema" "\<not> optional_member properties_schema"
  unfolding properties_schema_def
  by (rule reads_struct, subst de_properties_def, simp)
    (auto simp: struct_reads required_None [OF reads_delivery] simp del: accepts_members.simps(2))

lemma reads_headers: "reads de_headers headers_schema" "\<not> optional_member headers_schema"
  unfolding headers_schema_def
  by (rule reads_struct, subst de_headers_def, simp add: header_fields_def)
    (auto simp: struct_reads simp del: accepts_members.simps(2))

lemma reads_envelope: "reads de_envelope envelope_schema"
  unfolding envelope_schema_def
  by (rule reads_struct, subst de_envelope_def, simp)
    (auto simp: struct_reads required_None [OF reads_headers] required_None [OF reads_properties]
      simp del: accepts_members.simps(2))

section \<open>Writers follow their schema\<close>

lemma conforms_unsigned:
  "LENGTH('w::len) \<le> 64 \<Longrightarrow> conforms (SUnsigned LENGTH('w)) (ser_unsigned (n :: 'w word))"
  using unat_of_nat_narrow [of n] unsigned_less [where w = n and 'a = nat]
  by (simp add: ser_unsigned_def)

lemma conforms_words:
  "is_unsigned 64 (ser_unsigned (a :: u64))" "is_unsigned 32 (ser_unsigned (b :: u32))"
  "is_unsigned 8 (ser_unsigned (d :: u8))"
  using conforms_unsigned [of a] conforms_unsigned [of b] conforms_unsigned [of d] by simp_all

lemma conforms_option: "(\<And>x. conforms s (f x)) \<Longrightarrow> conforms (SOption s) (ser_option f v)"
  by (cases v) simp_all

lemma conforms_vec: "(\<And>x. conforms s (f x)) \<Longrightarrow> conforms (SVec s) (JArr (map f xs))"
  by (simp add: list_all_iff)

lemma conforms_float: "is_float (ser_f64 x)"
  by (simp add: ser_f64_def)

lemma conforms_envelope: "conforms envelope_schema (ser_envelope e)"
proof -
  have o: "conforms (SOption SString) (ser_option JStr v)" for v
    by (rule conforms_option) simp
  have d: "conforms delivery_schema (ser_delivery_info i)" for i
    by (simp add: delivery_schema_def ser_delivery_info_def)
  have p: "conforms properties_schema (ser_properties q)" for q
    unfolding properties_schema_def ser_properties_def
    by (simp add: conforms_words d)
  have g: "conforms (SOption (SUnsigned 32)) (ser_option ser_unsigned v)" for v :: "u32 option"
    by (rule conforms_option) (simp add: conforms_words)
  have t: "conforms (SOption (SUnsigned 64)) (ser_option ser_unsigned v)" for v :: "u64 option"
    by (rule conforms_option) (simp add: conforms_words)
  have v: "conforms (SOption (SVec SString)) (ser_option (\<lambda>xs. JArr (map JStr xs)) v)" for v
    by (rule conforms_option) (simp add: list_all_iff)
  have h: "conforms headers_schema (ser_headers x)" for x
    using o g t v unfolding headers_schema_def ser_headers_def
    by (simp add: conforms_words del: conforms.simps(5,6))
  show ?thesis by (simp add: envelope_schema_def ser_envelope_def p h)
qed

lemma conforms_output: "conforms output_schema (json_output rs t display_url ws n qs wj timestamp)"
proof -
  have l: "conforms latency_stats_schema (ser_latency_stats x)" for x
    by (simp add: latency_stats_schema_def ser_latency_stats_def conforms_words conforms_float)
  have r: "conforms result_schema (json_result x)" for x
    by (simp add: result_schema_def json_result_def conforms_words conforms_float l list_all_iff ser_u64s_def
        split_beta)
  have g: "conforms config_schema (JObj
      [(''url'', JStr display_url), (''workers'', JArr (map ser_unsigned ws)),
       (''jobs_per_trial'', ser_unsigned n), (''queues'', JArr (map JStr qs)),
       (''warmup_jobs'', ser_unsigned wj)])"
    by (simp add: config_schema_def list_all_iff conforms_words)
  show ?thesis by (simp add: output_schema_def json_output_def g r list_all_iff)
qed

section \<open>What is written can be read\<close>

text \<open>No struct declares two members of the same name.\<close>

fun schema_ok :: "schema \<Rightarrow> bool" and members_distinct :: "(string \<times> schema) list \<Rightarrow> bool" where
  "schema_ok (SOption s) = schema_ok s"
| "schema_ok (SVec s) = schema_ok s"
| "schema_ok (SPair s t) = (schema_ok s \<and> schema_ok t)"
| "schema_ok (SMap s) = schema_ok s"
| "schema_ok (SStruct fs) = (distinct (map fst fs) \<and> members_distinct fs)"
| "schema_ok s = True"
| "members_distinct [] = True"
| "members_distinct ((k, s) # fs) = (schema_ok s \<and> members_distinct fs)"

lemma conforms_members_names: "conforms_members fs kvs \<Longrightarrow> map fst kvs = map fst fs"
  by (induction fs arbitrary: kvs) (auto split: list.splits)

lemma conforms_accepts:
  "schema_ok s \<Longrightarrow> conforms s j \<Longrightarrow> accepts s j"
  "members_distinct fs \<Longrightarrow> distinct (map fst fs) \<Longrightarrow> conforms_members fs kvs \<Longrightarrow>
   (\<forall>k \<in> set (map fst fs). member k = map_of kvs k) \<Longrightarrow> accepts_members fs member"
proof (induction s and fs arbitrary: j and kvs member rule: schema_ok_members_distinct.induct)
  case (5 fs)
  then show ?case
    by (auto simp: conforms_members_names split: json.splits)
next
  case (8 k s fs)
  then obtain j m where kvs: "kvs = (k, j) # m" "conforms s j" "conforms_members fs m"
    by (auto split: list.splits)
  have "\<forall>l \<in> set (map fst fs). member l = map_of m l"
  proof
    fix l assume l: "l \<in> set (map fst fs)"
    then have "l \<noteq> k" using "8.prems"(2) by auto
    with l "8.prems"(4) show "member l = map_of m l" by (auto simp: kvs(1))
  qed
  with 8 kvs show ?case by simp
qed (auto simp: list_all_iff split: json.splits list.splits)

lemma schemas_ok: "schema_ok envelope_schema" "schema_ok output_schema"
  by (simp_all add: envelope_schema_def headers_schema_def properties_schema_def delivery_schema_def
      output_schema_def config_schema_def result_schema_def latency_stats_schema_def)

section \<open>The properties of the documents\<close>




end
