(* ===== verification/Tls.thy ===== *)
theory Tls
  imports Bench_Prelude
begin

text \<open>
  \<open>src/src/tls.rs\<close>: the process-wide TLS crypto provider, installed by the first statement of
  \<open>main\<close>. The \<open>rustls\<close> crate is a parameter, the record \<open>tls_ops\<close> over the state of the process;
  \<open>tls_ok\<close> is its documented behaviour.
\<close>

section \<open>The rustls crate\<close>

record ('p, 'g) tls_ops =
  ring_provider :: 'p                                        \<comment> \<open>\<open>crypto::ring::default_provider()\<close>\<close>
  get_default :: "'g \<Rightarrow> 'p option"                           \<comment> \<open>the provider TLS connections use\<close>
  install_default :: "'p \<Rightarrow> 'g \<Rightarrow> ('p, unit) outcome \<times> 'g"  \<comment> \<open>an error hands the provider back\<close>

text \<open>A provider can be installed once; a later attempt is refused and changes nothing.\<close>

definition tls_ok :: "('p, 'g) tls_ops \<Rightarrow> bool" where
  "tls_ok R \<longleftrightarrow>
     (\<forall>p g. get_default R g = None \<longrightarrow>
        fst (install_default R p g) = Ok () \<and> get_default R (snd (install_default R p g)) = Some p) \<and>
     (\<forall>p q g. get_default R g = Some q \<longrightarrow>
        fst (install_default R p g) = Err p \<and> get_default R (snd (install_default R p g)) = Some q)"

section \<open>install_crypto_provider\<close>

text \<open>\<open>.ok()\<close> drops an error; a panic would go through.\<close>

definition install_crypto_provider :: "('p, 'g) tls_ops \<Rightarrow> 'g \<Rightarrow> ('e, unit) outcome \<times> 'g" where
  "install_crypto_provider R g =
     (case install_default R (ring_provider R) g of
        (Panicked m, g') \<Rightarrow> (Panicked m, g')
      | (_, g') \<Rightarrow> (Ok (), g'))"

text \<open>\<open>n\<close> calls, one after the other, from anywhere in the process.\<close>

fun install_times :: "('p, 'g) tls_ops \<Rightarrow> nat \<Rightarrow> 'g \<Rightarrow> ('e, unit) outcome \<times> 'g" where
  "install_times R 0 g = (Ok (), g)"
| "install_times R (Suc n) g =
     (case install_crypto_provider R g of
        (Ok _, g') \<Rightarrow> install_times R n g'
      | (r, g') \<Rightarrow> (r, g'))"

lemma install_cases:
  assumes "tls_ok R"
  obtains g' where "install_crypto_provider R g = (Ok (), g')"
    and "get_default R g' = Some (case get_default R g of Some q \<Rightarrow> q | None \<Rightarrow> ring_provider R)"
proof (cases "get_default R g")
  case None
  with assms have "fst (install_default R (ring_provider R) g) = Ok ()"
    and "get_default R (snd (install_default R (ring_provider R) g)) = Some (ring_provider R)"
    unfolding tls_ok_def by blast+
  with None show thesis
    by (intro that [of "snd (install_default R (ring_provider R) g)"])
      (auto simp: install_crypto_provider_def split: prod.splits outcome.splits)
next
  case (Some q)
  with assms have "fst (install_default R (ring_provider R) g) = Err (ring_provider R)"
    and "get_default R (snd (install_default R (ring_provider R) g)) = Some q"
    unfolding tls_ok_def by blast+
  with Some show thesis
    by (intro that [of "snd (install_default R (ring_provider R) g)"])
      (auto simp: install_crypto_provider_def split: prod.splits outcome.splits)
qed

text \<open>
  However often it is called, and whatever the process did before, it never panics, and after the
  first call there is a provider: the one that was there, else the ring provider.
\<close>

lemma install_any_number:
  assumes "tls_ok R"
  shows "\<exists>g'. install_times R n g = (Ok () :: ('e, unit) outcome, g') \<and>
    (get_default R g \<noteq> None \<longrightarrow> get_default R g' = get_default R g) \<and>
    (0 < n \<longrightarrow> get_default R g' =
       Some (case get_default R g of Some q \<Rightarrow> q | None \<Rightarrow> ring_provider R))"
proof (induction n arbitrary: g)
  case (Suc n)
  obtain g1 where g1: "install_crypto_provider R g = (Ok () :: ('e, unit) outcome, g1)"
      "get_default R g1 = Some (case get_default R g of Some q \<Rightarrow> q | None \<Rightarrow> ring_provider R)"
    by (rule install_cases [OF assms])
  with Suc.IH [of g1] show ?case by (auto split: option.splits)
qed simp

section \<open>The unit test\<close>

definition install_crypto_provider_is_idempotent :: "('p, 'g) tls_ops \<Rightarrow> 'g \<Rightarrow> bool" where
  "install_crypto_provider_is_idempotent R g \<longleftrightarrow>
     (case install_times R 3 g :: (unit, unit) outcome \<times> 'g of (Ok _, g') \<Rightarrow> True | _ \<Rightarrow> False)"

lemma idempotent_test: "tls_ok R \<Longrightarrow> install_crypto_provider_is_idempotent R g"
  using install_any_number [where 'e = unit, of R 3 g]
  by (auto simp: install_crypto_provider_is_idempotent_def)

text \<open>The law can be satisfied: a cell that holds the provider.\<close>

definition ref_tls :: "(string, string option) tls_ops" where
  "ref_tls =
     \<lparr>ring_provider = ''ring'', get_default = (\<lambda>g. g),
      install_default = (\<lambda>p g. case g of None \<Rightarrow> (Ok (), Some p) | Some q \<Rightarrow> (Err p, Some q))\<rparr>"

lemma ref_tls_ok: "tls_ok ref_tls"
  by (simp add: tls_ok_def ref_tls_def)

end
