(* ===== verification/Args.thy ===== *)
theory Args
  imports Cli "HOL-Library.Monad_Syntax"
begin

text \<open>
  How the command line is read: what \<open>#[derive(Parser)]\<close> generates for the struct \<open>Cli\<close> of
  \<open>src/src/main.rs\<close>, the declarations of its options and \<open>from_arg_matches\<close>. The parser itself is
  the \<open>clap\<close> crate, a parameter.
\<close>

section \<open>The declarations\<close>

text \<open>
  The long name of an option is the name of its field with dashes; the parser of its values is chosen
  by the type of the field.
\<close>

datatype arg_kind = KString | KUnsigned nat | KFloat | KFlag

record arg_decl =
  arg_long :: string
  arg_env :: "string option"
  arg_default :: "string option"
  arg_delimited :: bool
  arg_kind :: arg_kind

abbreviation opt_decl :: "string \<Rightarrow> arg_kind \<Rightarrow> string option \<Rightarrow> string option \<Rightarrow> arg_decl" where
  "opt_decl n k e d \<equiv>
     \<lparr>arg_long = n, arg_env = e, arg_default = d, arg_delimited = False, arg_kind = k\<rparr>"

abbreviation list_decl :: "string \<Rightarrow> arg_kind \<Rightarrow> string \<Rightarrow> arg_decl" where
  "list_decl n k d \<equiv>
     \<lparr>arg_long = n, arg_env = None, arg_default = Some d, arg_delimited = True, arg_kind = k\<rparr>"

text \<open>A \<open>bool\<close> field is a flag, which is false when nothing sets it.\<close>

abbreviation flag_decl :: "string \<Rightarrow> string option \<Rightarrow> arg_decl" where
  "flag_decl n e \<equiv> opt_decl n KFlag e (Some ''false'')"

definition cli_args :: "arg_decl list" where
  "cli_args =
     [opt_decl ''url'' KString (Some ''REDIS_URL'') (Some ''redis://127.0.0.1:6379/13''),
      opt_decl ''host'' KString None None,
      opt_decl ''port'' (KUnsigned 16) None None,
      opt_decl ''password'' KString (Some ''REDIS_PASSWORD'') None,
      flag_decl ''tls'' (Some ''REDIS_TLS''),
      flag_decl ''insecure'' (Some ''REDIS_TLS_INSECURE''),
      opt_decl ''db'' (KUnsigned 8) None None,
      list_decl ''workers'' (KUnsigned 64) ''10,50,100,200'',
      opt_decl ''jobs'' (KUnsigned 64) None (Some ''500000''),
      opt_decl ''warmup-jobs'' (KUnsigned 64) None (Some ''0''),
      opt_decl ''queue'' KString None (Some ''celery''),
      opt_decl ''num-queues'' (KUnsigned 64) None (Some ''1''),
      list_decl ''priorities'' (KUnsigned 8) ''0'',
      opt_decl ''brpop-timeout-secs'' KFloat None (Some ''1''),
      list_decl ''latency-percentiles'' KString ''p50,p90,p99,p999,max'',
      opt_decl ''tag'' KString None None,
      opt_decl ''output'' KString None None,
      opt_decl ''timeout'' (KUnsigned 64) None (Some ''300''),
      flag_decl ''quiet'' None,
      flag_decl ''allow-flushdb'' (Some ''CELERY_BENCH_ALLOW_FLUSHDB'')]"

section \<open>The clap crate\<close>

datatype arg_value = VString string | VUnsigned nat | VFloat f64 | VFlag bool

text \<open>\<open>--help\<close> and \<open>--version\<close> end the program like an error does, but with status 0.\<close>

datatype clap_error = DisplayInfo | BadUsage string | InvalidValue string

type_synonym matches = "string \<Rightarrow> arg_value list option"

text \<open>
  The program calls \<open>cl_match\<close> only. \<open>cl_lex\<close> is the text the arguments give for each option (for a
  flag that is there, \<open>true\<close>), or the error for arguments that are not a sequence of known options
  with their values; \<open>cl_read\<close> is the value parser of each kind.
\<close>

record clap_ops =
  cl_lex :: "arg_decl list \<Rightarrow> string list \<Rightarrow> clap_error + (string \<Rightarrow> string option)"
  cl_read :: "arg_kind \<Rightarrow> string \<Rightarrow> arg_value option"
  cl_match :: "arg_decl list \<Rightarrow> string list \<Rightarrow> (string \<Rightarrow> string option) \<Rightarrow> clap_error + matches"

text \<open>The text of an option: the arguments win over the environment, the environment over the default.\<close>

definition arg_source :: "arg_decl \<Rightarrow> (string \<Rightarrow> string option) \<Rightarrow> (string \<Rightarrow> string option) \<Rightarrow> string option" where
  "arg_source d given env =
     (case given (arg_long d) of
        Some v \<Rightarrow> Some v
      | None \<Rightarrow> (case Option.bind (arg_env d) env of Some v \<Rightarrow> Some v | None \<Rightarrow> arg_default d))"

definition arg_pieces :: "arg_decl \<Rightarrow> string \<Rightarrow> string list" where
  "arg_pieces d v = (if arg_delimited d then split_at (CHR '','') v else [v])"

text \<open>The values of an option, or \<open>None\<close> when one of them does not parse.\<close>

definition arg_values ::
  "clap_ops \<Rightarrow> arg_decl \<Rightarrow> (string \<Rightarrow> string option) \<Rightarrow> (string \<Rightarrow> string option) \<Rightarrow> arg_value list option option" where
  "arg_values C d given env =
     (case arg_source d given env of
        None \<Rightarrow> Some None
      | Some v \<Rightarrow> map_option Some (those (map (cl_read C (arg_kind d)) (arg_pieces d v))))"

text \<open>
  What is documented of the crate: the precedence of the sources and the delimiter; an option with a
  value that does not parse is an error that names it; strings are taken as they are, the numerals
  of a width are read as their value and every result is within the width, and a flag is \<open>true\<close> or
  \<open>false\<close> and nothing else.
\<close>

definition clap_reads :: "clap_ops \<Rightarrow> bool" where
  "clap_reads C \<longleftrightarrow>
     (\<forall>s. cl_read C KString s = Some (VString s)) \<and>
     (\<forall>w n. n < 2 ^ w \<longrightarrow> cl_read C (KUnsigned w) (dec n) = Some (VUnsigned n)) \<and>
     (\<forall>w s v. cl_read C (KUnsigned w) s = Some v \<longrightarrow> (\<exists>n < 2 ^ w. v = VUnsigned n)) \<and>
     (\<forall>n. cl_read C KFloat (dec n) = Some (VFloat (f64_of_nat n))) \<and>
     (\<forall>s v. cl_read C KFloat s = Some v \<longrightarrow> (\<exists>x. v = VFloat x)) \<and>
     (\<forall>s. cl_read C KFlag s =
        (if s = ''true'' then Some (VFlag True) else if s = ''false'' then Some (VFlag False) else None))"

definition clap_matches :: "clap_ops \<Rightarrow> bool" where
  "clap_matches C \<longleftrightarrow> (\<forall>ds argv env. distinct (map arg_long ds) \<longrightarrow>
     (case cl_lex C ds argv of
        Inl e \<Rightarrow> \<exists>e'. cl_match C ds argv env = Inl e'
      | Inr given \<Rightarrow>
          (case cl_match C ds argv env of
             Inl e \<Rightarrow> \<exists>d \<in> set ds. arg_values C d given env = None \<and> e = InvalidValue (arg_long d)
           | Inr m \<Rightarrow> \<forall>d \<in> set ds. arg_values C d given env = Some (m (arg_long d)))))"

definition clap_ok :: "clap_ops \<Rightarrow> bool" where
  "clap_ok C \<longleftrightarrow> clap_reads C \<and> clap_matches C"

section \<open>From the matches to the struct\<close>

fun as_string :: "arg_value \<Rightarrow> string option" where
  "as_string (VString s) = Some s"
| "as_string v = None"

fun as_unsigned :: "arg_value \<Rightarrow> 'w::len word option" where
  "as_unsigned (VUnsigned n) = Some (of_nat n)"
| "as_unsigned v = None"

fun as_float :: "arg_value \<Rightarrow> f64 option" where
  "as_float (VFloat x) = Some x"
| "as_float v = None"

fun as_flag :: "arg_value \<Rightarrow> bool option" where
  "as_flag (VFlag b) = Some b"
| "as_flag v = None"

text \<open>A field of a plain type, of type \<open>Option\<close>, of type \<open>Vec\<close>.\<close>

definition arg_one :: "(arg_value \<Rightarrow> 'a option) \<Rightarrow> matches \<Rightarrow> string \<Rightarrow> 'a option" where
  "arg_one conv m n = (case m n of Some [v] \<Rightarrow> conv v | _ \<Rightarrow> None)"

definition arg_opt :: "(arg_value \<Rightarrow> 'a option) \<Rightarrow> matches \<Rightarrow> string \<Rightarrow> 'a option option" where
  "arg_opt conv m n = (case m n of None \<Rightarrow> Some None | Some _ \<Rightarrow> map_option Some (arg_one conv m n))"

definition arg_many :: "(arg_value \<Rightarrow> 'a option) \<Rightarrow> matches \<Rightarrow> string \<Rightarrow> 'a list option" where
  "arg_many conv m n = (case m n of None \<Rightarrow> Some [] | Some vs \<Rightarrow> those (map conv vs))"

definition cli_of_matches :: "matches \<Rightarrow> cli option" where
  "cli_of_matches m = do {
     url \<leftarrow> arg_one as_string m ''url'';
     host \<leftarrow> arg_opt as_string m ''host'';
     port \<leftarrow> arg_opt as_unsigned m ''port'';
     password \<leftarrow> arg_opt as_string m ''password'';
     tls \<leftarrow> arg_one as_flag m ''tls'';
     insecure \<leftarrow> arg_one as_flag m ''insecure'';
     db \<leftarrow> arg_opt as_unsigned m ''db'';
     workers \<leftarrow> arg_many as_unsigned m ''workers'';
     jobs \<leftarrow> arg_one as_unsigned m ''jobs'';
     warmup_jobs \<leftarrow> arg_one as_unsigned m ''warmup-jobs'';
     queue \<leftarrow> arg_one as_string m ''queue'';
     num_queues \<leftarrow> arg_one as_unsigned m ''num-queues'';
     priorities \<leftarrow> arg_many as_unsigned m ''priorities'';
     secs \<leftarrow> arg_one as_float m ''brpop-timeout-secs'';
     percentiles \<leftarrow> arg_many as_string m ''latency-percentiles'';
     tag \<leftarrow> arg_opt as_string m ''tag'';
     output_path \<leftarrow> arg_opt as_string m ''output'';
     timeout \<leftarrow> arg_one as_unsigned m ''timeout'';
     quiet \<leftarrow> arg_one as_flag m ''quiet'';
     allow_flushdb \<leftarrow> arg_one as_flag m ''allow-flushdb'';
     Some \<lparr>url = url, host = host, port = port, password = password, tls = tls, insecure = insecure,
       db = db, workers = workers, jobs = jobs, warmup_jobs = warmup_jobs, queue = queue,
       num_queues = num_queues, priorities = priorities, cli_brpop_timeout_secs = secs,
       latency_percentiles = percentiles, tag = tag, output_path = output_path, timeout = timeout,
       quiet = quiet, allow_flushdb = allow_flushdb\<rparr>
   }"

text \<open>\<open>Cli::parse()\<close>, before it prints its error and exits.\<close>

definition parse_cli :: "clap_ops \<Rightarrow> string list \<Rightarrow> (string \<Rightarrow> string option) \<Rightarrow> clap_error + cli" where
  "parse_cli C argv env =
     (case cl_match C cli_args argv env of
        Inl e \<Rightarrow> Inl e
      | Inr m \<Rightarrow> (case cli_of_matches m of Some cli \<Rightarrow> Inr cli | None \<Rightarrow> Inl (BadUsage ''missing argument'')))"

end
