(* ===== verification/Args_Spec.thy ===== *)
theory Args_Spec
  imports Args
begin

text \<open>
  What the command line means, whatever the parser does as long as it keeps to its documentation:
  the fields of \<open>Cli\<close> are the values of the declarations, no more and no less.
\<close>

section \<open>The values of a command line\<close>

text \<open>The struct, back as the values of its options.\<close>

definition numbers :: "'w::len word list \<Rightarrow> arg_value list" where
  "numbers ns = map (\<lambda>n. VUnsigned (unat n)) ns"

definition cli_values :: "cli \<Rightarrow> (string \<times> arg_value list option) list" where
  "cli_values cli =
     [(''url'', Some [VString (url cli)]),
      (''host'', map_option (\<lambda>s. [VString s]) (host cli)),
      (''port'', map_option (\<lambda>n. numbers [n]) (port cli)),
      (''password'', map_option (\<lambda>s. [VString s]) (password cli)),
      (''tls'', Some [VFlag (tls cli)]),
      (''insecure'', Some [VFlag (insecure cli)]),
      (''db'', map_option (\<lambda>n. numbers [n]) (db cli)),
      (''workers'', Some (numbers (workers cli))),
      (''jobs'', Some (numbers [jobs cli])),
      (''warmup-jobs'', Some (numbers [warmup_jobs cli])),
      (''queue'', Some [VString (queue cli)]),
      (''num-queues'', Some (numbers [num_queues cli])),
      (''priorities'', Some (numbers (priorities cli))),
      (''brpop-timeout-secs'', Some [VFloat (cli_brpop_timeout_secs cli)]),
      (''latency-percentiles'', Some (map VString (latency_percentiles cli))),
      (''tag'', map_option (\<lambda>s. [VString s]) (tag cli)),
      (''output'', map_option (\<lambda>s. [VString s]) (output_path cli)),
      (''timeout'', Some (numbers [timeout cli])),
      (''quiet'', Some [VFlag (quiet cli)]),
      (''allow-flushdb'', Some [VFlag (allow_flushdb cli)])]"

text \<open>Each declared option, read from the arguments, the environment or its default, has these values.\<close>

definition cli_means ::
  "clap_ops \<Rightarrow> (string \<Rightarrow> string option) \<Rightarrow> (string \<Rightarrow> string option) \<Rightarrow> cli \<Rightarrow> bool" where
  "cli_means C given env cli \<longleftrightarrow>
     list_all2 (\<lambda>d (n, vs). arg_long d = n \<and> arg_values C d given env = Some vs) cli_args (cli_values cli)"

section \<open>Values and fields\<close>

lemma those_map_Some [simp]: "those (map (\<lambda>x. Some (f x)) xs) = Some (map f xs)"
  by (induction xs) auto

lemma those_mem: "those (map f xs) = Some ys \<Longrightarrow> y \<in> set ys \<Longrightarrow> \<exists>x \<in> set xs. f x = Some y"
  by (induction xs arbitrary: ys) (auto split: option.splits)

text \<open>The values a kind of option can have.\<close>

fun of_kind :: "arg_kind \<Rightarrow> arg_value \<Rightarrow> bool" where
  "of_kind KString v \<longleftrightarrow> (\<exists>s. v = VString s)"
| "of_kind (KUnsigned w) v \<longleftrightarrow> (\<exists>n < 2 ^ w. v = VUnsigned n)"
| "of_kind KFloat v \<longleftrightarrow> (\<exists>x. v = VFloat x)"
| "of_kind KFlag v \<longleftrightarrow> (\<exists>b. v = VFlag b)"

lemma read_of_kind: "clap_reads C \<Longrightarrow> cl_read C k s = Some v \<Longrightarrow> of_kind k v"
  by (cases k) (auto simp: clap_reads_def split: if_splits)

lemma values_of_kind:
  assumes "clap_reads C" and "arg_values C d given env = Some (Some vs)" and "v \<in> set vs"
  shows "of_kind (arg_kind d) v"
  using assms(2,3) read_of_kind [OF assms(1)]
  by (auto simp: arg_values_def split: option.splits dest!: those_mem)

lemma default_given: "arg_default d \<noteq> None \<Longrightarrow> arg_values C d given env \<noteq> Some None"
  by (auto simp: arg_values_def arg_source_def split: option.splits)

section \<open>The contract of a field\<close>

text \<open>
  What the three readers of fields rely on: among the values of its kind, a conversion undoes \<open>mk\<close>.
  It is interpreted on the conversion of every type that a field of \<open>Cli\<close> has.
\<close>

locale field_reader =
  fixes read :: "arg_value \<Rightarrow> 'a option" and mk :: "'a \<Rightarrow> arg_value" and kind :: "arg_value \<Rightarrow> bool"
  assumes inverse: "kind v \<Longrightarrow> read v = Some y \<longleftrightarrow> v = mk y"
begin

lemma one_field:
  assumes "\<And>vs v. m n = Some vs \<Longrightarrow> v \<in> set vs \<Longrightarrow> kind v"
  shows "arg_one read m n = Some x \<longleftrightarrow> m n = Some [mk x]"
  using assms inverse by (auto simp: arg_one_def split: option.splits list.splits)

lemma opt_field:
  assumes "\<And>vs v. m n = Some vs \<Longrightarrow> v \<in> set vs \<Longrightarrow> kind v"
  shows "arg_opt read m n = Some x \<longleftrightarrow> m n = map_option (\<lambda>y. [mk y]) x"
  using assms inverse by (cases x) (auto simp: arg_opt_def arg_one_def split: option.splits list.splits)

lemma all_values:
  assumes "\<And>v. v \<in> set vs \<Longrightarrow> kind v"
  shows "those (map read vs) = Some xs \<longleftrightarrow> vs = map mk xs"
  using assms
proof (induction vs arbitrary: xs)
  case (Cons v vs)
  have "those (map read (v # vs)) = Some xs \<longleftrightarrow>
      (\<exists>y ys. xs = y # ys \<and> read v = Some y \<and> those (map read vs) = Some ys)"
    by (auto split: option.splits)
  with Cons inverse show ?case by (auto simp: Cons_eq_map_conv)
qed auto

lemma many_field:
  assumes "\<And>vs v. m n = Some vs \<Longrightarrow> v \<in> set vs \<Longrightarrow> kind v" and "m n \<noteq> None"
  shows "arg_many read m n = Some xs \<longleftrightarrow> m n = Some (map mk xs)"
  using assms all_values by (auto simp: arg_many_def split: option.splits)

end

interpretation string_field: field_reader as_string VString "\<lambda>_. True"
  by unfold_locales (metis arg_value.exhaust as_string.simps option.distinct(1) option.inject)

interpretation float_field: field_reader as_float VFloat "\<lambda>_. True"
  by unfold_locales (metis arg_value.exhaust as_float.simps option.distinct(1) option.inject)

interpretation flag_field: field_reader as_flag VFlag "\<lambda>_. True"
  by unfold_locales (metis arg_value.exhaust as_flag.simps option.distinct(1) option.inject)

interpretation unsigned_field: field_reader as_unsigned "\<lambda>n :: 'w::len word. VUnsigned (unat n)"
    "of_kind (KUnsigned LENGTH('w))"
  by unfold_locales (auto simp: unsigned_of_nat take_bit_nat_eq_self)

section \<open>The fields of the struct\<close>

text \<open>Matches in which every option has values of its kind, and has some when it has a default.\<close>

definition well_kinded :: "matches \<Rightarrow> bool" where
  "well_kinded m \<longleftrightarrow> (\<forall>d \<in> set cli_args.
     (arg_default d \<noteq> None \<longrightarrow> m (arg_long d) \<noteq> None) \<and>
     (\<forall>vs v. m (arg_long d) = Some vs \<longrightarrow> v \<in> set vs \<longrightarrow> of_kind (arg_kind d) v))"

lemma well_kinded_matches:
  assumes "clap_reads C" and "\<And>d. d \<in> set cli_args \<Longrightarrow> arg_values C d given env = Some (m (arg_long d))"
  shows "well_kinded m"
  unfolding well_kinded_def using values_of_kind [OF assms(1)] default_given assms(2) by metis

lemma cli_args_distinct: "distinct (map arg_long cli_args)"
  by code_simp

lemmas plain_fields =
  string_field.one_field [OF TrueI] string_field.opt_field [OF TrueI] string_field.many_field [OF TrueI]
  flag_field.one_field [OF TrueI] float_field.one_field [OF TrueI]

lemmas unsigned_fields =
  unsigned_field.one_field unsigned_field.opt_field unsigned_field.many_field

text \<open>The struct is read from the matches exactly when they are its values.\<close>

lemma cli_of_matches_iff:
  assumes "well_kinded m"
  shows "cli_of_matches m = Some cli \<longleftrightarrow> (\<forall>(n, vs) \<in> set (cli_values cli). m n = vs)"
proof -
  have given: "m ''workers'' \<noteq> None" "m ''priorities'' \<noteq> None" "m ''latency-percentiles'' \<noteq> None"
    using assms by (auto simp: well_kinded_def cli_args_def)
  have u8: "of_kind (KUnsigned LENGTH(8)) v" if "m n = Some vs" "v \<in> set vs" "n \<in> {''db'', ''priorities''}" for n vs v
    using assms that by (fastforce simp: well_kinded_def cli_args_def)
  have u16: "of_kind (KUnsigned LENGTH(16)) v" if "m n = Some vs" "v \<in> set vs" "n = ''port''" for n vs v
    using assms that by (fastforce simp: well_kinded_def cli_args_def)
  have u64: "of_kind (KUnsigned LENGTH(64)) v" if "m n = Some vs" "v \<in> set vs"
      "n \<in> {''workers'', ''jobs'', ''warmup-jobs'', ''num-queues'', ''timeout''}" for n vs v
    using assms that by (fastforce simp: well_kinded_def cli_args_def)
  note fields = plain_fields given
    unsigned_fields [where m = m and 'w = 8, OF u8] unsigned_fields [where m = m and 'w = 16, OF u16]
    unsigned_fields [where m = m and 'w = 64, OF u64]
  show ?thesis
    unfolding cli_of_matches_def bind_eq_Some_conv
    by (cases cli) (simp add: fields cli_values_def numbers_def conj_ac)
qed

section \<open>The meaning of a command line\<close>

lemma cli_values_names: "map fst (cli_values cli) = map arg_long cli_args"
  by (simp add: cli_values_def cli_args_def)

lemma means_matches:
  assumes "\<And>d. d \<in> set cli_args \<Longrightarrow> arg_values C d given env = Some (m (arg_long d))"
  shows "cli_means C given env cli \<longleftrightarrow> (\<forall>(n, vs) \<in> set (cli_values cli). m n = vs)"
proof -
  have "list_all2 (\<lambda>d (n, vs). arg_long d = n \<and> arg_values C d given env = Some vs) ds kvs
      \<longleftrightarrow> (\<forall>(n, vs) \<in> set kvs. m n = vs)"
    if "map fst kvs = map arg_long ds" "set ds \<subseteq> set cli_args" for ds kvs
    using that assms by (induction ds arbitrary: kvs) (auto simp: list_all2_Cons1)
  from this [OF cli_values_names subset_refl] show ?thesis by (simp add: cli_means_def)
qed

lemma clap_okD:
  assumes "clap_ok C" and "cl_lex C cli_args argv = Inr given"
  shows "cl_match C cli_args argv env = Inl e \<Longrightarrow>
      \<exists>d \<in> set cli_args. arg_values C d given env = None \<and> e = InvalidValue (arg_long d)"
    and "cl_match C cli_args argv env = Inr m \<Longrightarrow> d \<in> set cli_args \<Longrightarrow>
      arg_values C d given env = Some (m (arg_long d))"
proof -
  have "clap_matches C" using assms(1) by (simp add: clap_ok_def)
  then have law: "case cl_match C cli_args argv env of
      Inl e \<Rightarrow> \<exists>d \<in> set cli_args. arg_values C d given env = None \<and> e = InvalidValue (arg_long d)
    | Inr m \<Rightarrow> \<forall>d \<in> set cli_args. arg_values C d given env = Some (m (arg_long d))"
    unfolding clap_matches_def
    by (elim allE [of _ cli_args] allE [of _ argv] allE [of _ env]) (simp add: cli_args_distinct assms(2))
  show "cl_match C cli_args argv env = Inl e \<Longrightarrow>
      \<exists>d \<in> set cli_args. arg_values C d given env = None \<and> e = InvalidValue (arg_long d)"
    using law by simp
  show "cl_match C cli_args argv env = Inr m \<Longrightarrow> d \<in> set cli_args \<Longrightarrow>
      arg_values C d given env = Some (m (arg_long d))"
    using law by simp
qed

lemma parse_cli_iff:
  assumes "clap_ok C" and "cl_lex C cli_args argv = Inr given"
  shows "parse_cli C argv env = Inr cli \<longleftrightarrow> cli_means C given env cli"
proof (cases "cl_match C cli_args argv env")
  case (Inl e)
  then obtain d where d: "d \<in> set cli_args" "arg_values C d given env = None"
    using clap_okD(1) [OF assms] by blast
  then have "\<not> cli_means C given env cli"
    by (auto simp: cli_means_def list_all2_conv_all_nth in_set_conv_nth split: prod.splits)
  with Inl show ?thesis by (simp add: parse_cli_def)
next
  case (Inr m)
  have m: "arg_values C d given env = Some (m (arg_long d))" if "d \<in> set cli_args" for d
    using clap_okD(2) [OF assms Inr that] .
  have wk: "well_kinded m"
    using well_kinded_matches [OF _ m] assms(1) by (simp add: clap_ok_def)
  have "parse_cli C argv env = Inr cli \<longleftrightarrow> cli_of_matches m = Some cli"
    by (simp add: parse_cli_def Inr split: option.split)
  then show ?thesis
    using means_matches [OF m, of cli] cli_of_matches_iff [OF wk, of cli] by simp
qed

text \<open>An error in the value of an option names it.\<close>

lemma parse_cli_error:
  assumes "clap_ok C" and "cl_lex C cli_args argv = Inr given"
    and "\<And>d'. d' \<in> set cli_args \<Longrightarrow> arg_values C d' given env = None \<longleftrightarrow> d' = d" and "d \<in> set cli_args"
  shows "parse_cli C argv env = Inl (InvalidValue (arg_long d))"
  using clap_okD [OF assms(1,2)] assms(3,4)
  by (cases "cl_match C cli_args argv env") (fastforce simp: parse_cli_def)+

end
