(* ===== verification/Ref_Clap.thy ===== *)
theory Ref_Clap
  imports Args
begin

text \<open>
  A small reader of command lines, \<open>--name value\<close> or \<open>--name\<close> for a flag. It satisfies \<open>clap_ok\<close> and
  is what the witnesses of the properties of the command line are evaluated on.
\<close>

definition with_arg ::
  "string \<Rightarrow> string \<Rightarrow> clap_error + (string \<Rightarrow> string option) \<Rightarrow> clap_error + (string \<Rightarrow> string option)" where
  "with_arg n v r = (case r of Inl e \<Rightarrow> Inl e | Inr given \<Rightarrow> Inr (given(n \<mapsto> v)))"

fun ref_lex :: "arg_decl list \<Rightarrow> string list \<Rightarrow> clap_error + (string \<Rightarrow> string option)" where
  "ref_lex ds [] = Inr (\<lambda>_. None)"
| "ref_lex ds (a # rest) =
     (case find (\<lambda>d. a = ''--'' @ arg_long d) ds of
        None \<Rightarrow> Inl (BadUsage a)
      | Some d \<Rightarrow>
          if arg_kind d = KFlag then with_arg (arg_long d) ''true'' (ref_lex ds rest)
          else (case rest of [] \<Rightarrow> Inl (BadUsage a) | v # rest \<Rightarrow> with_arg (arg_long d) v (ref_lex ds rest)))"

definition numeral_of :: "string \<Rightarrow> nat option" where
  "numeral_of s = (if s \<noteq> [] \<and> list_all is_digit s then Some (undec s) else None)"

fun ref_read :: "arg_kind \<Rightarrow> string \<Rightarrow> arg_value option" where
  "ref_read KString s = Some (VString s)"
| "ref_read (KUnsigned w) s =
     (case numeral_of s of Some n \<Rightarrow> if n < 2 ^ w then Some (VUnsigned n) else None | None \<Rightarrow> None)"
| "ref_read KFloat s = map_option (\<lambda>n. VFloat (f64_of_nat n)) (numeral_of s)"
| "ref_read KFlag s =
     (if s = ''true'' then Some (VFlag True) else if s = ''false'' then Some (VFlag False) else None)"

definition ref_reader :: clap_ops where
  "ref_reader = \<lparr>cl_lex = ref_lex, cl_read = ref_read, cl_match = (\<lambda>ds argv env. Inl DisplayInfo)\<rparr>"

definition ref_match ::
  "arg_decl list \<Rightarrow> string list \<Rightarrow> (string \<Rightarrow> string option) \<Rightarrow> clap_error + matches" where
  "ref_match ds argv env =
     (case ref_lex ds argv of
        Inl e \<Rightarrow> Inl e
      | Inr given \<Rightarrow>
          (case find (\<lambda>d. arg_values ref_reader d given env = None) ds of
             Some d \<Rightarrow> Inl (InvalidValue (arg_long d))
           | None \<Rightarrow> Inr (\<lambda>n. case find (\<lambda>d. arg_long d = n) ds of
               Some d \<Rightarrow> the (arg_values ref_reader d given env) | None \<Rightarrow> None)))"

definition ref_clap :: clap_ops where
  "ref_clap = ref_reader\<lparr>cl_match := ref_match\<rparr>"

lemma arg_values_reader: "arg_values ref_clap = arg_values ref_reader"
  by (intro ext) (simp add: arg_values_def ref_clap_def ref_reader_def split: option.split)

lemma ref_clap_sel [simp]: "cl_lex ref_clap = ref_lex" "cl_read ref_clap = ref_read" "cl_match ref_clap = ref_match"
  by (simp_all add: ref_clap_def ref_reader_def)

lemma numeral_of_dec [simp]: "numeral_of (dec n) = Some n"
  using dec_digits by (simp add: numeral_of_def list_all_iff)

lemma find_key: "distinct (map f ds) \<Longrightarrow> d \<in> set ds \<Longrightarrow> find (\<lambda>d'. f d' = f d) ds = Some d"
  by (induction ds) auto

lemma ref_clap_ok: "clap_ok ref_clap"
proof -
  have "clap_reads ref_clap"
    by (auto simp: clap_reads_def split: option.splits if_splits)
  moreover have "clap_matches ref_clap"
  proof -
    have "\<exists>d \<in> set ds. arg_values ref_reader d given env = None \<and> e = InvalidValue (arg_long d)"
      if "ref_lex ds argv = Inr given" "ref_match ds argv env = Inl e" for ds argv env given e
      using that by (auto simp: ref_match_def find_Some_iff split: option.splits)
    moreover have "arg_values ref_reader d given env = Some (m (arg_long d))"
      if "distinct (map arg_long ds)" "ref_lex ds argv = Inr given" "ref_match ds argv env = Inr m" "d \<in> set ds"
      for ds argv env given m d
      using that find_key [of arg_long ds d]
      by (auto simp: ref_match_def find_None_iff split: option.splits)
    ultimately show ?thesis
      by (auto simp: clap_matches_def arg_values_reader split: sum.splits) (auto simp: ref_match_def)
  qed
  ultimately show ?thesis by (simp add: clap_ok_def)
qed

end
