(* ===== verification/Unit_Tests.thy ===== *)
theory Unit_Tests
  imports Enqueue Report Report_File Ref_Hist Ref_Codec
begin

text \<open>
  The unit tests of \<open>job.rs\<close>, \<open>producer.rs\<close>, \<open>metrics.rs\<close> and \<open>report.rs\<close>, run on the model: each test
  function is a boolean definition with its assertions, in their order, and each holds. They check
  the definitions against what the authors of the program expect of the code. A test that reads
  a crate, the clock or a random value has them as arguments, and is proved for all of them that
  satisfy the law of the crate.
\<close>

section \<open>What the assertions use\<close>

fun is_ok :: "('e, 'a) outcome \<Rightarrow> bool" where
  "is_ok (Ok x) = True"
| "is_ok r = False"

fun is_err :: "('e, 'a) outcome \<Rightarrow> bool" where
  "is_err (Err e) = True"
| "is_err r = False"

definition str_contains :: "string \<Rightarrow> string \<Rightarrow> bool" where
  "str_contains s pat \<longleftrightarrow> find_str pat s \<noteq> None"

text \<open>\<open>v[key]\<close> on a \<open>Value\<close>: a missing key reads as null.\<close>

definition value_index :: "string \<Rightarrow> json \<Rightarrow> json" where
  "value_index k v = (case value_get k v of Some x \<Rightarrow> x | None \<Rightarrow> JNull)"

section \<open>Priority keys\<close>

definition priority_step_floors_to_nearest_configured_step :: bool where
  "priority_step_floors_to_nearest_configured_step \<longleftrightarrow>
     priority_step 0 = 0 \<and> priority_step 1 = 0 \<and> priority_step 2 = 0 \<and>
     priority_step 3 = 3 \<and> priority_step 4 = 3 \<and> priority_step 5 = 3 \<and>
     priority_step 6 = 6 \<and> priority_step 8 = 6 \<and> priority_step 9 = 9"

definition priority_step_exact_step_boundaries :: bool where
  "priority_step_exact_step_boundaries \<longleftrightarrow>
     (\<forall>step \<in> set PRIORITY_STEPS. priority_step step = step) \<and>
     priority_step 2 = 0 \<and> priority_step 5 = 3 \<and> priority_step 8 = 6"

definition priority_step_beyond_cli_range_still_floors_correctly :: bool where
  "priority_step_beyond_cli_range_still_floors_correctly \<longleftrightarrow>
     priority_step 10 = 9 \<and> priority_step 100 = 9 \<and> priority_step (- 1) = 9"

definition q_for_pri_zero_priority_returns_bare_queue_name :: bool where
  "q_for_pri_zero_priority_returns_bare_queue_name \<longleftrightarrow>
     q_for_pri ''celery'' 0 = ''celery'' \<and> q_for_pri ''celery'' 1 = ''celery'' \<and>
     q_for_pri ''celery'' 2 = ''celery''"

definition q_for_pri_nonzero_priority_appends_control_byte_separator :: bool where
  "q_for_pri_nonzero_priority_appends_control_byte_separator \<longleftrightarrow>
     q_for_pri ''celery'' 3 = ''celery'' @ [CHR 0x06, CHR 0x16, CHR ''3''] \<and>
     q_for_pri ''celery'' 5 = ''celery'' @ [CHR 0x06, CHR 0x16, CHR ''3''] \<and>
     q_for_pri ''celery'' 6 = ''celery'' @ [CHR 0x06, CHR 0x16, CHR ''6''] \<and>
     q_for_pri ''celery'' 9 = ''celery'' @ [CHR 0x06, CHR 0x16, CHR ''9'']"

definition brpop_keys_single_queue_matches_kombu_priority_outer_order :: bool where
  "brpop_keys_single_queue_matches_kombu_priority_outer_order \<longleftrightarrow>
     brpop_keys [''celery''] =
       [''celery'', ''celery'' @ [CHR 0x06, CHR 0x16, CHR ''3''],
        ''celery'' @ [CHR 0x06, CHR 0x16, CHR ''6''], ''celery'' @ [CHR 0x06, CHR 0x16, CHR ''9'']]"

definition brpop_keys_multi_queue_iterates_priority_outer_queue_inner :: bool where
  "brpop_keys_multi_queue_iterates_priority_outer_queue_inner \<longleftrightarrow>
     (let keys = brpop_keys [''celery_0'', ''celery_1''] in
      length keys = 8 \<and> keys ! 0 = ''celery_0'' \<and> keys ! 1 = ''celery_1'' \<and>
      keys ! 2 = ''celery_0'' @ [CHR 0x06, CHR 0x16, CHR ''3''] \<and>
      keys ! 3 = ''celery_1'' @ [CHR 0x06, CHR 0x16, CHR ''3''] \<and>
      keys ! 6 = ''celery_0'' @ [CHR 0x06, CHR 0x16, CHR ''9''] \<and>
      keys ! 7 = ''celery_1'' @ [CHR 0x06, CHR 0x16, CHR ''9''])"

lemma priority_key_tests:
  "priority_step_floors_to_nearest_configured_step"
  "priority_step_exact_step_boundaries"
  "priority_step_beyond_cli_range_still_floors_correctly"
  "q_for_pri_zero_priority_returns_bare_queue_name"
  "q_for_pri_nonzero_priority_appends_control_byte_separator"
  "brpop_keys_single_queue_matches_kombu_priority_outer_order"
  "brpop_keys_multi_queue_iterates_priority_outer_queue_inner"
  by code_simp+

section \<open>Envelopes\<close>

definition envelope_roundtrips_enqueued_at_ns_through_json_and_base64 ::
  "text_codec \<Rightarrow> stamp \<Rightarrow> bool" where
  "envelope_roundtrips_enqueued_at_ns_through_json_and_base64 c st \<longleftrightarrow>
     (case envelope_new c st ''celery'' 0 42 :: (unit, celery_envelope) outcome of
        Ok env \<Rightarrow>
          (case env_from_slice c (env_to_string c env) of
             Some back \<Rightarrow> (case enqueued_at_ns c back of Some ts \<Rightarrow> 0 < ts | None \<Rightarrow> False)
           | None \<Rightarrow> False)
      | _ \<Rightarrow> False)"

definition envelope_priority_is_stored_raw_not_floored :: "text_codec \<Rightarrow> stamp \<Rightarrow> bool" where
  "envelope_priority_is_stored_raw_not_floored c st \<longleftrightarrow>
     (case envelope_new c st ''celery'' 5 0 :: (unit, celery_envelope) outcome of
        Ok env \<Rightarrow>
          priority (properties env) = 5 \<and>
          q_for_pri ''celery'' (priority (properties env)) = ''celery'' @ [CHR 0x06, CHR 0x16, CHR ''3'']
      | _ \<Rightarrow> False)"

definition envelope_body_is_valid_base64_json_three_tuple :: "text_codec \<Rightarrow> stamp \<Rightarrow> bool" where
  "envelope_body_is_valid_base64_json_three_tuple c st \<longleftrightarrow>
     (case envelope_new c st ''celery'' 0 7 :: (unit, celery_envelope) outcome of
        Ok env \<Rightarrow>
          (case Option.bind (b64_decode c (body env)) (json_from_slice c) of
             Some inner \<Rightarrow>
               (case as_array (to_value inner) of
                  Some [a0, a1, a2] \<Rightarrow>
                    as_array a0 = Some [] \<and>
                    as_u64 (value_index ''idx'' a1) = Some 7 \<and>
                    value_index ''callbacks'' a2 = JNull
                | _ \<Rightarrow> False)
           | None \<Rightarrow> False)
      | _ \<Rightarrow> False)"

text \<open>
  They hold with any codec that satisfies its law, for any identifiers, and for every clock the
  timestamp of which is not 0.
\<close>

lemma envelope_tests:
  assumes "codec_ok c" and "stamp_ok st" and "(of_int (clock_ns st) :: u64) \<noteq> 0"
  shows "envelope_roundtrips_enqueued_at_ns_through_json_and_base64 c st"
    and "envelope_priority_is_stored_raw_not_floored c st"
    and "envelope_body_is_valid_base64_json_three_tuple c st"
proof -
  have new: "\<exists>e. envelope_new c st q p i = (Ok e :: (unit, celery_envelope) outcome)" for q p i
    using assms(2) by (simp add: envelope_new_def unix_now_ns_Ok stamp_ok_def)
  have q: "utf8_valid ''celery''" by code_simp
  obtain e where e: "envelope_new c st ''celery'' 0 42 = (Ok e :: (unit, celery_envelope) outcome)"
    using new by blast
  show "envelope_roundtrips_enqueued_at_ns_through_json_and_base64 c st"
    using env_round_trip [OF assms(1,2) q e] enqueued_at_ns_new [OF assms(1) e] assms(3)
    by (simp add: envelope_roundtrips_enqueued_at_ns_through_json_and_base64_def e word_gt_0)
  obtain e where e: "envelope_new c st ''celery'' 5 0 = (Ok e :: (unit, celery_envelope) outcome)"
    using new by blast
  have "q_for_pri ''celery'' 5 = ''celery'' @ [CHR 0x06, CHR 0x16, CHR ''3'']" by code_simp
  then show "envelope_priority_is_stored_raw_not_floored c st"
    using envelope_new_Ok [OF e] by (simp add: envelope_priority_is_stored_raw_not_floored_def e)
  obtain e where e: "envelope_new c st ''celery'' 0 7 = (Ok e :: (unit, celery_envelope) outcome)"
    using new by blast
  have "Option.bind (b64_decode c (body e)) (json_from_slice c)
      = Some (inner_body (of_int (clock_ns st)) 7)"
    using envelope_new_Ok [OF e] assms(1) by (simp add: codec_okD inner_body_plain)
  then show "envelope_body_is_valid_base64_json_three_tuple c st"
    by (simp add: envelope_body_is_valid_base64_json_three_tuple_def e)
      (simp add: inner_body_def marker_kwargs_def null_embed_def json_object_def bt_of_list_def
        value_index_def)
qed

section \<open>Round robin\<close>

text \<open>The pairs a run of \<open>for i in 0..n\<close> meets, in order.\<close>

definition rr_pairs :: "nat \<Rightarrow> u64 \<Rightarrow> u64 \<Rightarrow> (unit, u64 \<times> u64) outcome list" where
  "rr_pairs n n_queues n_priorities =
     map (\<lambda>i. round_robin_indices (of_nat i) n_queues n_priorities) [0..<n]"

definition round_robin_indices_cover_full_cartesian_product_when_gcd_gt_one :: bool where
  "round_robin_indices_cover_full_cartesian_product_when_gcd_gt_one \<longleftrightarrow>
     card (set (rr_pairs (2 * 4) 2 4)) = 2 * 4"

definition round_robin_indices_cover_full_cartesian_product_across_gcds :: bool where
  "round_robin_indices_cover_full_cartesian_product_across_gcds \<longleftrightarrow>
     (\<forall>(n_queues, n_priorities) \<in> set [(1, 1), (1, 4), (4, 1), (2, 2), (3, 4), (4, 4), (6, 9)].
        card (set (rr_pairs (n_queues * n_priorities) (of_nat n_queues) (of_nat n_priorities)))
          = n_queues * n_priorities)"

definition round_robin_indices_distribution_is_even_over_multiple_cycles :: bool where
  "round_robin_indices_distribution_is_even_over_multiple_cycles \<longleftrightarrow>
     (let seen = rr_pairs 40 2 4 in
      card (set seen) = 8 \<and> (\<forall>combo \<in> set seen. count_list seen combo = 5))"

definition round_robin_indices_single_queue_or_single_priority_is_pure_round_robin :: bool where
  "round_robin_indices_single_queue_or_single_priority_is_pure_round_robin \<longleftrightarrow>
     (\<forall>i \<in> set (map of_nat [0..<8]).
        round_robin_indices i 1 4 = (Ok (0, i mod 4) :: (unit, _) outcome) \<and>
        round_robin_indices i 4 1 = (Ok (i mod 4, 0) :: (unit, _) outcome))"

text \<open>The first three hold by the contract of the round robin.\<close>

lemma rr_pairs_cycle:
  assumes "0 < a" and "0 < b" and "a * b < 2 ^ 64"
  shows "card (set (rr_pairs (a * b) (of_nat a) (of_nat b))) = a * b"
proof -
  have lt: "a < 2 ^ 64" "b < 2 ^ 64"
    using assms by (metis le_less_trans dvd_imp_le dvd_triv_left dvd_triv_right nat_0_less_mult_iff)+
  then have u: "unat (of_nat a :: u64) = a" "unat (of_nat b :: u64) = b"
    by (simp_all add: unsigned_of_nat take_bit_nat_eq_self)
  let ?d = "(of_nat a, of_nat b) :: u64 \<times> u64"
  have "rr_valid ?d" using assms(1,2) u by (auto simp: rr_valid_def simp flip: unat_eq_0)
  moreover have "rr_cycle ?d = a * b" by (simp add: rr_cycle_def u)
  ultimately have "inj_on (\<lambda>i. round_robin_indices (of_nat i) (of_nat a) (of_nat b)
      :: (unit, u64 \<times> u64) outcome) {0..<a * b}"
    using round_robin.window [of ?d 0] assms(3) by (simp add: bij_betw_def)
  then show ?thesis
    by (simp add: rr_pairs_def card_image)
qed

lemma round_robin_tests:
  "round_robin_indices_cover_full_cartesian_product_when_gcd_gt_one"
  "round_robin_indices_cover_full_cartesian_product_across_gcds"
  using rr_pairs_cycle [of 2 4] rr_pairs_cycle [of 1 1] rr_pairs_cycle [of 1 4] rr_pairs_cycle [of 4 1]
    rr_pairs_cycle [of 2 2] rr_pairs_cycle [of 3 4] rr_pairs_cycle [of 4 4] rr_pairs_cycle [of 6 9]
  by (simp_all add: round_robin_indices_cover_full_cartesian_product_when_gcd_gt_one_def
      round_robin_indices_cover_full_cartesian_product_across_gcds_def)

lemma count_list_map: "count_list (map f [0..<n]) y = card {i \<in> {..<n}. f i = y}"
proof (induction n)
  case (Suc n)
  have "{i \<in> {..<Suc n}. f i = y} = {i \<in> {..<n}. f i = y} \<union> (if f n = y then {n} else {})"
    by (auto simp: less_Suc_eq)
  with Suc show ?case by (simp add: card_insert_if)
qed simp

lemma round_robin_even_test: "round_robin_indices_distribution_is_even_over_multiple_cycles"
proof -
  let ?f = "\<lambda>i. round_robin_indices (of_nat i) 2 4 :: (unit, u64 \<times> u64) outcome"
  have d: "rr_valid (2, 4)" "rr_cycle (2, 4) = 8" by (simp_all add: rr_valid_def rr_cycle_def)
  have slots: "?f ` {0..<8} = rr_slots (2, 4)" "inj_on ?f {0..<8}"
    using round_robin.window [OF d(1), of 0] by (simp_all add: d(2) bij_betw_def)
  have "?f i \<in> rr_slots (2, 4)" if "i < 40" for i
    using rr_unat [OF d(1), of i] that by (auto simp: rr_slots_def)
  then have "?f ` {0..<40} \<subseteq> rr_slots (2, 4)" by auto
  moreover have "?f ` {0..<8} \<subseteq> ?f ` {0..<40}" by (intro image_mono) simp
  ultimately have seen: "set (rr_pairs 40 2 4) = rr_slots (2, 4)"
    using slots(1) by (simp add: rr_pairs_def)
  moreover have "card (rr_slots (2, 4)) = 8"
    using card_image [OF slots(2)] slots(1) by simp
  moreover have "count_list (rr_pairs 40 2 4) s = 5" if "s \<in> rr_slots (2, 4)" for s
    using round_robin.whole_cycles [OF d(1), of 5 s] that by (simp add: rr_pairs_def count_list_map d(2))
  ultimately show ?thesis
    by (simp add: round_robin_indices_distribution_is_even_over_multiple_cycles_def)
qed

lemma round_robin_degenerate_test:
  "round_robin_indices_single_queue_or_single_priority_is_pure_round_robin"
  by code_simp

section \<open>Metrics\<close>

definition empty_histogram_returns_zero_stats :: "'h hist_ops \<Rightarrow> bool" where
  "empty_histogram_returns_zero_stats H \<longleftrightarrow>
     (case h_new H 1 60000000 3 of
        Some hist \<Rightarrow>
          (let stats = from_histogram H hist in
           total_count stats = 0 \<and> p99 stats = 0 \<and> max_us stats = 0 \<and> f64_eq (mean stats) (Fin 0))
      | None \<Rightarrow> False)"

definition inc_completed_returns_new_value :: bool where
  "inc_completed_returns_new_value \<longleftrightarrow>
     (let m0 = metrics_new; (r1, m1) = inc_completed m0; (r2, m2) = inc_completed m1 in
      r1 = 1 \<and> r2 = 2 \<and> get_completed m2 = 2)"

lemma metrics_tests:
  "inc_completed_returns_new_value"
  by code_simp

lemma empty_histogram_test:
  assumes "hist_ok H"
  shows "empty_histogram_returns_zero_stats H"
proof -
  from hist_okD(1) [OF assms, of 1 60000000] obtain h
    where "h_new H 1 60000000 3 = Some h" "h_len H h = 0" by auto
  then show ?thesis
    by (simp add: empty_histogram_returns_zero_stats_def from_histogram_def hist_okD(6) [OF assms]
        latency_stats_default_def f64_eq_def)
qed

text \<open>The test of a histogram with values in it, on the exact one.\<close>

definition histogram_records_values_correctly :: "'h hist_ops \<Rightarrow> bool" where
  "histogram_records_values_correctly H \<longleftrightarrow>
     (case h_new H 1 60000000 3 of
        Some h \<Rightarrow>
          (let hist = fold (\<lambda>i h. case h_record H (of_nat i * 1000) h of Some h' \<Rightarrow> h' | None \<Rightarrow> h) [1..<1001] h;
               stats = from_histogram H hist
           in total_count stats = 1000 \<and> 0 < p50 stats \<and> p50 stats < p99 stats \<and> f64_less (Fin 0) (mean stats))
      | None \<Rightarrow> False)"

lemma ref_records:
  assumes "\<And>i. i \<in> set is \<Longrightarrow> v i \<le> rh_high h"
  shows "fold (\<lambda>i h. case h_record ref_hist_ops (v i) h of Some h' \<Rightarrow> h' | None \<Rightarrow> h) is h
    = h\<lparr>rh_values := rev (map v is) @ rh_values h\<rparr>"
  using assms by (induction "is" arbitrary: h) (simp_all add: ref_hist_ops_def)

lemma unat_thousands: "i \<le> 1000 \<Longrightarrow> unat (of_nat i * 1000 :: u64) = i * 1000"
  by (simp add: unat_word_ariths unsigned_of_nat take_bit_nat_eq_self)

lemma close_to: "1 / 2 \<le> x \<Longrightarrow> x \<le> 1 \<Longrightarrow> x - 1 / 1000 \<le> rnd x \<and> rnd x \<le> x + 1 / 1000"
  for x :: rat
proof -
  assume x: "1 / 2 \<le> x" "x \<le> 1"
  have "- 1 \<le> ilog2 x" using x by (intro ilog2_ge) (simp_all add: power_int_minus)
  then have "\<bar>rnd x - x\<bar> \<le> x / 2 ^ 53" using x by (intro rnd_error) simp_all
  also have "x / 2 ^ 53 \<le> 1 / 1000" using x by simp
  finally show ?thesis unfolding abs_le_iff by linarith
qed

lemma ranks_of_thousand:
  "rh_rank (f64_lit 50 100) 1000 \<le> 501" "501 < rh_rank (f64_lit 99 100) 1000"
  "rh_rank (f64_lit 99 100) 1000 < 1000"
proof -
  have "f64_lit 50 100 = Fin (rnd (1 / 2))" "f64_lit 99 100 = Fin (rnd (99 / 100))"
    by (simp_all add: f64_lit_def fl_small)
  moreover have "rnd (1 / 2) * 1000 \<le> (501 :: rat)" "502 \<le> (rnd (99 / 100) * 1000 :: rat)"
    using close_to [of "1 / 2"] close_to [of "99 / 100"] by linarith+
  then have "nat \<lfloor>rnd (1 / 2) * (1000 :: rat)\<rfloor> \<le> 501" "502 \<le> nat \<lfloor>rnd (99 / 100) * (1000 :: rat)\<rfloor>"
    by linarith+
  ultimately show "rh_rank (f64_lit 50 100) 1000 \<le> 501" "501 < rh_rank (f64_lit 99 100) 1000"
    unfolding rh_rank_def by simp_all
qed (rule rh_rank_less, simp)

lemma sum_list_of_nat: "(\<Sum>x \<leftarrow> xs. rat_of_nat (f x)) = of_nat (\<Sum>x \<leftarrow> xs. f x)"
  by (induction xs) simp_all

lemma sum_of_thousands: "(\<Sum>i \<leftarrow> [Suc 0..<Suc n]. i * 1000) = 500 * (n * Suc n)"
  by (induction n) (simp_all add: algebra_simps)

lemma histogram_test: "histogram_records_values_correctly ref_hist_ops"
proof -
  let ?v = "\<lambda>i. of_nat i * 1000 :: u64"
  let ?h = "\<lparr>rh_high = 60000000, rh_values = rev (map ?v [Suc 0..<1001])\<rparr>"
  have le: "?v i \<le> 60000000" if "i \<in> set [Suc 0..<1001]" for i
    using that by (simp add: word_le_nat_alt unat_thousands)
  have new: "h_new ref_hist_ops 1 60000000 3 = Some \<lparr>rh_high = 60000000, rh_values = []\<rparr>"
    by (simp add: ref_hist_ops_def)
  have hist: "fold (\<lambda>i h. case h_record ref_hist_ops (?v i) h of Some h' \<Rightarrow> h' | None \<Rightarrow> h) [Suc 0..<1001]
      \<lparr>rh_high = 60000000, rh_values = []\<rparr> = ?h"
    by (subst ref_records) (use le in simp_all)
  have "sorted (map ?v [Suc 0..<1001])"
    unfolding sorted_map
    by (rule sorted_wrt_mono_rel [OF _ sorted_upt]) (simp add: word_le_nat_alt unat_thousands)
  then have sorted: "sort (rev (map ?v [Suc 0..<1001])) = map ?v [Suc 0..<1001]"
    by (intro properties_for_sort) simp_all
  have quantile: "unat (rh_quantile q ?h) = (rh_rank q 1000 + 1) * 1000" if "rh_rank q 1000 < 1000" for q
    using that unat_thousands [of "rh_rank q 1000 + 1"]
    by (simp add: rh_quantile_def sorted del: upt_Suc)
  have "sum_list (map (\<lambda>v. of_nat (unat v)) (rh_values ?h)) = (of_nat (\<Sum>i \<leftarrow> [Suc 0..<1001]. i * 1000) :: rat)"
  proof -
    have "map (\<lambda>v. rat_of_nat (unat v)) (map ?v [Suc 0..<1001]) = map (\<lambda>i. of_nat (i * 1000)) [Suc 0..<1001]"
      unfolding map_map comp_def
      by (rule map_cong [OF refl], subst unat_thousands) (simp_all del: upt_Suc)
    then show ?thesis
      by (simp only: ref_hist.select_convs rev_map [symmetric] sum_list_rev sum_list_of_nat)
  qed
  also have "(\<Sum>i \<leftarrow> [Suc 0..<1001]. i * 1000) = 500500000"
    using sum_of_thousands [of 1000] by (simp del: upt_Suc)
  finally have "h_mean ref_hist_ops ?h = f64_div (Fin 500500000) (Fin 1000)"
    using rnd_of_nat [of 500500000] f64_of_nat_small [of 1000]
    by (simp add: ref_hist_ops_def fl_small rev_map [symmetric] del: upt_Suc)
  then have mean: "f64_less (Fin 0) (h_mean ref_hist_ops ?h)"
    using rnd_of_nat [of 500500] by (simp add: fl_small)
  have "unat (rh_quantile (f64_lit 50 100) ?h) < unat (rh_quantile (f64_lit 99 100) ?h)"
      "0 < unat (rh_quantile (f64_lit 50 100) ?h)"
    using ranks_of_thousand quantile by simp_all
  then have q: "rh_quantile (f64_lit 50 100) ?h < rh_quantile (f64_lit 99 100) ?h"
      "0 < rh_quantile (f64_lit 50 100) ?h"
    by (simp_all add: word_less_nat_alt)
  have len: "h_len ref_hist_ops ?h = 1000" "\<not> h_is_empty ref_hist_ops ?h"
      "h_quantile ref_hist_ops = rh_quantile"
    by (simp_all add: ref_hist_ops_def)
  show ?thesis
    unfolding histogram_records_values_correctly_def new option.case One_nat_def hist Let_def
    using mean q len by (simp add: from_histogram_def)
qed

section \<open>Numbers as text\<close>

definition format_n_groups_thousands :: bool where
  "format_n_groups_thousands \<longleftrightarrow>
     format_n 0 = ''0'' \<and> format_n 999 = ''999'' \<and> format_n 1000 = ''1,000'' \<and>
     format_n 1000000 = ''1,000,000'' \<and> format_n 12345678 = ''12,345,678''"

definition format_jobs_per_sec_handles_non_finite :: bool where
  "format_jobs_per_sec_handles_non_finite \<longleftrightarrow>
     format_jobs_per_sec NaN = ''n/a'' \<and> format_jobs_per_sec (Inf False) = ''n/a'' \<and>
     format_jobs_per_sec (Fin (- 1)) = ''n/a'' \<and> format_jobs_per_sec (f64_lit 110623 10) = ''11,062''"

lemma format_n_test: "format_n_groups_thousands"
  by (simp add: format_n_groups_thousands_def format_n_def dec.simps digit_chars)

lemma f64_lit_11062_3: "f64_to_u64 (f64_lit 110623 10) = 11062"
proof -
  let ?x = "110623 / 10 :: rat"
  have "\<bar>rnd ?x - ?x\<bar> \<le> ?x / 2 ^ 53"
    using ilog2_ge [of ?x 0] by (intro rnd_error) simp_all
  also have "?x / 2 ^ 53 \<le> 1 / 10" by simp
  finally have x: "11062 \<le> rnd ?x" "rnd ?x < 11063" unfolding abs_le_iff by linarith+
  then have "\<lfloor>rnd ?x\<rfloor> = 11062" by (simp add: floor_eq_iff)
  moreover have "f64_lit 110623 10 = Fin (rnd ?x)"
    by (simp add: f64_lit_def fl_small)
  ultimately show ?thesis using x by simp
qed

lemma format_jobs_per_sec_test: "format_jobs_per_sec_handles_non_finite"
proof -
  have "f64_lit 110623 10 = Fin (rnd (110623 / 10))" "0 \<le> rnd (110623 / 10)"
    by (simp_all add: f64_lit_def fl_small rnd_nonneg)
  with f64_lit_11062_3 show ?thesis
    by (simp add: format_jobs_per_sec_handles_non_finite_def format_jobs_per_sec_def format_n_def
        dec.simps digit_chars del: f64_to_u64.simps)
qed

text \<open>
  Not tests: a whole number of milliseconds is printed with its decimal, and just below a second the
  unit is chosen before the rounding.
\<close>

lemma fmt_us_examples:
  "fmt_us 48000 = ''48.0 ms''" "fmt_us 999960 = ''1000.0 ms''"
proof -
  obtain k where k: "fmt_us 48000 = fixed 1 k @ '' ms''" "\<bar>100 * int k - 48000\<bar> \<le> 50"
    using fmt_us_accuracy [of 48000] by auto
  then have "k = 480" by arith
  with k show "fmt_us 48000 = ''48.0 ms''" by (simp add: fixed_def pad_left_def dec.simps digit_chars)
  obtain j where j: "fmt_us 999960 = fixed 1 j @ '' ms''" "\<bar>100 * int j - 999960\<bar> \<le> 50"
    using fmt_us_accuracy [of 999960] by auto
  then have "j = 10000" by arith
  with j show "fmt_us 999960 = ''1000.0 ms''" by (simp add: fixed_def pad_left_def dec.simps digit_chars)
qed

end
