(* ===== verification/Command_Line.thy ===== *)
theory Command_Line
  imports Args_Spec Ref_Clap Program_Live Unit_Tests_Main
begin

text \<open>
  The program as it is started, with its arguments and its environment: the property of the command
  line, the run without any option, and the unit test of the environment variables.
\<close>

section \<open>The property of the command line\<close>

text \<open>The values of the numerals of the declarations.\<close>

lemma decimal_texts:
  "dec 0 = ''0''" "dec 1 = ''1''" "dec 10 = ''10''" "dec 50 = ''50''" "dec 100 = ''100''" "dec 200 = ''200''"
  "dec 300 = ''300''" "dec 500000 = ''500000''"
  by (simp_all add: dec.simps digit_chars)

lemmas decimals = decimal_texts decimal_texts(2) [unfolded One_nat_def]

lemma default_reads:
  assumes "clap_reads C"
  shows "cl_read C KString s = Some (VString s)"
    and "cl_read C KFlag ''true'' = Some (VFlag True)" and "cl_read C KFlag ''false'' = Some (VFlag False)"
    and "cl_read C (KUnsigned 64) ''0'' = Some (VUnsigned 0)" and "cl_read C (KUnsigned 8) ''0'' = Some (VUnsigned 0)"
    and "cl_read C (KUnsigned 64) ''1'' = Some (VUnsigned 1)" and "cl_read C (KUnsigned 64) ''10'' = Some (VUnsigned 10)"
    and "cl_read C (KUnsigned 64) ''50'' = Some (VUnsigned 50)"
    and "cl_read C (KUnsigned 64) ''100'' = Some (VUnsigned 100)"
    and "cl_read C (KUnsigned 64) ''200'' = Some (VUnsigned 200)"
    and "cl_read C (KUnsigned 64) ''300'' = Some (VUnsigned 300)"
    and "cl_read C (KUnsigned 64) ''500000'' = Some (VUnsigned 500000)"
    and "cl_read C KFloat ''1'' = Some (VFloat (Fin 1))"
proof -
  have n: "cl_read C (KUnsigned w) (dec n) = Some (VUnsigned n)" if "n < 2 ^ w" for w n
    using assms that by (simp add: clap_reads_def)
  show "cl_read C (KUnsigned 64) ''0'' = Some (VUnsigned 0)" "cl_read C (KUnsigned 8) ''0'' = Some (VUnsigned 0)"
    "cl_read C (KUnsigned 64) ''1'' = Some (VUnsigned 1)" "cl_read C (KUnsigned 64) ''10'' = Some (VUnsigned 10)"
    "cl_read C (KUnsigned 64) ''50'' = Some (VUnsigned 50)" "cl_read C (KUnsigned 64) ''100'' = Some (VUnsigned 100)"
    "cl_read C (KUnsigned 64) ''200'' = Some (VUnsigned 200)"
    "cl_read C (KUnsigned 64) ''300'' = Some (VUnsigned 300)"
    "cl_read C (KUnsigned 64) ''500000'' = Some (VUnsigned 500000)"
    using n [of 0 64] n [of 0 8] n [of 1 64] n [of 10 64] n [of 50 64] n [of 100 64] n [of 200 64]
      n [of 300 64] n [of 500000 64] by (simp_all add: decimals)
  show "cl_read C KFloat ''1'' = Some (VFloat (Fin 1))"
  proof -
    have "cl_read C KFloat (dec 1) = Some (VFloat (f64_of_nat 1))"
      using assms unfolding clap_reads_def by blast
    then show ?thesis using f64_of_nat_small [of 1] by (simp add: decimals)
  qed
qed (use assms in \<open>simp_all add: clap_reads_def\<close>)

text \<open>The text of a flag in the environment.\<close>

definition env_flag :: "(string \<Rightarrow> string option) \<Rightarrow> string \<Rightarrow> string" where
  "env_flag env n = (case env n of Some v \<Rightarrow> v | None \<Rightarrow> ''false'')"

definition flag_text :: "bool \<Rightarrow> string" where
  "flag_text b = (if b then ''true'' else ''false'')"

lemma env_source: "arg_source (flag_decl n (Some v)) (\<lambda>_. None) env = Some (env_flag env v)"
  by (simp add: arg_source_def env_flag_def split: option.split)

lemma read_flag_text: "clap_reads C \<Longrightarrow> cl_read C KFlag (flag_text b) = Some (VFlag b)"
  by (simp add: flag_text_def default_reads)

lemma means_defaults:
  assumes "clap_reads C" and "env ''REDIS_URL'' = None" and "env ''REDIS_PASSWORD'' = None"
    and "env_flag env ''REDIS_TLS'' = flag_text t" and "env_flag env ''REDIS_TLS_INSECURE'' = flag_text i"
    and "env_flag env ''CELERY_BENCH_ALLOW_FLUSHDB'' = flag_text a"
  shows "cli_means C (\<lambda>_. None) env (cli_defaults\<lparr>tls := t, insecure := i, allow_flushdb := a\<rparr>)"
  by (simp add: cli_means_def cli_args_def cli_values_def cli_defaults_def arg_values_def env_source assms(2-6)
      arg_pieces_def read_flag_text [OF assms(1)] default_reads [OF assms(1)] numbers_def)
    (simp add: arg_source_def arg_pieces_def assms default_reads [OF assms(1)])



section \<open>The program as it is started\<close>

text \<open>
  \<open>Cli::parse\<close> ends the program when it returns no command line: with status 0 after \<open>--help\<close> and
  \<open>--version\<close>, else with status 2; its text is the parser's. Otherwise \<open>main\<close> goes on.
\<close>

inductive celery_bench ::
  "clap_ops \<Rightarrow> 'h hist_ops \<Rightarrow> text_codec \<Rightarrow> 's server \<Rightarrow> 'f file_ops \<Rightarrow> renderers \<Rightarrow> 'u url_ops \<Rightarrow> bool \<Rightarrow>
   string list \<Rightarrow> (string \<Rightarrow> string option) \<Rightarrow> 's \<Rightarrow> 'f \<Rightarrow> nat \<Rightarrow> outputs option \<Rightarrow> 's \<Rightarrow> 'f \<Rightarrow> bool"
  for C H c sv F R U checks argv env s f where
  not_parsed: "parse_cli C argv env = Inl e
     \<Longrightarrow> celery_bench C H c sv F R U checks argv env s f (if e = DisplayInfo then 0 else 2) None s f"
| parsed: "\<lbrakk>parse_cli C argv env = Inr cli; program H c sv F R U checks cli s f out s' f'\<rbrakk>
     \<Longrightarrow> celery_bench C H c sv F R U checks argv env s f (exit_code out) (Some out) s' f'"

text \<open>With no option and none of its variables the program is the one of \<open>cli_defaults\<close>.\<close>

lemma no_options:
  assumes "clap_ok C" and "cl_lex C cli_args [] = Inr (\<lambda>_. None)"
    and "\<forall>v \<in> set (List.map_filter arg_env cli_args). env v = None"
  shows "parse_cli C [] env = Inr cli_defaults"
proof -
  have unset: "env ''REDIS_URL'' = None" "env ''REDIS_PASSWORD'' = None" "env ''REDIS_TLS'' = None"
      "env ''REDIS_TLS_INSECURE'' = None" "env ''CELERY_BENCH_ALLOW_FLUSHDB'' = None"
    using assms(3) by (simp_all add: cli_args_def map_filter_simps)
  have "cli_means C (\<lambda>_. None) env (cli_defaults\<lparr>tls := False, insecure := False, allow_flushdb := False\<rparr>)"
    by (rule means_defaults) (use assms(1) in \<open>simp_all add: clap_ok_def env_flag_def flag_text_def unset\<close>)
  then show ?thesis using parse_cli_iff [OF assms(1,2)] by (simp add: cli_defaults_def)
qed

text \<open>
  That command line passes every check that comes before the network: if the parser of URLs reads the
  default URL the connection goes to the database in it, and the five percentiles are the ones the
  help text names.
\<close>

lemma validate_cli_defaults: "validate_cli U cli_defaults = Ok ()"
  by (simp add: validate_cli_def cli_defaults_def ensure_def MAX_NUM_QUEUES_def MAX_WORKERS_PER_TRIAL_def)

lemma build_defaults:
  "u_parse U ''redis://127.0.0.1:6379/13'' = Some u \<Longrightarrow> u_path U u = ''/13''
     \<Longrightarrow> build_redis_url U cli_defaults = Ok (u_string U u)"
  by (simp add: build_redis_url_def cli_defaults_def set_option_def trim_slashes_def)

lemma specs_defaults:
  "startup_options checks cli_defaults = Ok
     [Quantile ''p50'' (f64_lit 50 100), Quantile ''p90'' (f64_lit 90 100),
      Quantile ''p99'' (f64_lit 99 100), Quantile ''p999'' (f64_lit 999 1000), SpecMax]"
  using parsed_digits(1) [of "''50''" 50 100 checks] parsed_digits(1) [of "''90''" 90 100 checks]
    parsed_digits(1) [of "''99''" 99 100 checks] parsed_digits(1) [of "''999''" 999 1000 checks]
  by (simp add: startup_options_def cli_defaults_def digit_evals parse_percentile_spec_def [of _ "''max''"])

lemma startup_defaults:
  assumes "u_parse U ''redis://127.0.0.1:6379/13'' = Some u" and "u_path U u = ''/13''"
  obtains S where "startup U checks cli_defaults = Ok S" and "conn_url S = u_string U u"
    and "map spec_name (st_specs S) = latency_percentiles cli_defaults"
proof -
  show thesis
    using that unfolding startup_def startup_url_def validate_cli_defaults build_defaults [OF assms]
      specs_defaults
    by (simp add: cli_defaults_def)
qed

text \<open>Started without any option, on a broker and a file system that do not fail, it can succeed.\<close>

lemma default_run:
  assumes "codec_ok c" and "server_ok sv" and "reliable sv" and "hist_ok H" and "reliable_files F"
    and "clap_ok C" and "cl_lex C cli_args [] = Inr (\<lambda>_. None)"
    and "\<forall>v \<in> set (List.map_filter arg_env cli_args). env v = None"
    and "u_parse U ''redis://127.0.0.1:6379/13'' = Some u" and "u_path U u = ''/13''"
  shows "\<exists>out s' f'. celery_bench C H c sv F R U checks [] env s f 0 (Some out) s' f'"
proof -
  obtain S where S: "startup U checks cli_defaults = Ok S" by (rule startup_defaults [OF assms(9,10)])
  have "utf8_valid ''celery''" by code_simp
  then have "utf8_valid (queue cli_defaults)" "length (priorities cli_defaults) < 2 ^ 64"
    by (simp_all add: cli_defaults_def)
  from program_succeeds [OF assms(1-5) S this, of R s f] obtain out s' f' where
    "program H c sv F R U checks cli_defaults s f out s' f'" "exit_code out = 0" by blast
  then show ?thesis
    using celery_bench.parsed [OF no_options [OF assms(6-8)]] by metis
qed

section \<open>The unit test of the environment variables\<close>

definition redis_tls_insecure_env_var_false_resolves_to_false_not_present_therefore_true ::
  "clap_ops \<Rightarrow> bool" where
  "redis_tls_insecure_env_var_false_resolves_to_false_not_present_therefore_true C \<longleftrightarrow>
     (\<forall>(val, expected) \<in> set [(''false'', False), (''true'', True)].
        (case parse_cli C [] [''REDIS_TLS_INSECURE'' \<mapsto> val, ''REDIS_TLS'' \<mapsto> val] of
           Inr cli \<Rightarrow> insecure cli = expected \<and> tls cli = expected | Inl e \<Rightarrow> False)) \<and>
     parse_cli C [] [''REDIS_TLS_INSECURE'' \<mapsto> ''0''] = Inl (InvalidValue ''insecure'')"

lemma env_test:
  assumes "clap_ok C" and "cl_lex C cli_args [] = Inr (\<lambda>_. None)"
  shows "redis_tls_insecure_env_var_false_resolves_to_false_not_present_therefore_true C"
proof -
  have r: "clap_reads C" using assms(1) by (simp add: clap_ok_def)
  have "parse_cli C [] [''REDIS_TLS_INSECURE'' \<mapsto> flag_text b, ''REDIS_TLS'' \<mapsto> flag_text b]
      = Inr (cli_defaults\<lparr>tls := b, insecure := b, allow_flushdb := False\<rparr>)" for b
    unfolding parse_cli_iff [OF assms]
    by (rule means_defaults [OF r]) (simp_all add: env_flag_def flag_text_def)
  from this [of False] this [of True] have vals:
    "\<forall>(val, expected) \<in> set [(''false'', False), (''true'', True)].
        (case parse_cli C [] [''REDIS_TLS_INSECURE'' \<mapsto> val, ''REDIS_TLS'' \<mapsto> val] of
           Inr cli \<Rightarrow> insecure cli = expected \<and> tls cli = expected | Inl e \<Rightarrow> False)"
    by (simp add: flag_text_def)
  have bad: "cl_read C KFlag ''0'' = None" using r by (simp add: clap_reads_def)
  have "parse_cli C [] [''REDIS_TLS_INSECURE'' \<mapsto> ''0'']
      = Inl (InvalidValue (arg_long (flag_decl ''insecure'' (Some ''REDIS_TLS_INSECURE''))))"
    by (rule parse_cli_error [OF assms])
      (auto simp: cli_args_def arg_values_def arg_source_def arg_pieces_def default_reads [OF r] bad)
  with vals show ?thesis
    by (simp add: redis_tls_insecure_env_var_false_resolves_to_false_not_present_therefore_true_def)
qed

end
