(* ===== verification/Connection.thy ===== *)
theory Connection
  imports Startup_Spec
begin

text \<open>
  From the command line to the connection: what the \<open>redis\<close> crate makes of the URL that
  \<open>build_redis_url\<close> returns, and whether the warnings printed before it are about that connection.
\<close>

section \<open>The address of a connection\<close>

text \<open>\<open>ConnectionAddr\<close> and \<open>ConnectionInfo\<close> of the \<open>redis\<close> crate, as far as they matter here.\<close>

datatype conn_addr = Tcp string u16 | TcpTls string u16 bool | UnixSocket string

record conn_info =
  ci_addr :: conn_addr
  ci_db :: int

fun encrypted :: "conn_addr \<Rightarrow> bool" where
  "encrypted (TcpTls h p i) = True"
| "encrypted a = False"

text \<open>The server's certificate is not checked.\<close>

fun unverified :: "conn_addr \<Rightarrow> bool" where
  "unverified (TcpTls h p i) = i"
| "unverified a = False"

text \<open>
  \<open>IntoConnectionInfo\<close> of a string is a parameter of type \<open>string \<Rightarrow> conn_info option\<close>. What the crate
  documents of URLs with the schemes \<open>redis\<close> and \<open>rediss\<close>: the second is for TLS, where the fragment
  \<open>insecure\<close> switches verification off; the path is the number of the database.
\<close>

definition conn_ok :: "'u url_ops \<Rightarrow> (string \<Rightarrow> conn_info option) \<Rightarrow> bool" where
  "conn_ok U I \<longleftrightarrow> (\<forall>s u i. u_parse U s = Some u \<longrightarrow> I s = Some i \<longrightarrow>
     (u_scheme U u = ''redis'' \<longrightarrow> (\<exists>h p. ci_addr i = Tcp h p)) \<and>
     (u_scheme U u = ''rediss'' \<longrightarrow>
        (\<exists>h p. ci_addr i = TcpTls h p (u_fragment U u = Some ''insecure''))) \<and>
     (u_scheme U u = ''redis'' \<or> u_scheme U u = ''rediss'' \<longrightarrow>
        (\<forall>n :: u8. parse_u8 (trim_slashes (u_path U u)) = Some n \<longrightarrow> ci_db i = int (unat n))))"

lemma conn_okD:
  assumes "conn_ok U I" and "u_parse U s = Some u" and "I s = Some i"
    and "u_scheme U u = ''redis'' \<or> u_scheme U u = ''rediss''"
  shows "encrypted (ci_addr i) \<longleftrightarrow> u_scheme U u = ''rediss''"
    and "unverified (ci_addr i) \<longleftrightarrow> u_scheme U u = ''rediss'' \<and> u_fragment U u = Some ''insecure''"
    and "parse_u8 (trim_slashes (u_path U u)) = Some (n :: u8) \<Longrightarrow> ci_db i = int (unat n)"
proof -
  from assms have law: "(u_scheme U u = ''redis'' \<longrightarrow> (\<exists>h p. ci_addr i = Tcp h p)) \<and>
      (u_scheme U u = ''rediss'' \<longrightarrow> (\<exists>h p. ci_addr i = TcpTls h p (u_fragment U u = Some ''insecure''))) \<and>
      (\<forall>n :: u8. parse_u8 (trim_slashes (u_path U u)) = Some n \<longrightarrow> ci_db i = int (unat n))"
    unfolding conn_ok_def by blast
  then show "encrypted (ci_addr i) \<longleftrightarrow> u_scheme U u = ''rediss''"
    and "unverified (ci_addr i) \<longleftrightarrow> u_scheme U u = ''rediss'' \<and> u_fragment U u = Some ''insecure''"
    using assms(4) by auto
  show "parse_u8 (trim_slashes (u_path U u)) = Some (n :: u8) \<Longrightarrow> ci_db i = int (unat n)"
    using law by blast
qed

section \<open>A reference reading of URLs\<close>

definition ref_conn :: "string \<Rightarrow> conn_info option" where
  "ref_conn s =
     (case parse_url s of
        Some u \<Rightarrow>
          (let p = (case r_port u of Some p \<Rightarrow> p | None \<Rightarrow> 6379);
               addr = (if r_scheme u = ''redis'' then Some (Tcp (r_host u) p)
                       else if r_scheme u = ''rediss''
                       then Some (TcpTls (r_host u) p (r_fragment u = Some ''insecure'')) else None);
               db = (case parse_u8 (trim_slashes (CHR ''/'' # r_path u)) of Some n \<Rightarrow> int (unat n) | None \<Rightarrow> 0)
           in map_option (\<lambda>a. \<lparr>ci_addr = a, ci_db = db\<rparr>) addr)
      | None \<Rightarrow> None)"

lemma ref_conn_ok: "conn_ok ref_url_ops ref_conn"
  by (auto simp: conn_ok_def ref_conn_def ref_url_ops_def Let_def)

section \<open>The property\<close>

text \<open>The schemes of the built URL are those of the given one.\<close>

lemma built_scheme:
  assumes "url_ok U" and "build_redis_url U cli = Ok s" and "u_parse U (url cli) = Some u"
    and "u_scheme U u = ''redis'' \<or> u_scheme U u = ''rediss''"
  obtains v where "u_parse U s = Some v" and "u_scheme U v = ''redis'' \<or> u_scheme U v = ''rediss''"
    and "u_scheme U v = ''rediss'' \<longleftrightarrow> resolves_to_tls_scheme U cli"
    and "url_disables_cert_verification U s \<longleftrightarrow> u_scheme U v = ''rediss'' \<and> u_fragment U v = Some ''insecure''"
proof -
  obtain u' v where b: "u_parse U (url cli) = Some u'" "u_parse U s = Some v"
      "u_scheme U v = (if tls cli \<and> u_scheme U u' = ''redis'' then ''rediss'' else u_scheme U u')"
    by (rule built_url [OF assms(1,2)])
  from b(1) assms(3) have u: "u' = u" by simp
  show thesis
  proof (rule that [OF b(2)])
    show "u_scheme U v = ''redis'' \<or> u_scheme U v = ''rediss''"
      using b(3) assms(4) unfolding u by auto
    show "u_scheme U v = ''rediss'' \<longleftrightarrow> resolves_to_tls_scheme U cli"
      using b(3) assms(3,4) unfolding u by (auto simp: resolves_to_tls_scheme_def parsed_scheme_def)
  qed (simp add: url_disables_cert_verification_def b(2))
qed



end
