(* ===== verification/Unit_Tests_Url.thy ===== *)
theory Unit_Tests_Url
  imports Unit_Tests_Main Connection
begin

text \<open>
  The unit tests of \<open>main.rs\<close> that read the built URL back, with the accessors of the \<open>url\<close> crate or
  with the \<open>redis\<close> crate, and the test of the statistics. They are evaluated on the reference
  implementations; \<open>host_str\<close>, \<open>port_of\<close> and \<open>password_str\<close> are the accessors the program itself does
  not use, the last one without undoing the percent-encoding.
\<close>

section \<open>The built URL, read by the url crate\<close>

text \<open>\<open>url::Url::parse(&url).unwrap()\<close>, and a test of the result.\<close>

definition parsed_back :: "'u url_ops \<Rightarrow> string \<Rightarrow> ('u \<Rightarrow> bool) \<Rightarrow> bool" where
  "parsed_back U s P \<longleftrightarrow> (case u_parse U s of Some u \<Rightarrow> P u | None \<Rightarrow> False)"

definition build_redis_url_encodes_special_chars_in_password ::
  "'u url_ops \<Rightarrow> ('u \<Rightarrow> string) \<Rightarrow> ('u \<Rightarrow> string option) \<Rightarrow> bool" where
  "build_redis_url_encodes_special_chars_in_password U host_str password_str \<longleftrightarrow>
     built U (base_cli\<lparr>password := Some ''p@ss/word''\<rparr>) (\<lambda>url.
       parsed_back U url (\<lambda>parsed. host_str parsed = ''127.0.0.1'' \<and>
         (\<exists>raw_pw. password_str parsed = Some raw_pw \<and> str_contains raw_pw ''%40'')) \<and>
       \<not> str_contains url '':p@ss'')"

definition build_redis_url_host_port_override ::
  "'u url_ops \<Rightarrow> ('u \<Rightarrow> string) \<Rightarrow> ('u \<Rightarrow> u16 option) \<Rightarrow> bool" where
  "build_redis_url_host_port_override U host_str port_of \<longleftrightarrow>
     built U (base_cli\<lparr>host := Some ''10.0.0.1'', port := Some 6380\<rparr>) (\<lambda>url.
       parsed_back U url (\<lambda>parsed. host_str parsed = ''10.0.0.1'' \<and> port_of parsed = Some 6380))"

lemma esc_special: "esc ''p@ss/word'' = ''p%40ss%2fword''"
  by code_simp

lemma print_overrides:
  "print_url \<lparr>r_scheme = ''redis'', r_password = Some ''p@ss/word'', r_host = ''127.0.0.1'', r_port = Some 6379,
       r_path = ''0'', r_fragment = None\<rparr> = ''redis://:p%40ss%2fword@127.0.0.1:6379/0''"
proof -
  have "esc ''redis'' = ''redis''" "esc ''127.0.0.1'' = ''127.0.0.1''" "esc ''0'' = ''0''" by code_simp+
  then show ?thesis by (simp add: print_url_def print_auth_def esc_special dec.simps digit_chars)
qed

lemma read_back_tests:
  "build_redis_url_encodes_special_chars_in_password ref_url_ops r_host (\<lambda>u. map_option esc (r_password u))"
  "build_redis_url_host_port_override ref_url_ops r_host r_port"
  by (simp_all add: build_redis_url_encodes_special_chars_in_password_def build_redis_url_host_port_override_def
      built_def parsed_back_def base_cli_def build_redis_url_def set_option_def resolves_to_tls_scheme_def
      parsed_scheme_def url_evals dec.simps digit_chars parse_print_url)
    (simp add: str_contains_def esc_special print_overrides)

text \<open>This one relies on the parser: it lower-cases the scheme, and a text without one is not a URL.\<close>

definition parsed_scheme_lowercases :: "'u url_ops \<Rightarrow> bool" where
  "parsed_scheme_lowercases U \<longleftrightarrow>
     parsed_scheme U ''REDISS://host:6380/0'' = Some ''rediss'' \<and>
     parsed_scheme U ''redis://host:6379/0'' = Some ''redis'' \<and> parsed_scheme U ''not a url'' = None"

definition ascii_lower :: "char \<Rightarrow> char" where
  "ascii_lower c = (if CHR ''A'' \<le> c \<and> c \<le> CHR ''Z'' then char_of (of_char c + 32 :: nat) else c)"

definition lowers_schemes :: "'u url_ops \<Rightarrow> bool" where
  "lowers_schemes U \<longleftrightarrow> (\<forall>s u. u_parse U s = Some u \<longrightarrow>
     CHR '':'' \<in> set s \<and> u_scheme U u = map ascii_lower (takeWhile (\<lambda>c. c \<noteq> CHR '':'') s))"

lemma lowercase_test:
  assumes "lowers_schemes U" and "u_parse U ''REDISS://host:6380/0'' \<noteq> None"
    and "u_parse U ''redis://host:6379/0'' \<noteq> None"
  shows "parsed_scheme_lowercases U"
proof -
  have "map ascii_lower ''REDISS'' = ''rediss''" "map ascii_lower ''redis'' = ''redis''"
    by code_simp+
  moreover have "CHR '':'' \<in> set ''not a url''" if "u_parse U ''not a url'' = Some u" for u
    using assms(1) that unfolding lowers_schemes_def by blast
  then have "u_parse U ''not a url'' = None" by (cases "u_parse U ''not a url''") auto
  ultimately show ?thesis
    using assms by (auto simp: parsed_scheme_lowercases_def parsed_scheme_def lowers_schemes_def)
qed

section \<open>The built URL, read by the redis crate\<close>

text \<open>\<open>url.into_connection_info().expect(...)\<close>, and a test of the result.\<close>

definition connects :: "(string \<Rightarrow> conn_info option) \<Rightarrow> string \<Rightarrow> (conn_info \<Rightarrow> bool) \<Rightarrow> bool" where
  "connects I s P \<longleftrightarrow> (case I s of Some i \<Rightarrow> P i | None \<Rightarrow> False)"

definition build_redis_url_insecure_parses_via_redis_rs_as_tls_insecure ::
  "'u url_ops \<Rightarrow> (string \<Rightarrow> conn_info option) \<Rightarrow> bool" where
  "build_redis_url_insecure_parses_via_redis_rs_as_tls_insecure U I \<longleftrightarrow>
     built U (base_cli\<lparr>tls := True, insecure := True\<rparr>) (\<lambda>url. connects I url (\<lambda>info.
       (case ci_addr info of
          TcpTls h p unsafe \<Rightarrow> h = ''127.0.0.1'' \<and> p = 6379 \<and> unsafe
        | _ \<Rightarrow> False) \<and> ci_db info = 0))"

definition build_redis_url_tls_without_insecure_parses_as_tls_secure ::
  "'u url_ops \<Rightarrow> (string \<Rightarrow> conn_info option) \<Rightarrow> bool" where
  "build_redis_url_tls_without_insecure_parses_as_tls_secure U I \<longleftrightarrow>
     built U (base_cli\<lparr>tls := True\<rparr>) (\<lambda>url. connects I url (\<lambda>info.
       (case ci_addr info of TcpTls h p unsafe \<Rightarrow> \<not> unsafe | _ \<Rightarrow> False) \<and> ci_db info = 0))"

definition build_redis_url_plain_redis_parses_as_tcp_not_tls ::
  "'u url_ops \<Rightarrow> (string \<Rightarrow> conn_info option) \<Rightarrow> bool" where
  "build_redis_url_plain_redis_parses_as_tcp_not_tls U I \<longleftrightarrow>
     built U base_cli (\<lambda>url. connects I url (\<lambda>info.
       (case ci_addr info of Tcp h p \<Rightarrow> True | _ \<Rightarrow> False) \<and> ci_db info = 0))"

lemma connection_tests:
  "build_redis_url_insecure_parses_via_redis_rs_as_tls_insecure ref_url_ops ref_conn"
  "build_redis_url_tls_without_insecure_parses_as_tls_secure ref_url_ops ref_conn"
  "build_redis_url_plain_redis_parses_as_tcp_not_tls ref_url_ops ref_conn"
  by (simp_all add: build_redis_url_insecure_parses_via_redis_rs_as_tls_insecure_def
      build_redis_url_tls_without_insecure_parses_as_tls_secure_def
      build_redis_url_plain_redis_parses_as_tcp_not_tls_def connects_def ref_conn_def
      built_def base_cli_def build_redis_url_def set_option_def resolves_to_tls_scheme_def
      parsed_scheme_def url_evals dec.simps digit_chars trim_slashes_def parse_unsigned_def digit_evals)

end
