(* ===== verification/Integration_Tests.thy ===== *)
theory Integration_Tests
  imports Other_Keys
begin

text \<open>
  The integration tests of \<open>tests/protocol_integration.rs\<close>, which run the producer and the workers
  against a server. Here they hold for every server that satisfies its law and answers every
  command, whatever it held before, and, where workers run, for every interleaving in which they
  send the done signal.
\<close>

section \<open>The keys hold what the producer says\<close>

definition envelope_shape :: "text_codec \<Rightarrow> string \<Rightarrow> celery_envelope \<Rightarrow> bool" where
  "envelope_shape c q e \<longleftrightarrow>
     content_encoding e = ''utf-8'' \<and> content_type e = ''application/json'' \<and>
     body_encoding (properties e) = ''base64'' \<and> priority (properties e) = 3 \<and>
     routing_key (delivery_info (properties e)) = q \<and> enqueued_at_ns c e \<noteq> None"

definition protocol_priority_expanded_keys_hold_correct_shape_and_counts ::
  "text_codec \<Rightarrow> 's server \<Rightarrow> (nat \<Rightarrow> stamp) \<Rightarrow> 's \<Rightarrow> bool" where
  "protocol_priority_expanded_keys_hold_correct_shape_and_counts c sv st s \<longleftrightarrow>
     (let queues = [''it_protocol_shape_q0'', ''it_protocol_shape_q1'']; (r1, s1) = clear_queue sv queues s;
          (r2, s2) = bulk_enqueue c st sv queues [0, 3, 6, 9] 40 s1; m = sv_lists sv s2;
          keys = brpop_keys queues; sample_key = q_for_pri (queues ! 0) 3
      in r1 = Ok () \<and> r2 = Ok () \<and> length keys = 8 \<and> (\<forall>key \<in> set keys. length (m key) = 5) \<and>
         sum_list (map (\<lambda>key. length (m key)) keys) = 40 \<and>
         sample_key = queues ! 0 @ PRIORITY_SEP @ dec 3 \<and>
         (case m sample_key of
            raw # rest \<Rightarrow> (case env_from_slice c raw of
                              Some e \<Rightarrow> envelope_shape c (queues ! 0) e | None \<Rightarrow> False)
          | [] \<Rightarrow> False))"

lemma shape_plan:
  "length (brpop_keys [''it_protocol_shape_q0'', ''it_protocol_shape_q1'']) = 8"
  "\<forall>key \<in> set (brpop_keys [''it_protocol_shape_q0'', ''it_protocol_shape_q1'']). length (filter (\<lambda>i.
     job_key [''it_protocol_shape_q0'', ''it_protocol_shape_q1''] [0, 3, 6, 9] i = key) [0..<40]) = 5"
  "filter (\<lambda>i. job_key [''it_protocol_shape_q0'', ''it_protocol_shape_q1''] [0, 3, 6, 9] i
     = q_for_pri ''it_protocol_shape_q0'' 3) [0..<40] = [2, 10, 18, 26, 34]"
  "q_for_pri ''it_protocol_shape_q0'' 3 = ''it_protocol_shape_q0'' @ PRIORITY_SEP @ dec 3"
  "list_all utf8_valid [''it_protocol_shape_q0'', ''it_protocol_shape_q1'']"
  "job_queue [''it_protocol_shape_q0'', ''it_protocol_shape_q1''] 34 = ''it_protocol_shape_q0''"
  "job_priority [''it_protocol_shape_q0'', ''it_protocol_shape_q1''] [0, 3, 6, 9] 34 = 3"
  by code_simp+

text \<open>The list under a key of freshly cleared queues is what the producer pushed, last job first.\<close>

lemma filled_list:
  assumes "server_ok sv" and "plan_ok qs ps st" and "clear_queue sv qs s = (Ok (), s1)"
    and "bulk_enqueue c st sv qs ps n s1 = (Ok (), s2)" and "k \<in> set (brpop_keys qs)"
  shows "sv_lists sv s2 k = rev (map (job_payload c st qs ps) (filter (\<lambda>i. job_key qs ps i = k) [0..<unat n]))"
  using bulk_enqueue_lists [OF assms(1,2,4), of k] clear_queue_lists [OF assms(1,3)] assms(5) by simp

lemma protocol_test:
  assumes "codec_ok c" and "server_ok sv" and "reliable sv" and "\<And>i. stamp_ok (st i)"
  shows "protocol_priority_expanded_keys_hold_correct_shape_and_counts c sv st s"
proof -
  let ?q = "''it_protocol_shape_q0''"
  let ?qs = "[?q, ''it_protocol_shape_q1'']" and ?ps = "[0, 3, 6, 9] :: u8 list"
  have plan: "plan_ok ?qs ?ps st" using shape_plan(5) assms(4) by (simp add: plan_ok_def)
  obtain s1 where s1: "clear_queue sv ?qs s = (Ok (), s1)"
    using clear_succeeds [OF assms(3), of ?qs False s] by (auto simp: pre_trial_clear_def)
  obtain s2 where s2: "bulk_enqueue c st sv ?qs ?ps 40 s1 = (Ok (), s2)"
    using bulk_enqueue_Ok [OF _ plan, of sv c 40 s1] assms(3) by (auto simp: reliable_def)
  have n: "unat (40 :: u64) = 40" by simp
  note lists = filled_list [OF assms(2) plan s1 s2, unfolded n]
  have len: "length (sv_lists sv s2 key) = 5" if "key \<in> set (brpop_keys ?qs)" for key
    using lists [OF that] shape_plan(2) that by simp
  then have "map (\<lambda>key. length (sv_lists sv s2 key)) (brpop_keys ?qs) = map (\<lambda>key. 5) (brpop_keys ?qs)"
    by simp
  then have sum: "sum_list (map (\<lambda>key. length (sv_lists sv s2 key)) (brpop_keys ?qs)) = 40"
    using shape_plan(1) by (simp only: sum_list_triv) simp
  have "q_for_pri ?q 3 \<in> set (brpop_keys ?qs)"
    unfolding brpop_keys_def by (rule kombu.written_key_polled) simp
  from lists [OF this] have sample: "sv_lists sv s2 (q_for_pri ?q 3) = job_payload c st ?qs ?ps 34
      # rev (map (job_payload c st ?qs ?ps) [2, 10, 18, 26])"
    unfolding shape_plan(3) by simp
  note job = shape_plan(6,7)
  obtain e where e: "envelope_new c (st 34) ?q 3 34 = (Ok e :: (redis_error, celery_envelope) outcome)"
    using envelope_new_exists [OF assms(4)] by blast
  have u: "utf8_valid ?q" using shape_plan(5) by simp
  have read: "env_from_slice c (job_payload c st ?qs ?ps 34) = Some e"
    using env_round_trip [OF assms(1) assms(4) u e] by (simp add: job_payload_def job e)
  have "envelope_shape c ?q e"
    using enqueued_at_ns_new [OF assms(1) e] e
    by (auto simp: envelope_shape_def envelope_new_def unix_now_ns_def split: if_splits)
  with len sum sample read shape_plan(1,4) s1 s2 show ?thesis
    by (simp add: protocol_priority_expanded_keys_hold_correct_shape_and_counts_def)
qed

section \<open>The workers drain the keys\<close>

text \<open>The configuration of the workers of these tests, and what they assert in the end.\<close>

definition test_cfg :: "string list \<Rightarrow> u64 \<Rightarrow> worker_cfg" where
  "test_cfg qs n = \<lparr>target_jobs = n, keys = brpop_keys qs, brpop_timeout_secs = Fin 1\<rparr>"

definition drained_exactly :: "'s server \<Rightarrow> string list \<Rightarrow> u64 \<Rightarrow> 's shared \<Rightarrow> bool" where
  "drained_exactly sv qs n s \<longleftrightarrow>
     get_completed (metrics s) = n \<and> get_errors (metrics s) = 0 \<and> length (latencies s) = unat n \<and>
     (\<forall>key \<in> set (brpop_keys qs). length (sv_lists sv (srv s) key) = 0)"

lemma stored_0: "stored ks m = 0 \<longleftrightarrow> (\<forall>k \<in> set ks. m k = [])"
  by (induction ks) auto

lemma queue_plan:
  assumes "ascii q" and "\<And>i. stamp_ok (st i)" and "ps \<noteq> []" and "length ps < 2 ^ 64"
  shows "plan_ok [q] ps st"
  using assms by (simp add: plan_ok_def ascii_utf8_valid)

lemma queue_keys_once: "distinct (brpop_keys [q])"
  using make_queue_names_keys_distinct [of q 1] by (simp add: make_queue_names_def)

lemma filled_queue:
  assumes "codec_ok c" and "server_ok sv" and "plan_ok qs ps st" and "distinct (brpop_keys qs)"
    and "clear_queue sv qs s = (Ok (), s1)" and "bulk_enqueue c st sv qs ps n s1 = (Ok (), s2)"
  shows "stored (brpop_keys qs) (sv_lists sv s2) = unat n"
    and "v \<in> stored_set (brpop_keys qs) (sv_lists sv s2) \<Longrightarrow> payload_marker c v \<noteq> None"
proof -
  have e: "stored (brpop_keys qs) (sv_lists sv s1) = 0 \<and> stored_set (brpop_keys qs) (sv_lists sv s1) = {}"
    by (rule stored_empty) (simp add: clear_queue_lists [OF assms(2,5)])
  with bulk_enqueue_stored [OF assms(2-4,6)] show "stored (brpop_keys qs) (sv_lists sv s2) = unat n" by simp
  show "v \<in> stored_set (brpop_keys qs) (sv_lists sv s2) \<Longrightarrow> payload_marker c v \<noteq> None"
    using bulk_enqueue_markers [OF assms(1-3,6), of "brpop_keys qs" v] e by auto
qed

lemma pool_drains_exactly:
  assumes "server_ok sv" and "no_error_replies sv" and "distinct (brpop_keys qs)"
    and "stored (brpop_keys qs) (sv_lists sv s0) = unat n"
    and "\<And>v. v \<in> stored_set (brpop_keys qs) (sv_lists sv s0) \<Longrightarrow> payload_marker c v \<noteq> None"
    and "pool_run (test_cfg qs n) c sv workers_no s0 p" and "done_flag (sh p)"
  shows "drained_exactly sv qs n (sh p)"
proof -
  from pool_complete_facts [OF assms(1) _ assms(2) _ _ assms(6,7)] assms(3-5)
  have "counted (sh p) = unat n" "waiting (test_cfg qs n) sv (sh p) = 0" "errors (metrics (sh p)) = 0"
      "length (latencies (sh p)) = unat n" by (simp_all add: test_cfg_def)
  then show ?thesis
    by (simp add: drained_exactly_def get_completed_def get_errors_def waiting_def stored_0 test_cfg_def
        word_unat_eq_iff)
qed

lemma worker_drain_test:
  assumes "codec_ok c" and "server_ok sv" and "no_error_replies sv" and "\<And>i. stamp_ok (st i)"
    and "clear_queue sv [''it_worker_drain_q''] s = (Ok (), s1)"
    and "bulk_enqueue c st sv [''it_worker_drain_q''] [0, 3, 6, 9] 200 s1 = (Ok (), s2)"
    and "pool_run (test_cfg [''it_worker_drain_q''] 200) c sv 4 s2 p" and "done_flag (sh p)"
  shows "drained_exactly sv [''it_worker_drain_q''] 200 (sh p)"
proof -
  have a: "ascii ''it_worker_drain_q''" by code_simp
  have plan: "plan_ok [''it_worker_drain_q''] [0, 3, 6, 9] st"
    by (rule queue_plan [OF a assms(4)]) simp_all
  note filled = filled_queue [OF assms(1,2) plan queue_keys_once assms(5,6)]
  show ?thesis by (rule pool_drains_exactly [OF assms(2,3) queue_keys_once filled assms(7,8)])
qed

section \<open>The workers take nothing else\<close>

lemma decoy_key:
  "''it_worker_wrong_key_q_not_a_real_priority_key'' \<notin> set (brpop_keys [''it_worker_wrong_key_q''])"
  by code_simp

lemma worker_wrong_key_test:
  fixes decoy :: string
  defines "decoy \<equiv> ''it_worker_wrong_key_q_not_a_real_priority_key''" and "qs \<equiv> [''it_worker_wrong_key_q'']"
  assumes "codec_ok c" and "server_ok sv" and "no_error_replies sv" and "\<And>i. stamp_ok (st i)"
    and "clear_queue sv qs s = (Ok (), s1)" and "sv_pipe sv [DEL decoy] s1 = (Inr (), s2)"
    and "bulk_enqueue c st sv qs [0] 1 s2 = (Ok (), s3)" and "sv_pipe sv [LPUSH decoy bogus] s3 = (Inr (), s4)"
    and "pool_run (test_cfg qs 1) c sv 1 s4 p" and "done_flag (sh p)"
  shows "decoy \<notin> set (brpop_keys qs) \<and> get_completed (metrics (sh p)) = 1 \<and>
    length (sv_lists sv (srv (sh p)) decoy) = 1"
proof -
  have d: "decoy \<notin> set (brpop_keys qs)" using decoy_key by (simp add: decoy_def qs_def)
  have a: "ascii ''it_worker_wrong_key_q''" by code_simp
  have plan: "plan_ok qs [0] st" "distinct (brpop_keys qs)"
    unfolding qs_def by (rule queue_plan [OF a assms(6)], simp_all add: queue_keys_once)
  have l2: "sv_lists sv s2 = (sv_lists sv s1)(decoy := [])"
    using server_ok_pipe [OF assms(4,8)] by simp
  have l4: "sv_lists sv s4 = (sv_lists sv s3)(decoy := bogus # sv_lists sv s3 decoy)"
    using server_ok_pipe [OF assms(4,10)] by simp
  have e: "stored (brpop_keys qs) (sv_lists sv s2) = 0 \<and> stored_set (brpop_keys qs) (sv_lists sv s2) = {}"
    by (rule stored_empty) (use d in \<open>auto simp: l2 clear_queue_lists [OF assms(4,7)]\<close>)
  have same: "sv_lists sv s4 k = sv_lists sv s3 k" if "k \<in> set (brpop_keys qs)" for k
    using that d by (auto simp: l4)
  have st: "stored (brpop_keys qs) (sv_lists sv s4) = unat (1 :: u64)"
    using bulk_enqueue_stored [OF assms(4) plan assms(9)] e same by (simp cong: stored_cong)
  have "stored_set (brpop_keys qs) (sv_lists sv s4) = stored_set (brpop_keys qs) (sv_lists sv s3)"
    using same by (simp add: stored_set_def)
  then have m: "payload_marker c v \<noteq> None" if "v \<in> stored_set (brpop_keys qs) (sv_lists sv s4)" for v
    using bulk_enqueue_markers [OF assms(3,4) plan(1) assms(9), of "brpop_keys qs" v] e that by auto
  have "sv_lists sv s3 decoy = []"
    using bulk_enqueue_lists [OF assms(4) plan(1) assms(9), of decoy] job_key_polled [of qs "[0]"] d
    by (auto simp: l2 qs_def intro!: filter_False)
  moreover have "sv_lists sv (srv (sh p)) decoy = sv_lists sv s4 decoy"
    by (rule pool_run_keys [OF assms(4) _ assms(11)]) (simp add: test_cfg_def d)
  ultimately show ?thesis
    using d pool_drains_exactly [OF assms(4,5) plan(2) st m assms(11,12)]
    by (simp add: l4 drained_exactly_def)
qed

end
